(* ===== verification/Prelude.thy ===== *)
theory Prelude
  imports
    Main
    "HOL-Library.Word"
    "HOL-Library.Sublist"
    "HOL-Library.AList"
    "HOL-Library.Char_ord"
    "HOL-Library.List_Lexorder"
    "HOL-Library.Product_Lexorder"
    "HOL-Library.Multiset"
begin

text \<open>
  What the components of the daemon's model share: the machine integers, Rust's \<open>Result\<close> as a
  sum type with its combinators, the string operations of the Rust standard library the daemon
  calls (\<open>trim\<close>, \<open>split_whitespace\<close>, \<open>to_ascii_lowercase\<close>, decimal formatting), and generic
  lemmas on lists.

  A Rust \<open>String\<close> is the list of its UTF-8 bytes (\<^typ>\<open>string\<close>, a list of 8-bit characters), so
  \<open>len()\<close> is \<^const>\<open>length\<close> and the derived order of strings is the lexicographic order of
  bytes.  A value of a type that belongs to a crate outside the repository and that the daemon
  only passes around (a key, a client handle, an address) is an opaque string; the functions of
  such a crate are parameters of the definitions that call them.
\<close>

section \<open>Machine integers\<close>

type_synonym u16 = "16 word"
type_synonym u32 = "32 word"
type_synonym u64 = "64 word"

text \<open>\<open>usize\<close> lengths and counts are \<^typ>\<open>nat\<close>; \<open>i64\<close> values are \<^typ>\<open>int\<close>, with the range of
  \<open>i64\<close> written where the code converts.\<close>

definition i64_max :: int where
  "i64_max = 2 ^ 63 - 1"

text \<open>\<open>u64::saturating_mul\<close>.\<close>

definition saturating_mul :: "u64 \<Rightarrow> u64 \<Rightarrow> u64" where
  "saturating_mul a b = (if unat a * unat b < 2 ^ 64 then a * b else - 1)"

lemma unat_max_u64: "unat (- 1 :: u64) = 2 ^ 64 - 1"
  by (simp add: unsigned_minus_1_eq_mask mask_eq_exp_minus_1)

lemma unat_saturating_mul:
  "unat (saturating_mul a b) = min (unat a * unat b) (2 ^ 64 - 1)"
proof (cases "unat a * unat b < 2 ^ 64")
  case True
  then show ?thesis
    by (simp add: saturating_mul_def unat_word_ariths min_def)
next
  case False
  then show ?thesis
    by (simp add: saturating_mul_def unat_max_u64 min_def)
qed

section \<open>Result\<close>

text \<open>\<open>Result<T, E>\<close> is the sum \<open>'e + 't\<close> with the error on the left; \<open>?\<close> is \<open>and_then\<close>.\<close>

fun and_then :: "'e + 'a \<Rightarrow> ('a \<Rightarrow> 'e + 'b) \<Rightarrow> 'e + 'b" where
  "and_then (Inl e) f = Inl e"
| "and_then (Inr x) f = f x"

fun map_err :: "('e \<Rightarrow> 'f) \<Rightarrow> 'e + 'a \<Rightarrow> 'f + 'a" where
  "map_err g (Inl e) = Inl (g e)"
| "map_err g (Inr x) = Inr x"

fun map_ok :: "('a \<Rightarrow> 'b) \<Rightarrow> 'e + 'a \<Rightarrow> 'e + 'b" where
  "map_ok g (Inl e) = Inl e"
| "map_ok g (Inr x) = Inr (g x)"

fun ok_or :: "'e \<Rightarrow> 'a option \<Rightarrow> 'e + 'a" where
  "ok_or e None = Inl e"
| "ok_or e (Some x) = Inr x"

text \<open>\<open>Option<Result<T, E>>::transpose\<close> after a \<open>map\<close>.\<close>

fun map_transpose :: "('a \<Rightarrow> 'e + 'b) \<Rightarrow> 'a option \<Rightarrow> 'e + 'b option" where
  "map_transpose f None = Inr None"
| "map_transpose f (Some x) = map_ok Some (f x)"

text \<open>\<open>iter().map(f).collect::<Result<Vec<_>, _>>()\<close> stops at the first error.\<close>

fun collect_results :: "('a \<Rightarrow> 'e + 'b) \<Rightarrow> 'a list \<Rightarrow> 'e + 'b list" where
  "collect_results f [] = Inr []"
| "collect_results f (x # xs) =
     and_then (f x) (\<lambda>y. and_then (collect_results f xs) (\<lambda>ys. Inr (y # ys)))"

definition is_ok :: "'e + 'a \<Rightarrow> bool" where
  "is_ok r = (case r of Inl _ \<Rightarrow> False | Inr _ \<Rightarrow> True)"

lemma is_ok_simps [simp]: "is_ok (Inl e) = False" "is_ok (Inr x) = True"
  by (simp_all add: is_ok_def)

lemma and_then_eq_Inr: "and_then m f = Inr y \<longleftrightarrow> (\<exists>x. m = Inr x \<and> f x = Inr y)"
  by (cases m) auto

lemma and_then_eq_Inl:
  "and_then m f = Inl e \<longleftrightarrow> m = Inl e \<or> (\<exists>x. m = Inr x \<and> f x = Inl e)"
  by (cases m) auto

lemma map_err_eq_Inr [simp]: "map_err g m = Inr y \<longleftrightarrow> m = Inr y"
  by (cases m) auto

lemma map_ok_eq_Inr: "map_ok g m = Inr y \<longleftrightarrow> (\<exists>x. m = Inr x \<and> y = g x)"
  by (cases m) auto

lemma ok_or_eq_Inr [simp]: "ok_or e m = Inr y \<longleftrightarrow> m = Some y"
  by (cases m) auto

lemma collect_results_eq_Inr:
  "collect_results f xs = Inr ys \<longleftrightarrow> list_all2 (\<lambda>x y. f x = Inr y) xs ys"
  by (induction xs arbitrary: ys) (auto simp: and_then_eq_Inr list_all2_Cons1)

lemma collect_results_map:
  "(\<And>x. x \<in> set xs \<Longrightarrow> f x = Inr (g x)) \<Longrightarrow> collect_results f xs = Inr (map g xs)"
  by (induction xs) auto

lemma collect_results_error:
  "collect_results f xs = Inl e \<Longrightarrow> \<exists>x \<in> set xs. f x = Inl e"
  by (induction xs) (auto simp: and_then_eq_Inl)

named_theorems result_eqs \<open>when a chain of fallible steps succeeds\<close>

declare and_then_eq_Inr [result_eqs] map_ok_eq_Inr [result_eqs] collect_results_eq_Inr [result_eqs]

section \<open>Strings\<close>

subsection \<open>White space, \<open>trim\<close> and \<open>split_whitespace\<close>\<close>

text \<open>The code points with Unicode's \<open>White_Space\<close> property, which \<open>char::is_whitespace\<close> tests,
  as UTF-8 byte sequences.\<close>

definition white_space :: "string list" where
  "white_space =
     [[CHR 0x09], [CHR 0x0A], [CHR 0x0B], [CHR 0x0C], [CHR 0x0D], [CHR 0x20],
      [CHR 0xC2, CHR 0x85], [CHR 0xC2, CHR 0xA0], [CHR 0xE1, CHR 0x9A, CHR 0x80],
      [CHR 0xE2, CHR 0x80, CHR 0x80], [CHR 0xE2, CHR 0x80, CHR 0x81],
      [CHR 0xE2, CHR 0x80, CHR 0x82], [CHR 0xE2, CHR 0x80, CHR 0x83],
      [CHR 0xE2, CHR 0x80, CHR 0x84], [CHR 0xE2, CHR 0x80, CHR 0x85],
      [CHR 0xE2, CHR 0x80, CHR 0x86], [CHR 0xE2, CHR 0x80, CHR 0x87],
      [CHR 0xE2, CHR 0x80, CHR 0x88], [CHR 0xE2, CHR 0x80, CHR 0x89],
      [CHR 0xE2, CHR 0x80, CHR 0x8A], [CHR 0xE2, CHR 0x80, CHR 0xA8],
      [CHR 0xE2, CHR 0x80, CHR 0xA9], [CHR 0xE2, CHR 0x80, CHR 0xAF],
      [CHR 0xE2, CHR 0x81, CHR 0x9F], [CHR 0xE3, CHR 0x80, CHR 0x80]]"

definition leading :: "string list \<Rightarrow> string \<Rightarrow> string option" where
  "leading ws s = find (\<lambda>w. w \<noteq> [] \<and> prefix w s) ws"

lemma leading_SomeD:
  "leading ws s = Some w \<Longrightarrow> w \<noteq> [] \<and> prefix w s \<and> w \<in> set ws"
  by (auto simp: leading_def find_Some_iff)

lemma leading_None_iff: "leading ws s = None \<longleftrightarrow> (\<forall>w \<in> set ws. w \<noteq> [] \<longrightarrow> \<not> prefix w s)"
  by (auto simp: leading_def find_None_iff)

lemma leading_None_prefix: "leading ws s = None \<Longrightarrow> prefix t s \<Longrightarrow> leading ws t = None"
  by (auto simp: leading_None_iff dest: prefix_order.order_trans)

lemma leading_Nil [simp]: "leading ws [] = None"
  by (simp add: leading_None_iff)

function strip_start :: "string list \<Rightarrow> string \<Rightarrow> string" where
  "strip_start ws s =
     (case leading ws s of None \<Rightarrow> s | Some w \<Rightarrow> strip_start ws (drop (length w) s))"
  by pat_completeness auto
termination
proof (relation "measure (\<lambda>(ws, s). length s)")
  fix ws :: "string list" and s w :: string
  assume "leading ws s = Some w"
  then have "w \<noteq> []" and "length w \<le> length s"
    by (auto dest!: leading_SomeD prefix_length_le)
  then show "((ws, drop (length w) s), ws, s) \<in> measure (\<lambda>(ws, s). length s)"
    by (cases w) auto
qed simp

declare strip_start.simps [simp del]

definition trim :: "string \<Rightarrow> string" where
  "trim s = rev (strip_start (map rev white_space) (rev (strip_start white_space s)))"

lemma strip_start_done: "leading ws (strip_start ws s) = None"
  by (induction ws s rule: strip_start.induct)
    (subst strip_start.simps, simp split: option.split)

lemma strip_start_id: "leading ws s = None \<Longrightarrow> strip_start ws s = s"
  by (subst strip_start.simps) simp

lemma strip_start_suffix: "suffix (strip_start ws s) s"
proof (induction ws s rule: strip_start.induct)
  case (1 ws s)
  show ?case
  proof (cases "leading ws s")
    case None
    then show ?thesis by (simp add: strip_start_id)
  next
    case (Some w)
    with 1 have "suffix (strip_start ws (drop (length w) s)) (drop (length w) s)" by simp
    moreover have "suffix (drop (length w) s) s" by (rule suffix_drop)
    ultimately show ?thesis
      by (subst strip_start.simps) (auto simp: Some dest: suffix_order.order_trans)
  qed
qed

lemma trim_idem [simp]: "trim (trim s) = trim s"
proof -
  let ?t = "strip_start white_space s"
  have "prefix (trim s) ?t"
    using strip_start_suffix [of "map rev white_space" "rev ?t"]
    by (simp add: trim_def suffix_to_prefix)
  then have "leading white_space (trim s) = None"
    using leading_None_prefix strip_start_done by blast
  then have *: "strip_start white_space (trim s) = trim s"
    by (rule strip_start_id)
  have "leading (map rev white_space) (rev (trim s)) = None"
    by (simp add: trim_def strip_start_done)
  with * show ?thesis
    by (subst trim_def) (simp add: strip_start_id)
qed

text \<open>A token is a maximal run without white space.\<close>

fun take_token :: "string \<Rightarrow> string \<times> string" where
  "take_token [] = ([], [])"
| "take_token (c # cs) =
     (case leading white_space (c # cs) of
        Some _ \<Rightarrow> ([], c # cs)
      | None \<Rightarrow> (let (tok, rest) = take_token cs in (c # tok, rest)))"

lemma take_token_length: "length (snd (take_token s)) \<le> length s"
  by (induction s) (auto split: option.split prod.split)

function split_whitespace :: "string \<Rightarrow> string list" where
  "split_whitespace s =
     (case strip_start white_space s of
        [] \<Rightarrow> []
      | c # cs \<Rightarrow> fst (take_token (c # cs)) # split_whitespace (snd (take_token (c # cs))))"
  by pat_completeness auto
termination
proof (relation "measure length")
  fix s cs :: string and c
  assume *: "strip_start white_space s = c # cs"
  then have "leading white_space (c # cs) = None"
    using strip_start_done [of white_space s] by simp
  then have "length (snd (take_token (c # cs))) \<le> length cs"
    using take_token_length [of cs] by (auto split: prod.split)
  moreover have "length (c # cs) \<le> length s"
    using strip_start_suffix [of white_space s] * by (auto dest: suffix_length_le)
  ultimately show "(snd (take_token (c # cs)), s) \<in> measure length" by simp
qed simp

declare split_whitespace.simps [simp del]

text \<open>Words of printable ASCII characters between blanks and line feeds.\<close>

definition plain_char :: "char \<Rightarrow> bool" where
  "plain_char c \<longleftrightarrow> CHR ''!'' \<le> c \<and> c \<le> CHR ''~''"

definition blank :: "char \<Rightarrow> bool" where
  "blank c \<longleftrightarrow> c = CHR '' '' \<or> c = CHR 0x0A"

lemma plain_char_leading: "plain_char c \<Longrightarrow> leading white_space (c # s) = None"
  by (auto simp: leading_None_iff white_space_def plain_char_def less_eq_char_def)

lemma blank_leading: "blank c \<Longrightarrow> leading white_space (c # s) = Some [c]"
  unfolding blank_def by (erule disjE) (simp_all only: leading_def white_space_def find.simps,
      simp_all)

lemma take_token_plain: "list_all plain_char w \<Longrightarrow> take_token w = (w, [])"
  by (induction w) (simp_all add: plain_char_leading)

lemma take_token_blank: "list_all plain_char w \<Longrightarrow> blank c \<Longrightarrow> take_token (w @ c # s) = (w, c # s)"
  by (induction w) (simp_all add: plain_char_leading blank_leading)

lemma split_whitespace_Nil: "split_whitespace [] = []"
  by (simp add: split_whitespace.simps strip_start_id)

lemma split_whitespace_blank:
  assumes "blank c"
  shows "split_whitespace (c # s) = split_whitespace s"
proof -
  have "strip_start white_space (c # s) = strip_start white_space s"
    by (subst strip_start.simps) (simp add: blank_leading [OF assms])
  then show ?thesis
    by (simp add: split_whitespace.simps [of "c # s"] split_whitespace.simps [of s])
qed

lemma split_whitespace_plain:
  assumes "list_all plain_char w" and "w \<noteq> []"
  shows "split_whitespace w = [w]"
proof -
  obtain x xs where w: "w = x # xs" using assms(2) by (cases w) auto
  then have "strip_start white_space w = x # xs" and token: "take_token (x # xs) = (x # xs, [])"
    using assms(1) take_token_plain [of w] by (simp_all add: strip_start_id plain_char_leading)
  then show ?thesis
    unfolding split_whitespace.simps [of w] by (simp only: list.case token fst_conv snd_conv split_whitespace_Nil w)
qed

lemma split_whitespace_word:
  assumes "list_all plain_char w" and "w \<noteq> []" and "blank c"
  shows "split_whitespace (w @ c # s) = w # split_whitespace s"
proof -
  obtain x xs where w: "w = x # xs" using assms(2) by (cases w) auto
  then have "strip_start white_space (w @ c # s) = x # (xs @ c # s)"
    using assms(1) by (simp add: strip_start_id plain_char_leading)
  moreover have "take_token (x # (xs @ c # s)) = (w, c # s)"
    using take_token_blank [OF assms(1,3), of s] w by simp
  ultimately show ?thesis
    by (subst split_whitespace.simps) (simp add: split_whitespace_blank [OF assms(3)])
qed

subsection \<open>\<open>split\<close>\<close>

text \<open>\<open>str::split\<close> on one ASCII character, and its inverse.\<close>

fun split_on :: "char \<Rightarrow> string \<Rightarrow> string list" where
  "split_on c [] = [[]]"
| "split_on c (x # xs) =
     (if x = c then [] # split_on c xs
      else case split_on c xs of [] \<Rightarrow> [[x]] | y # ys \<Rightarrow> (x # y) # ys)"

fun join_with :: "char \<Rightarrow> string list \<Rightarrow> string" where
  "join_with c [] = []"
| "join_with c [x] = x"
| "join_with c (x # y # ys) = x @ c # join_with c (y # ys)"

lemma split_on_not_Nil [simp]: "split_on c s \<noteq> []"
  by (cases s) (auto split: list.split)

lemma split_on_free: "c \<notin> set s \<Longrightarrow> split_on c s = [s]"
  by (induction s) auto

lemma split_on_append: "c \<notin> set s \<Longrightarrow> split_on c (s @ c # t) = s # split_on c t"
  by (induction s) auto

lemma split_join: "list_all (\<lambda>x. c \<notin> set x) xs \<Longrightarrow> xs \<noteq> [] \<Longrightarrow> split_on c (join_with c xs) = xs"
  by (induction c xs rule: join_with.induct) (auto simp: split_on_free split_on_append)

lemma join_split: "join_with c (split_on c s) = s"
proof (induction s)
  case (Cons x s)
  obtain y ys where "split_on c s = y # ys" using split_on_not_Nil by (meson list.exhaust)
  with Cons show ?case by (cases ys) auto
qed simp

lemma split_on_pieces: "x \<in> set (split_on c s) \<Longrightarrow> c \<notin> set x"
  by (induction s arbitrary: x) (auto split: if_splits list.splits)

text \<open>\<open>str::contains\<close> and \<open>trim_end_matches\<close> of one character.\<close>

definition contains_str :: "string \<Rightarrow> string \<Rightarrow> bool" where
  "contains_str needle s = list_ex (prefix needle) (suffixes s)"

definition trim_end_matches :: "char \<Rightarrow> string \<Rightarrow> string" where
  "trim_end_matches c s = rev (dropWhile (\<lambda>x. x = c) (rev s))"

lemma contains_str_iff: "contains_str needle s \<longleftrightarrow> sublist needle s"
  by (auto simp: contains_str_def list_ex_iff sublist_altdef' in_set_suffixes)

subsection \<open>ASCII case, decimal and hexadecimal digits\<close>

definition to_ascii_lowercase :: "string \<Rightarrow> string" where
  "to_ascii_lowercase = map (\<lambda>c. if CHR ''A'' \<le> c \<and> c \<le> CHR ''Z''
     then char_of ((of_char c :: nat) + 32) else c)"

definition is_ascii_digit :: "char \<Rightarrow> bool" where
  "is_ascii_digit c \<longleftrightarrow> CHR ''0'' \<le> c \<and> c \<le> CHR ''9''"

definition is_lower_hex :: "char \<Rightarrow> bool" where
  "is_lower_hex c \<longleftrightarrow> is_ascii_digit c \<or> (CHR ''a'' \<le> c \<and> c \<le> CHR ''f'')"

definition digit_char :: "nat \<Rightarrow> char" where
  "digit_char d = char_of (48 + d)"

lemma digit_char_simps [simp]:
  "digit_char 0 = CHR ''0''" "digit_char 1 = CHR ''1''" "digit_char (Suc 0) = CHR ''1''"
  "digit_char 2 = CHR ''2''" "digit_char 3 = CHR ''3''" "digit_char 4 = CHR ''4''"
  "digit_char 5 = CHR ''5''" "digit_char 6 = CHR ''6''" "digit_char 7 = CHR ''7''"
  "digit_char 8 = CHR ''8''" "digit_char 9 = CHR ''9''"
  by code_simp+

text \<open>\<open>{n}\<close> of an unsigned integer.\<close>

fun show_nat :: "nat \<Rightarrow> string" where
  "show_nat n = (if n < 10 then [digit_char n] else show_nat (n div 10) @ [digit_char (n mod 10)])"

declare show_nat.simps [simp del]

definition show_int :: "int \<Rightarrow> string" where
  "show_int i = (if i < 0 then CHR ''-'' # show_nat (nat (- i)) else show_nat (nat i))"

definition read_nat :: "string \<Rightarrow> nat" where
  "read_nat s = foldl (\<lambda>a c. 10 * a + (of_char c - 48)) 0 s"

lemma of_char_digit_char: "d < 10 \<Longrightarrow> of_char (digit_char d) = 48 + d"
  by (simp add: digit_char_def)

lemma read_show_nat: "read_nat (show_nat n) = n"
proof (induction n rule: show_nat.induct)
  case (1 n)
  show ?case
  proof (cases "n < 10")
    case True
    then show ?thesis
      by (simp add: show_nat.simps [of n] read_nat_def of_char_digit_char)
  next
    case False
    then have "read_nat (show_nat (n div 10)) = n div 10" using 1 by simp
    moreover have "of_char (digit_char (n mod 10)) = (48 + n mod 10 :: nat)"
      by (rule of_char_digit_char) simp
    ultimately show ?thesis
      using False by (simp add: show_nat.simps [of n] read_nat_def)
  qed
qed

lemma show_nat_inject [simp]: "show_nat m = show_nat n \<longleftrightarrow> m = n"
  by (metis read_show_nat)

text \<open>\<open>{byte:02x}\<close> for every byte (\<open>hex_lower\<close>, \<open>hex::encode\<close>).\<close>

definition hex_digit :: "nat \<Rightarrow> char" where
  "hex_digit d = (if d < 10 then char_of (48 + d) else char_of (87 + d))"

definition hex_encode :: "char list \<Rightarrow> string" where
  "hex_encode bs = concat (map (\<lambda>b. [hex_digit (of_char b div 16), hex_digit (of_char b mod 16)]) bs)"

lemma length_hex_encode: "length (hex_encode bs) = 2 * length bs"
  by (induction bs) (auto simp: hex_encode_def)

lemma hex_digit_lower: "d < 16 \<Longrightarrow> is_lower_hex (hex_digit d)"
  by (simp add: is_lower_hex_def is_ascii_digit_def hex_digit_def less_eq_char_def)

lemma hex_encode_lower: "list_all is_lower_hex (hex_encode bs)"
proof -
  have "of_char b div 16 < (16 :: nat)" for b :: char
    using nat_of_char_less_256 [of b] by (simp add: less_mult_imp_div_less)
  then show ?thesis by (auto simp: hex_encode_def list_all_iff intro: hex_digit_lower)
qed

end
