(* ===== verification/Nostr_Connect.thy ===== *)
theory Nostr_Connect
  imports Prelude
begin

text \<open>
  The values of the \<open>nostr\<close> crate's NIP-46 module that the daemon builds and takes apart, with the
  constructors and fields its code names, and the functions of that crate the daemon calls, as
  the fields of one record \<open>nostr_crate\<close> that the definitions calling them take as an argument.
  Keys, public keys, secret keys, signatures and client handles are opaque strings.
\<close>

type_synonym public_key = string
type_synonym keys = string
type_synonym client = string
type_synonym event_builder = string

text \<open>\<open>nostr::UnsignedEvent\<close> and \<open>nostr::Event\<close>; \<open>Kind::NostrConnect\<close> is kind 24133.\<close>

record unsigned_event =
  ue_id :: "string option"
  ue_pubkey :: public_key
  ue_created_at :: u64
  ue_kind :: u16
  ue_tags :: "string list list"
  ue_content :: string

record event =
  ev_id :: string
  ev_pubkey :: public_key
  ev_created_at :: u64
  ev_kind :: u16
  ev_tags :: "string list list"
  ev_content :: string
  ev_sig :: string

definition kind_nostr_connect :: u16 where
  "kind_nostr_connect = 24133"

text \<open>\<open>NostrConnectRequest\<close>, as \<open>handle_request\<close> matches it.\<close>

datatype nostr_connect_request =
    Connect public_key "string option"
  | GetPublicKey
  | SignEvent unsigned_event
  | Nip04Encrypt public_key string
  | Nip04Decrypt public_key string
  | Nip44Encrypt public_key string
  | Nip44Decrypt public_key string
  | Ping

datatype nostr_connect_method =
    MConnect | MGetPublicKey | MSignEvent | MNip04Encrypt | MNip04Decrypt
  | MNip44Encrypt | MNip44Decrypt | MPing

datatype response_result =
    RAck
  | RGetPublicKey public_key
  | RSignEvent event
  | RNip04Encrypt string
  | RNip04Decrypt string
  | RNip44Encrypt string
  | RNip44Decrypt string
  | RPong
  | RAuthUrl

text \<open>A \<open>NostrConnectResponse\<close> the daemon builds, by the constructor it calls; one it receives
  is read through its two public fields.\<close>

datatype nostr_connect_response =
    WithResult response_result
  | WithError string
  | NewResponse "response_result option" "string option"

record parsed_response =
  resp_result :: "response_result option"
  resp_error :: "string option"

text \<open>\<open>NostrConnectMessage\<close>: a request or a response, with its identifier.\<close>

datatype nostr_connect_message =
    is_request: MsgRequest (msg_id: string) (msg_method: string) (msg_params: "string list")
  | is_response: MsgResponse (msg_id: string) (msg_result: "string option") (msg_error: "string option")

text \<open>The calls into the crate: key material, event signing and verification, NIP-04 and NIP-44
  encryption, and the JSON form of messages.  A failing call gives the text of its error.
  \<open>NostrConnectMessage::request\<close> draws a random identifier, which is its first argument here.\<close>

record nostr_crate =
  nc_to_hex :: "public_key \<Rightarrow> string"
  nc_public_key :: "keys \<Rightarrow> public_key"
  nc_sign_with_keys :: "unsigned_event \<Rightarrow> keys \<Rightarrow> string + event"
  nc_verify :: "event \<Rightarrow> bool"
  nc_verify_id :: "unsigned_event \<Rightarrow> bool"
  nc_unsigned_id :: "unsigned_event \<Rightarrow> string"
  nc_nip04_encrypt :: "keys \<Rightarrow> public_key \<Rightarrow> string \<Rightarrow> string + string"
  nc_nip04_decrypt :: "keys \<Rightarrow> public_key \<Rightarrow> string \<Rightarrow> string + string"
  nc_nip44_encrypt :: "keys \<Rightarrow> public_key \<Rightarrow> string \<Rightarrow> string + string"
  nc_nip44_decrypt :: "keys \<Rightarrow> public_key \<Rightarrow> string \<Rightarrow> string + string"
  nc_message_from_json :: "string \<Rightarrow> string + nostr_connect_message"
  nc_to_request :: "nostr_connect_message \<Rightarrow> string + nostr_connect_request"
  nc_to_response :: "nostr_connect_message \<Rightarrow> nostr_connect_method \<Rightarrow> string + parsed_response"
  nc_message_request :: "string \<Rightarrow> nostr_connect_request \<Rightarrow> nostr_connect_message"
  nc_message_response :: "string \<Rightarrow> nostr_connect_response \<Rightarrow> nostr_connect_message"
  nc_nostr_connect :: "keys \<Rightarrow> public_key \<Rightarrow> nostr_connect_message \<Rightarrow> string + event_builder"
  nc_builder_sign_with_keys :: "event_builder \<Rightarrow> keys \<Rightarrow> string + event"
  nc_parse_public_key :: "string \<Rightarrow> string + public_key"
  nc_parse_secret_key :: "string \<Rightarrow> string + string"
  nc_keys_new :: "string \<Rightarrow> keys"

text \<open>One instance of the parameter, for concrete runs: hexadecimal forms and keys are the strings
  themselves, encryption is the identity, and signing copies the event.\<close>

definition sample_crate :: nostr_crate where
  "sample_crate =
     \<lparr>nc_to_hex = id, nc_public_key = id,
      nc_sign_with_keys = (\<lambda>u k. Inr \<lparr>ev_id = ''id'', ev_pubkey = ue_pubkey u,
        ev_created_at = ue_created_at u, ev_kind = ue_kind u, ev_tags = ue_tags u,
        ev_content = ue_content u, ev_sig = k\<rparr>),
      nc_verify = (\<lambda>e. True), nc_verify_id = (\<lambda>u. True), nc_unsigned_id = (\<lambda>u. ''id''),
      nc_nip04_encrypt = (\<lambda>k p m. Inr m), nc_nip04_decrypt = (\<lambda>k p m. Inr m),
      nc_nip44_encrypt = (\<lambda>k p m. Inr m), nc_nip44_decrypt = (\<lambda>k p m. Inr m),
      nc_message_from_json = (\<lambda>j. Inr (MsgRequest j ''ping'' [])),
      nc_to_request = (\<lambda>m. Inr Ping),
      nc_to_response = (\<lambda>m meth. Inr \<lparr>resp_result = Some RPong, resp_error = None\<rparr>),
      nc_message_request = (\<lambda>i r. MsgRequest i ''ping'' []),
      nc_message_response = (\<lambda>i r. MsgResponse i (Some ''pong'') None),
      nc_nostr_connect = (\<lambda>k p m. Inr (msg_id m)),
      nc_builder_sign_with_keys = (\<lambda>b k. Inr \<lparr>ev_id = ''id'', ev_pubkey = k, ev_created_at = 0,
        ev_kind = kind_nostr_connect, ev_tags = [], ev_content = b, ev_sig = k\<rparr>),
      nc_parse_public_key = Inr, nc_parse_secret_key = Inr, nc_keys_new = id\<rparr>"

end
