(* ===== verification/Relay_Publish.thy ===== *)
theory Relay_Publish
  imports Nostr_Connect
begin

text \<open>
  \<open>src/transport/relay_publish.rs\<close>: relay URLs and target sets, the outcome of one publish attempt,
  and the adapter that publishes a signed event to every relay of a target set.

  The URL type of the \<open>radroots_transport_nostr\<close> crate is opaque; the crate's functions the daemon
  calls are the fields of \<open>transport_nostr_crate\<close>, and those of the relay client the fields of
  \<open>relay_client\<close>.
\<close>

section \<open>Relay URLs\<close>

datatype relay_url_policy = Public | Localhost

text \<open>The derived order of the policies.\<close>

instantiation relay_url_policy :: linorder
begin

definition less_eq_relay_url_policy :: "relay_url_policy \<Rightarrow> relay_url_policy \<Rightarrow> bool" where
  "less_eq_relay_url_policy p q \<longleftrightarrow> p = Public \<or> q = Localhost"

definition less_relay_url_policy :: "relay_url_policy \<Rightarrow> relay_url_policy \<Rightarrow> bool" where
  "less_relay_url_policy p q \<longleftrightarrow> p = Public \<and> q = Localhost"

instance
proof
  fix p q r :: relay_url_policy
  show "p < q \<longleftrightarrow> p \<le> q \<and> \<not> q \<le> p" "p \<le> p" "p \<le> q \<or> q \<le> p"
    by (cases p; cases q; simp add: less_eq_relay_url_policy_def less_relay_url_policy_def)+
  show "p \<le> q \<Longrightarrow> q \<le> r \<Longrightarrow> p \<le> r" "p \<le> q \<Longrightarrow> q \<le> p \<Longrightarrow> p = q"
    by (cases p; cases q; simp add: less_eq_relay_url_policy_def)+
qed

end

datatype native_relay_url_policy = NativePublic | NativeLocal

fun native :: "relay_url_policy \<Rightarrow> native_relay_url_policy" where
  "native Public = NativePublic"
| "native Localhost = NativeLocal"

type_synonym native_relay_url = string
type_synonym ip_addr = string

text \<open>\<open>tn_ord_key\<close> maps a URL to a string whose order is the order of the crate's URL type.\<close>

record transport_nostr_crate =
  tn_parse :: "string \<Rightarrow> native_relay_url_policy \<Rightarrow> string + native_relay_url"
  tn_as_str :: "native_relay_url \<Rightarrow> string"
  tn_ord_key :: "native_relay_url \<Rightarrow> string"
  tn_validate_resolved_addresses ::
    "native_relay_url \<Rightarrow> native_relay_url_policy \<Rightarrow> ip_addr list \<Rightarrow> string + unit"

record relay_url =
  ru_inner :: native_relay_url
  ru_policy :: relay_url_policy

datatype relay_publish_error = RelayPublishError string

definition parse_relay_url ::
  "transport_nostr_crate \<Rightarrow> string \<Rightarrow> relay_url_policy \<Rightarrow> relay_publish_error + relay_url" where
  "parse_relay_url T value policy =
     map_err RelayPublishError (map_ok (\<lambda>inner. \<lparr>ru_inner = inner, ru_policy = policy\<rparr>)
       (tn_parse T value (native policy)))"

definition url_str :: "transport_nostr_crate \<Rightarrow> relay_url \<Rightarrow> string" where
  "url_str T url = tn_as_str T (ru_inner url)"

definition validate_public_resolved_ip_addrs ::
  "transport_nostr_crate \<Rightarrow> relay_url \<Rightarrow> ip_addr list \<Rightarrow> relay_publish_error + unit" where
  "validate_public_resolved_ip_addrs T url addresses =
     map_err RelayPublishError
       (tn_validate_resolved_addresses T (ru_inner url) (native (ru_policy url)) addresses)"

section \<open>Target sets\<close>

definition relay_ord :: "transport_nostr_crate \<Rightarrow> relay_url \<Rightarrow> string \<times> relay_url_policy" where
  "relay_ord T url = (tn_ord_key T (ru_inner url), ru_policy url)"

definition from_urls ::
  "transport_nostr_crate \<Rightarrow> relay_url list \<Rightarrow> relay_publish_error + relay_url list" where
  "from_urls T relays =
     (if relays = [] then Inl (RelayPublishError ''relay target set must not be empty'')
      else Inr (remdups_adj (sort_key (relay_ord T) relays)))"

text \<open>What the daemon relies on of the crate's order: distinct URLs are ordered.\<close>

definition ordered_urls :: "transport_nostr_crate \<Rightarrow> bool" where
  "ordered_urls T \<longleftrightarrow> inj (tn_ord_key T)"

lemma relay_ord_inj: "ordered_urls T \<Longrightarrow> inj (relay_ord T)"
  by (auto simp: inj_def relay_ord_def ordered_urls_def)

lemma remdups_adj_sorted_distinct: "sorted (map f xs) \<Longrightarrow> inj f \<Longrightarrow> distinct (remdups_adj xs)"
proof (induction xs rule: remdups_adj.induct)
  case (3 x y xs)
  then show ?case
  proof (cases "x = y")
    case False
    with 3 have "f x < f y" by (auto dest: injD simp: less_le)
    then have "x \<notin> set (y # xs)" using 3 by auto
    with 3 False show ?thesis by simp
  qed simp
qed simp_all

lemma from_urls_ok:
  assumes "ordered_urls T" and "from_urls T relays = Inr ts"
  shows "distinct ts" and "set ts = set relays" and "relays \<noteq> []"
  using assms remdups_adj_sorted_distinct [OF sorted_sort_key relay_ord_inj]
  by (auto simp: from_urls_def split: if_splits)

section \<open>Outcomes\<close>

datatype relay_outcome_kind =
    RkAccepted | RkDuplicateAccepted | RkBlocked | RkRateLimited | RkInvalid | RkPowRequired
  | RkRestricted | RkAuthRequired | RkMuted | RkUnsupported | RkPaymentRequired | RkError
  | RkTimeout | RkConnectionFailed | RkUnknown

record relay_outcome =
  ro_kind :: relay_outcome_kind
  ro_message :: "string option"

definition outcome_accepted :: relay_outcome where
  "outcome_accepted = \<lparr>ro_kind = RkAccepted, ro_message = None\<rparr>"

definition classify_kind :: "string \<Rightarrow> relay_outcome_kind" where
  "classify_kind lower =
     (if prefix ''duplicate:'' lower then RkDuplicateAccepted
      else if prefix ''blocked:'' lower then RkBlocked
      else if prefix ''rate-limited:'' lower \<or> contains_str ''rate limit'' lower then RkRateLimited
      else if prefix ''invalid:'' lower then RkInvalid
      else if prefix ''pow:'' lower then RkPowRequired
      else if prefix ''restricted:'' lower then RkRestricted
      else if prefix ''auth-required:'' lower \<or> contains_str ''auth required'' lower then RkAuthRequired
      else if prefix ''mute:'' lower then RkMuted
      else if prefix ''unsupported:'' lower then RkUnsupported
      else if prefix ''payment-required:'' lower then RkPaymentRequired
      else if prefix ''timeout:'' lower \<or> contains_str ''timeout'' lower then RkTimeout
      else if prefix ''error:'' lower then RkError
      else RkUnknown)"

definition classify :: "string \<Rightarrow> relay_outcome" where
  "classify message =
     \<lparr>ro_kind = classify_kind (to_ascii_lowercase (trim message)), ro_message = Some (trim message)\<rparr>"

definition outcome_timeout :: "string \<Rightarrow> relay_outcome" where
  "outcome_timeout message = \<lparr>ro_kind = RkTimeout, ro_message = Some message\<rparr>"

definition outcome_connection_failed :: "string \<Rightarrow> relay_outcome" where
  "outcome_connection_failed message = \<lparr>ro_kind = RkConnectionFailed, ro_message = Some message\<rparr>"

record relay_publish_receipt =
  rr_relay_url :: string
  rr_outcome :: relay_outcome
  rr_attempted :: bool

definition receipt_attempted :: "string \<Rightarrow> relay_outcome \<Rightarrow> relay_publish_receipt" where
  "receipt_attempted url outcome = \<lparr>rr_relay_url = url, rr_outcome = outcome, rr_attempted = True\<rparr>"

section \<open>The live adapter\<close>

text \<open>A signed event of the \<open>radroots_event\<close> crate, by what the daemon reads of it.\<close>

record signed_event =
  se_raw_json :: string
  se_id :: string
  se_pubkey :: string
  se_kind :: u32

record publish_request =
  rp_signed_event :: signed_event
  rp_targets :: "relay_url list"
  rp_now_ms :: int

text \<open>The output of a send: the URLs that accepted, and the failures in the order the map is
  iterated.\<close>

record send_output =
  so_success :: "string list"
  so_failed :: "(string \<times> string) list"

record relay_client =
  rc_event_from_json :: "string \<Rightarrow> string + event"
  rc_add_relay :: "string \<Rightarrow> string + unit"
  rc_try_connect_relay :: "string \<Rightarrow> string + unit"
  rc_send_event_to :: "string \<Rightarrow> event \<Rightarrow> string + send_output"

definition attempt_outcome :: "relay_client \<Rightarrow> event \<Rightarrow> string \<Rightarrow> relay_outcome" where
  "attempt_outcome C e url =
     (case and_then (rc_add_relay C url) (\<lambda>_.
           and_then (rc_try_connect_relay C url) (\<lambda>_. rc_send_event_to C url e)) of
        Inl error \<Rightarrow> outcome_connection_failed error
      | Inr output \<Rightarrow>
          if list_ex (\<lambda>u. trim_end_matches CHR ''/'' u = trim_end_matches CHR ''/'' url) (so_success output)
          then outcome_accepted
          else (case so_failed output of
                  (_, reason) # _ \<Rightarrow> classify reason
                | [] \<Rightarrow> outcome_connection_failed ''relay omitted result''))"

definition publish ::
  "transport_nostr_crate \<Rightarrow> relay_client \<Rightarrow> publish_request
     \<Rightarrow> relay_publish_error + relay_publish_receipt list" where
  "publish T C request =
     (if rp_now_ms request < 0
      then Inl (RelayPublishError ''publish timestamp must be nonnegative'')
      else case rc_event_from_json C (se_raw_json (rp_signed_event request)) of
             Inl error \<Rightarrow> Inl (RelayPublishError error)
           | Inr e \<Rightarrow>
               Inr (map (\<lambda>relay. receipt_attempted (url_str T relay) (attempt_outcome C e (url_str T relay)))
                 (rp_targets request)))"

section \<open>Properties\<close>

text \<open>A relay's rejection is never read as acceptance: the text of a failure counts as
  delivered exactly when, trimmed and lower-cased, it starts with \<open>duplicate:\<close>.\<close>

theorem classify_acceptance:
  "ro_kind (classify message) \<noteq> RkAccepted \<and>
   (ro_kind (classify message) = RkDuplicateAccepted \<longleftrightarrow>
      prefix ''duplicate:'' (to_ascii_lowercase (trim message)))"
  by (simp add: classify_def classify_kind_def)

text \<open>The target set of a publish attempt has every URL asked for exactly once.\<close>

theorem target_set_exact:
  assumes "ordered_urls T" and "from_urls T relays = Inr targets"
  shows "distinct targets \<and> set targets = set relays"
  using from_urls_ok [OF assms] by blast

theorem target_set_exact_witness:
  "from_urls \<lparr>tn_parse = (\<lambda>u p. Inr u), tn_as_str = id, tn_ord_key = id,
      tn_validate_resolved_addresses = (\<lambda>u p a. Inr ())\<rparr>
     [\<lparr>ru_inner = ''b'', ru_policy = Public\<rparr>, \<lparr>ru_inner = ''a'', ru_policy = Public\<rparr>,
      \<lparr>ru_inner = ''b'', ru_policy = Public\<rparr>] =
   Inr [\<lparr>ru_inner = ''a'', ru_policy = Public\<rparr>, \<lparr>ru_inner = ''b'', ru_policy = Public\<rparr>] \<and>
   distinct [\<lparr>ru_inner = ''a'', ru_policy = Public\<rparr>, \<lparr>ru_inner = ''b'', ru_policy = Public\<rparr>]"
proof -
  let ?T = "\<lparr>tn_parse = (\<lambda>u p. Inr u), tn_as_str = id, tn_ord_key = id,
      tn_validate_resolved_addresses = (\<lambda>u p a. Inr ())\<rparr>"
  let ?in = "[\<lparr>ru_inner = ''b'', ru_policy = Public\<rparr>, \<lparr>ru_inner = ''a'', ru_policy = Public\<rparr>,
      \<lparr>ru_inner = ''b'', ru_policy = Public\<rparr>]"
  let ?out = "[\<lparr>ru_inner = ''a'', ru_policy = Public\<rparr>, \<lparr>ru_inner = ''b'', ru_policy = Public\<rparr>]"
  have "ordered_urls ?T" by (simp add: ordered_urls_def)
  moreover have "from_urls ?T ?in = Inr ?out"
    by (simp add: from_urls_def relay_ord_def less_eq_relay_url_policy_def less_eq_char_def)
  ultimately show ?thesis using target_set_exact [of ?T ?in ?out] by blast
qed

end
