(* ===== verification/Publish_Protocol.thy ===== *)
theory Publish_Protocol
  imports Relay_Publish
begin

text \<open>
  The values of the publish protocol that \<open>src/core/transport_publish.rs\<close> builds and takes apart.
  Their types belong to the \<open>radroots_protocol\<close> and \<open>radroots_transport\<close> crates; the model has the
  constructors and fields the daemon's code names, with one more constructor where the code does
  not name them all, and the functions of those crates as the fields of \<open>publish_crates\<close>.
  The errors are the daemon's own \<open>TransportPublishError\<close>.
\<close>

section \<open>Requests and jobs\<close>

datatype job_status =
    JsAccepted | JsPublishing | JsDeliverySatisfied | JsDeliveryUnsatisfiedRetryable
  | JsDeliveryUnsatisfiedTerminal | JsDeliveryDeferred | JsDeliveryDeferredUntilImplemented
  | JsRejected

datatype outcome_kind =
    OkAccepted | OkDuplicateAccepted | OkBlocked | OkRateLimited | OkInvalid | OkPowRequired
  | OkRestricted | OkAuthRequired | OkMuted | OkUnsupported | OkPaymentRequired | OkError
  | OkTimeout | OkConnectionFailed | OkUnknown | OkTargetRejected | OkDeferredUntilImplemented
  | OkOther string

datatype target_source =
    TsRequest | TsNostrAuthorWrite | TsDaemonDefault | TsReticulum | TsOther string

datatype nostr_target_source_policy =
    ExplicitOnly | RequestThenAuthorWriteThenDaemonDefault | AuthorWriteThenDaemonDefault
  | DaemonDefaultOnly

datatype target_policy_name = PolicyExplicitTargets | PolicyNostr

record publish_target =
  pt_transport_kind :: string
  pt_endpoint_uri :: string
  pt_target_scope :: "string option"
  pt_target_label :: "string option"

datatype target_policy =
    ExplicitTargets "publish_target list"
  | NostrPolicy nostr_target_source_policy "string list"

datatype delivery_policy =
    DeliverAny | DeliverAll | DeliverQuorum nat | DeliverRequired "string list"

record event_request =
  er_raw_event_json :: string
  er_target_policy :: target_policy
  er_delivery_policy :: delivery_policy
  er_idempotency_key :: "string option"
  er_timeout_ms :: "u64 option"

record target_outcome =
  to_transport_kind :: string
  to_endpoint_uri :: string
  to_target_scope :: "string option"
  to_target_label :: "string option"
  to_source :: target_source
  to_attempted :: bool
  to_outcome_kind :: outcome_kind
  to_message :: "string option"
  to_latency_ms :: "u64 option"

record job =
  jb_job_id :: string
  jb_status :: job_status
  jb_terminal :: bool
  jb_delivery_satisfied :: bool
  jb_event_id :: string
  jb_pubkey :: string
  jb_event_kind :: u32
  jb_target_policy :: target_policy
  jb_delivery_policy :: delivery_policy
  jb_target_count :: nat
  jb_acknowledged_count :: nat
  jb_retryable_count :: nat
  jb_terminal_count :: nat
  jb_requested_at_ms :: int
  jb_completed_at_ms :: "int option"
  jb_last_error :: "string option"
  jb_targets :: "target_outcome list"

record event_response =
  rs_deduplicated :: bool
  rs_job :: job

section \<open>Errors\<close>

text \<open>A database error carries SQLite's extended result code.\<close>

datatype sqlx_error = SqlxDatabase nat string | SqlxOther string

datatype tp_error =
    TpSqlite sqlx_error
  | TpJson string
  | TpIo string
  | TpInvalidScope string
  | TpInvalidSignedEvent string
  | TpEventWire string
  | TpSignedEvent string
  | TpRelay string
  | TpTransport string
  | TpSchema string string
  | TpInvalidPublishJobState string
  | TpConcurrencyLimit
  | TpIdempotencyConflict string

fun sqlx_error_text :: "sqlx_error \<Rightarrow> string" where
  "sqlx_error_text (SqlxDatabase code m) = ''error returned from database: '' @ m"
| "sqlx_error_text (SqlxOther m) = m"

fun tp_error_text :: "tp_error \<Rightarrow> string" where
  "tp_error_text (TpSqlite e) = ''transport publish storage error: '' @ sqlx_error_text e"
| "tp_error_text (TpJson m) = ''transport publish json error: '' @ m"
| "tp_error_text (TpIo m) = ''transport publish io error: '' @ m"
| "tp_error_text (TpInvalidScope m) = ''invalid transport publish scope: '' @ m"
| "tp_error_text (TpInvalidSignedEvent m) = ''invalid signed Nostr event: '' @ m"
| "tp_error_text (TpEventWire m) = ''signed event wire error: '' @ m"
| "tp_error_text (TpSignedEvent m) = ''signed event conversion error: '' @ m"
| "tp_error_text (TpRelay m) = ''transport publish relay error: '' @ m"
| "tp_error_text (TpTransport m) = ''transport publish transport error: '' @ m"
| "tp_error_text (TpSchema table detail) =
     ''transport publish schema incompatible for table `'' @ table @ ''`: '' @ detail"
| "tp_error_text (TpInvalidPublishJobState m) =
     ''transport publish job state validation failed: '' @ m"
| "tp_error_text TpConcurrencyLimit = ''transport publish concurrency limit reached''"
| "tp_error_text (TpIdempotencyConflict key) =
     ''transport publish idempotency conflict for key `'' @ key @ ''`''"

section \<open>The crates\<close>

datatype transport_id = TransportNostr | TransportReticulum | TransportLocal | TransportOther string

type_synonym target_fingerprint = string
type_synonym transport_target = string
type_synonym envelope = string

record publish_crates =
  pc_counts_accepted :: "outcome_kind \<Rightarrow> bool"
  pc_is_retryable :: "outcome_kind \<Rightarrow> bool"
  pc_is_terminal_failure :: "outcome_kind \<Rightarrow> bool"
  pc_required_target_count :: "delivery_policy \<Rightarrow> nat \<Rightarrow> nat"
  pc_request_target_count :: "target_policy \<Rightarrow> nat"
  pc_validate_request :: "event_request \<Rightarrow> nat \<Rightarrow> string + unit"
  pc_validate_job :: "job \<Rightarrow> string + unit"
  pc_parse_canonical :: "string \<Rightarrow> string + transport_id"
  pc_canonical_label :: "transport_id \<Rightarrow> string"
  pc_parse_scope :: "string \<Rightarrow> string + string"
  pc_parse_label :: "string \<Rightarrow> string + string"
  pc_nostr_relay_with_metadata ::
    "string \<Rightarrow> string option \<Rightarrow> string option \<Rightarrow> string + transport_target"
  pc_new_with_metadata ::
    "transport_id \<Rightarrow> string \<Rightarrow> string option \<Rightarrow> string option \<Rightarrow> string + transport_target"
  pc_local_with_metadata ::
    "string \<Rightarrow> string option \<Rightarrow> string option \<Rightarrow> string + transport_target"
  pc_fingerprint :: "transport_target \<Rightarrow> target_fingerprint"
  pc_invalid_target_uri :: string
  pc_reticulum_endpoint_uri :: string
  pc_reticulum_unavailable_message :: string
  pc_parse_event_wire :: "string \<Rightarrow> string + string"
  pc_from_wire_verified_id :: "string \<Rightarrow> string \<Rightarrow> string + signed_event"
  pc_verify_signature :: "signed_event \<Rightarrow> bool"
  pc_sha256 :: "string \<Rightarrow> char list"

text \<open>What the daemon relies on of the outcome kinds: one that counts as delivered is neither a
  failure to retry nor a final one, and the kind \<open>Accepted\<close> counts.\<close>

definition kinds_ok :: "publish_crates \<Rightarrow> bool" where
  "kinds_ok P \<longleftrightarrow> pc_counts_accepted P OkAccepted \<and> pc_counts_accepted P OkDuplicateAccepted \<and>
     (\<forall>k. pc_counts_accepted P k \<longrightarrow> \<not> pc_is_retryable P k \<and> \<not> pc_is_terminal_failure P k)"

text \<open>The canonical name of a transport names it, and SHA-256 gives 32 bytes.\<close>

definition transports_ok :: "publish_crates \<Rightarrow> bool" where
  "transports_ok P \<longleftrightarrow>
     pc_parse_canonical P ''nostr'' = Inr TransportNostr \<and>
     pc_parse_canonical P ''reticulum'' = Inr TransportReticulum"

definition sha256_ok :: "publish_crates \<Rightarrow> bool" where
  "sha256_ok P \<longleftrightarrow> (\<forall>bytes. length (pc_sha256 P bytes) = 32)"

text \<open>One instance, for concrete runs.\<close>

fun sample_canonical :: "string \<Rightarrow> string + transport_id" where
  "sample_canonical s =
     (if s = ''nostr'' then Inr TransportNostr
      else if s = ''reticulum'' then Inr TransportReticulum
      else if s = ''local'' then Inr TransportLocal else Inl ''unknown transport'')"

fun sample_label :: "transport_id \<Rightarrow> string" where
  "sample_label TransportNostr = ''nostr''"
| "sample_label TransportReticulum = ''reticulum''"
| "sample_label TransportLocal = ''local''"
| "sample_label (TransportOther s) = s"

fun sample_required :: "delivery_policy \<Rightarrow> nat \<Rightarrow> nat" where
  "sample_required DeliverAny n = 1"
| "sample_required DeliverAll n = n"
| "sample_required (DeliverQuorum q) n = q"
| "sample_required (DeliverRequired ts) n = length ts"

definition sample_publish :: publish_crates where
  "sample_publish =
     \<lparr>pc_counts_accepted = (\<lambda>k. k = OkAccepted \<or> k = OkDuplicateAccepted),
      pc_is_retryable = (\<lambda>k. k \<in> {OkRateLimited, OkTimeout, OkConnectionFailed, OkUnknown, OkError}),
      pc_is_terminal_failure = (\<lambda>k. k \<in> {OkBlocked, OkInvalid, OkTargetRejected, OkUnsupported}),
      pc_required_target_count = sample_required,
      pc_request_target_count = (\<lambda>p. case p of ExplicitTargets ts \<Rightarrow> length ts | NostrPolicy _ us \<Rightarrow> length us),
      pc_validate_request = (\<lambda>r n. Inr ()), pc_validate_job = (\<lambda>j. Inr ()),
      pc_parse_canonical = sample_canonical, pc_canonical_label = sample_label,
      pc_parse_scope = Inr, pc_parse_label = Inr,
      pc_nostr_relay_with_metadata = (\<lambda>u s l. Inr u),
      pc_new_with_metadata = (\<lambda>k u s l. Inr u), pc_local_with_metadata = (\<lambda>u s l. Inr u),
      pc_fingerprint = id, pc_invalid_target_uri = ''invalid target uri'',
      pc_reticulum_endpoint_uri = ''reticulum:default'',
      pc_reticulum_unavailable_message = ''unavailable'',
      pc_parse_event_wire = Inr,
      pc_from_wire_verified_id = (\<lambda>w raw. Inr \<lparr>se_raw_json = raw, se_id = ''e1'',
        se_pubkey = replicate 64 CHR ''a'', se_kind = 1\<rparr>),
      pc_verify_signature = (\<lambda>e. True),
      pc_sha256 = (\<lambda>b. replicate 32 CHR 0x00)\<rparr>"

lemma sample_kinds_ok: "kinds_ok sample_publish"
  by (auto simp: kinds_ok_def sample_publish_def)

lemma sample_transports_ok: "transports_ok sample_publish"
  by (simp add: transports_ok_def sample_publish_def)

lemma sample_sha256_ok: "sha256_ok sample_publish"
  by (simp add: sha256_ok_def sample_publish_def)

end
