(* ===== verification/Publish_Principal.thy ===== *)
theory Publish_Principal
  imports Publish_Protocol
begin

text \<open>
  Principals of the publish API (\<open>src/core/transport_publish.rs\<close>): who a bearer token speaks for and
  what it may publish.  \<open>allows_event\<close> checks a request against a principal, \<open>validate_principal_init\<close>
  checks a principal before it is stored, and the parsers read the names of the command line.
\<close>

section \<open>The records\<close>

datatype job_visibility = Own | Admin

record principal_init =
  pi_label :: string
  pi_token_hash :: string
  pi_allowed_pubkeys :: "string list"
  pi_allowed_kinds :: "u32 list"
  pi_allowed_target_policies :: "target_policy_name list"
  pi_allowed_explicit_transport_kinds :: "string list"
  pi_allowed_nostr_source_policies :: "nostr_target_source_policy list"
  pi_allow_request_targets :: bool
  pi_job_visibility :: job_visibility
  pi_expires_at_unix :: "int option"

record principal =
  pp_principal_id :: string
  pp_label :: string
  pp_allowed_pubkeys :: "string list"
  pp_allowed_kinds :: "u32 list"
  pp_allowed_target_policies :: "target_policy_name list"
  pp_allowed_explicit_transport_kinds :: "string list"
  pp_allowed_nostr_source_policies :: "nostr_target_source_policy list"
  pp_allow_request_targets :: bool
  pp_job_visibility :: job_visibility
  pp_expires_at_unix :: "int option"

section \<open>Names\<close>

definition visibility_from_str :: "string \<Rightarrow> tp_error + job_visibility" where
  "visibility_from_str value =
     (if value = ''own'' then Inr Own
      else if value = ''admin'' then Inr Admin
      else Inl (TpInvalidScope (''unknown job visibility `'' @ value @ ''`'')))"

fun visibility_to_string :: "job_visibility \<Rightarrow> string" where
  "visibility_to_string Own = ''own''"
| "visibility_to_string Admin = ''admin''"

definition parse_nostr_source_policy :: "string \<Rightarrow> tp_error + nostr_target_source_policy" where
  "parse_nostr_source_policy value =
     (if value = ''explicit_only'' then Inr ExplicitOnly
      else if value = ''request_then_author_write_then_daemon_default''
      then Inr RequestThenAuthorWriteThenDaemonDefault
      else if value = ''author_write_then_daemon_default'' then Inr AuthorWriteThenDaemonDefault
      else if value = ''daemon_default_only'' then Inr DaemonDefaultOnly
      else Inl (TpInvalidScope (''unknown Nostr source policy `'' @ value @ ''`'')))"

definition parse_target_policy :: "string \<Rightarrow> tp_error + target_policy_name" where
  "parse_target_policy value =
     (if value = ''explicit_targets'' then Inr PolicyExplicitTargets
      else if value = ''nostr'' then Inr PolicyNostr
      else Inl (TpInvalidScope (''unknown target policy `'' @ value @ ''`'')))"

definition parse_explicit_transport_kind :: "publish_crates \<Rightarrow> string \<Rightarrow> tp_error + string" where
  "parse_explicit_transport_kind P value =
     (case pc_parse_canonical P value of
        Inl e \<Rightarrow> Inl (TpInvalidScope (''unknown explicit transport kind `'' @ value @ ''`: '' @ e))
      | Inr kind \<Rightarrow>
          let canonical = pc_canonical_label P kind
          in if canonical \<notin> {''local'', ''nostr'', ''reticulum''}
             then Inl (TpInvalidScope (''unknown explicit transport kind `'' @ value @ ''`''))
             else Inr canonical)"

definition ensure_lower_hex :: "string \<Rightarrow> string \<Rightarrow> nat \<Rightarrow> tp_error + unit" where
  "ensure_lower_hex field value expected_len =
     (if length value = expected_len \<and> list_all is_lower_hex value then Inr ()
      else Inl (TpInvalidScope (field @ '' must be '' @ show_nat expected_len @ '' lowercase hex characters'')))"

section \<open>What a principal may publish\<close>

fun check_explicit_kinds :: "publish_crates \<Rightarrow> principal \<Rightarrow> publish_target list \<Rightarrow> tp_error + unit" where
  "check_explicit_kinds P p [] = Inr ()"
| "check_explicit_kinds P p (t # ts) =
     (case pc_parse_canonical P (pt_transport_kind t) of
        Inl e \<Rightarrow> Inl (TpInvalidScope (''principal explicit target kind check failed: '' @ e))
      | Inr kind \<Rightarrow>
          if pc_canonical_label P kind \<notin> set (pp_allowed_explicit_transport_kinds p)
          then Inl (TpInvalidScope (''principal is not allowed to use explicit transport target kind `''
                 @ pc_canonical_label P kind @ ''`''))
          else check_explicit_kinds P p ts)"

fun check_target_policy :: "publish_crates \<Rightarrow> principal \<Rightarrow> target_policy \<Rightarrow> tp_error + unit" where
  "check_target_policy P p (ExplicitTargets targets) =
     (if PolicyExplicitTargets \<notin> set (pp_allowed_target_policies p) then
        Inl (TpInvalidScope ''principal is not allowed to use explicit transport targets'')
      else if \<not> pp_allow_request_targets p \<and> targets \<noteq> [] then
        Inl (TpInvalidScope ''principal is not allowed to provide request targets'')
      else check_explicit_kinds P p targets)"
| "check_target_policy P p (NostrPolicy source_policy relay_urls) =
     (if PolicyNostr \<notin> set (pp_allowed_target_policies p) then
        Inl (TpInvalidScope ''principal is not allowed to use Nostr target policy'')
      else if source_policy \<notin> set (pp_allowed_nostr_source_policies p) then
        Inl (TpInvalidScope ''principal is not allowed to use requested Nostr source policy'')
      else if \<not> pp_allow_request_targets p \<and> relay_urls \<noteq> [] then
        Inl (TpInvalidScope ''principal is not allowed to provide request targets'')
      else Inr ())"

definition allows_event ::
  "publish_crates \<Rightarrow> principal \<Rightarrow> signed_event \<Rightarrow> event_request \<Rightarrow> tp_error + unit" where
  "allows_event P p e request =
     and_then (ensure_lower_hex ''pubkey'' (se_pubkey e) 64) (\<lambda>_.
       if se_pubkey e \<notin> set (pp_allowed_pubkeys p) then
         Inl (TpInvalidScope ''principal is not allowed to publish for event pubkey'')
       else if se_kind e \<notin> set (pp_allowed_kinds p) then
         Inl (TpInvalidScope ''principal is not allowed to publish event kind'')
       else check_target_policy P p (er_target_policy request))"

definition can_read_job :: "principal \<Rightarrow> string \<Rightarrow> bool" where
  "can_read_job p principal_id \<longleftrightarrow> pp_job_visibility p = Admin \<or> pp_principal_id p = principal_id"

section \<open>Making a principal\<close>

fun check_allowed_pubkeys :: "string list \<Rightarrow> tp_error + unit" where
  "check_allowed_pubkeys [] = Inr ()"
| "check_allowed_pubkeys (k # ks) =
     and_then (ensure_lower_hex ''allowed_pubkey'' k 64) (\<lambda>_. check_allowed_pubkeys ks)"

text \<open>The loop over the transport kinds, with the set of the ones seen.\<close>

fun check_transport_kinds :: "publish_crates \<Rightarrow> string set \<Rightarrow> string list \<Rightarrow> tp_error + unit" where
  "check_transport_kinds P seen [] = Inr ()"
| "check_transport_kinds P seen (k # ks) =
     and_then (parse_explicit_transport_kind P k) (\<lambda>canonical.
       if canonical \<noteq> k \<or> canonical \<in> seen
       then Inl (TpInvalidScope ''allowed explicit transport kinds must be canonical and unique'')
       else check_transport_kinds P (insert canonical seen) ks)"

definition validate_principal_init :: "publish_crates \<Rightarrow> principal_init \<Rightarrow> tp_error + unit" where
  "validate_principal_init P i =
     (let allows_explicit = PolicyExplicitTargets \<in> set (pi_allowed_target_policies i) in
      if trim (pi_label i) = [] then Inl (TpInvalidScope ''principal label must not be empty'')
      else if \<not> prefix ''sha256:'' (pi_token_hash i) then
        Inl (TpInvalidScope ''principal token hash must use sha256 prefix'')
      else if pi_allowed_pubkeys i = [] then
        Inl (TpInvalidScope ''principal must include at least one allowed pubkey'')
      else and_then (check_allowed_pubkeys (pi_allowed_pubkeys i)) (\<lambda>_.
        if pi_allowed_kinds i = [] then
          Inl (TpInvalidScope ''principal must include at least one allowed kind'')
        else if pi_allowed_target_policies i = [] then
          Inl (TpInvalidScope ''principal must include at least one allowed target policy'')
        else if allows_explicit \<and> pi_allowed_explicit_transport_kinds i = [] then
          Inl (TpInvalidScope ''principal must include at least one allowed explicit transport kind'')
        else if \<not> allows_explicit \<and> pi_allowed_explicit_transport_kinds i \<noteq> [] then
          Inl (TpInvalidScope
            ''principal cannot include explicit transport kinds without explicit target policy'')
        else and_then (check_transport_kinds P {} (pi_allowed_explicit_transport_kinds i)) (\<lambda>_.
          if PolicyNostr \<in> set (pi_allowed_target_policies i) \<and> pi_allowed_nostr_source_policies i = []
          then Inl (TpInvalidScope ''principal must include at least one allowed Nostr source policy'')
          else Inr ())))"

section \<open>Bearer tokens\<close>

text \<open>\<open>generate_bearer_token\<close>, for the 32 random bytes drawn, and \<open>hash_bearer_token\<close>.\<close>

definition bearer_token :: "char list \<Rightarrow> string" where
  "bearer_token bytes = ''rrd_tp_'' @ hex_encode bytes"

definition hash_bearer_token :: "publish_crates \<Rightarrow> string \<Rightarrow> string" where
  "hash_bearer_token P token = ''sha256:'' @ hex_encode (pc_sha256 P token)"

section \<open>Lemmas\<close>

lemma ensure_lower_hex_ok:
  "ensure_lower_hex field value n = Inr () \<longleftrightarrow> length value = n \<and> list_all is_lower_hex value"
  by (simp add: ensure_lower_hex_def)

lemma check_explicit_kinds_ok:
  "check_explicit_kinds P p ts = Inr () \<longleftrightarrow>
     (\<forall>t \<in> set ts. \<exists>k. pc_parse_canonical P (pt_transport_kind t) = Inr k \<and>
        pc_canonical_label P k \<in> set (pp_allowed_explicit_transport_kinds p))"
  by (induction ts) (auto split: sum.splits)

lemma check_allowed_pubkeys_ok:
  "check_allowed_pubkeys ks = Inr () \<longleftrightarrow> (\<forall>k \<in> set ks. length k = 64 \<and> list_all is_lower_hex k)"
  by (induction ks) (auto simp: result_eqs ensure_lower_hex_ok)

lemma parse_explicit_transport_kind_ok:
  "parse_explicit_transport_kind P v = Inr c \<longleftrightarrow>
     (\<exists>k. pc_parse_canonical P v = Inr k \<and> c = pc_canonical_label P k \<and> c \<in> {''local'', ''nostr'', ''reticulum''})"
  by (auto simp: parse_explicit_transport_kind_def Let_def split: sum.splits)

lemma check_transport_kinds_ok:
  "check_transport_kinds P seen ks = Inr () \<longleftrightarrow>
     distinct ks \<and> set ks \<inter> seen = {} \<and> (\<forall>k \<in> set ks. parse_explicit_transport_kind P k = Inr k)"
  by (induction ks arbitrary: seen) (auto simp: result_eqs)

lemma is_lower_hex_not_space: "is_lower_hex c \<Longrightarrow> leading white_space (c # s) = None"
  by (auto simp: leading_None_iff white_space_def is_lower_hex_def is_ascii_digit_def less_eq_char_def)

section \<open>Properties\<close>

text \<open>C27. A principal's scope is enforced exactly: a signed event and its request are allowed if
  and only if the author is a lower-case hexadecimal key the principal lists, the kind is one it
  lists, the kind of target policy and the Nostr source policy are ones it lists, targets in
  the request are there only when it may provide them, and every explicit target is on a
  transport it lists.\<close>

theorem principal_scope_exact:
  "allows_event P p e request = Inr () \<longleftrightarrow>
     length (se_pubkey e) = 64 \<and> list_all is_lower_hex (se_pubkey e) \<and>
     se_pubkey e \<in> set (pp_allowed_pubkeys p) \<and> se_kind e \<in> set (pp_allowed_kinds p) \<and>
     (case er_target_policy request of
        ExplicitTargets targets \<Rightarrow>
          PolicyExplicitTargets \<in> set (pp_allowed_target_policies p) \<and>
          (targets \<noteq> [] \<longrightarrow> pp_allow_request_targets p) \<and>
          (\<forall>t \<in> set targets. \<exists>k. pc_parse_canonical P (pt_transport_kind t) = Inr k \<and>
             pc_canonical_label P k \<in> set (pp_allowed_explicit_transport_kinds p))
      | NostrPolicy source_policy relay_urls \<Rightarrow>
          PolicyNostr \<in> set (pp_allowed_target_policies p) \<and>
          source_policy \<in> set (pp_allowed_nostr_source_policies p) \<and>
          (relay_urls \<noteq> [] \<longrightarrow> pp_allow_request_targets p))"
  by (auto simp: allows_event_def result_eqs ensure_lower_hex_ok check_explicit_kinds_ok
      split: target_policy.split)

text \<open>A principal is accepted for storage if and only if its scope is complete and canonical:
  a label, a hashed token, at least one key and all of them lower-case hexadecimal, at least one
  kind and one target policy, transport kinds exactly when explicit targets are allowed, each
  known, canonical and listed once, and a Nostr source policy when Nostr targets are allowed.\<close>

theorem principal_init_exact:
  "validate_principal_init P i = Inr () \<longleftrightarrow>
     trim (pi_label i) \<noteq> [] \<and> prefix ''sha256:'' (pi_token_hash i) \<and>
     pi_allowed_pubkeys i \<noteq> [] \<and>
     (\<forall>k \<in> set (pi_allowed_pubkeys i). length k = 64 \<and> list_all is_lower_hex k) \<and>
     pi_allowed_kinds i \<noteq> [] \<and> pi_allowed_target_policies i \<noteq> [] \<and>
     (PolicyExplicitTargets \<in> set (pi_allowed_target_policies i) \<longleftrightarrow>
        pi_allowed_explicit_transport_kinds i \<noteq> []) \<and>
     distinct (pi_allowed_explicit_transport_kinds i) \<and>
     (\<forall>k \<in> set (pi_allowed_explicit_transport_kinds i). parse_explicit_transport_kind P k = Inr k) \<and>
     (PolicyNostr \<in> set (pi_allowed_target_policies i) \<longrightarrow> pi_allowed_nostr_source_policies i \<noteq> [])"
  unfolding validate_principal_init_def Let_def
  by (auto simp: result_eqs check_allowed_pubkeys_ok check_transport_kinds_ok)

text \<open>The stored name of a visibility is read back as that visibility, and no other text is.\<close>

theorem visibility_roundtrip:
  "visibility_from_str value = Inr v \<longleftrightarrow> value = visibility_to_string v"
  by (cases v) (auto simp: visibility_from_str_def)

definition sample_principal :: principal where
  "sample_principal =
     \<lparr>pp_principal_id = ''p1'', pp_label = ''app'', pp_allowed_pubkeys = [replicate 64 CHR ''a''],
      pp_allowed_kinds = [1], pp_allowed_target_policies = [PolicyNostr],
      pp_allowed_explicit_transport_kinds = [], pp_allowed_nostr_source_policies = [DaemonDefaultOnly],
      pp_allow_request_targets = False, pp_job_visibility = Own, pp_expires_at_unix = None\<rparr>"

definition sample_request :: event_request where
  "sample_request = \<lparr>er_raw_event_json = ''{}'', er_target_policy = NostrPolicy DaemonDefaultOnly [],
     er_delivery_policy = DeliverAny, er_idempotency_key = Some ''k1'', er_timeout_ms = None\<rparr>"

definition sample_signed :: signed_event where
  "sample_signed = \<lparr>se_raw_json = ''{}'', se_id = ''e1'', se_pubkey = replicate 64 CHR ''a'', se_kind = 1\<rparr>"

lemma sample_pubkey_hex: "list_all is_lower_hex (replicate n CHR ''a'')"
  by (auto simp: list_all_iff is_lower_hex_def is_ascii_digit_def less_eq_char_def)

theorem principal_scope_exact_witness:
  "allows_event sample_publish sample_principal sample_signed sample_request = Inr () \<and>
   allows_event sample_publish sample_principal (sample_signed\<lparr>se_kind := 7\<rparr>) sample_request \<noteq> Inr ()"
  unfolding principal_scope_exact
  by (simp add: sample_principal_def sample_signed_def sample_request_def sample_pubkey_hex)

theorem principal_init_exact_witness:
  "validate_principal_init sample_publish
     \<lparr>pi_label = ''app'', pi_token_hash = ''sha256:00'', pi_allowed_pubkeys = [replicate 64 CHR ''a''],
      pi_allowed_kinds = [1], pi_allowed_target_policies = [PolicyExplicitTargets],
      pi_allowed_explicit_transport_kinds = [''nostr'', ''nostr''], pi_allowed_nostr_source_policies = [],
      pi_allow_request_targets = True, pi_job_visibility = Own, pi_expires_at_unix = None\<rparr> \<noteq> Inr ()"
  unfolding principal_init_exact by simp

end
