(* ===== verification/Publish_Delivery.thy ===== *)
theory Publish_Delivery
  imports Publish_Principal
begin

text \<open>
  The outcome of a publish job (\<open>src/core/transport_publish.rs\<close>): fingerprints of targets, the
  status of a job from its delivery policy and the outcomes of its targets, and the counters of
  the job shown to clients.
\<close>

section \<open>Fingerprints\<close>

record resolved_relay =
  rv_url :: relay_url
  rv_source :: target_source
  rv_target_scope :: "string option"
  rv_target_label :: "string option"

record resolution =
  rl_targets :: "resolved_relay list"
  rl_outcomes :: "target_outcome list"

definition target_count :: "resolution \<Rightarrow> nat" where
  "target_count r = length (rl_targets r) + length (rl_outcomes r)"

definition relay_fingerprint ::
  "publish_crates \<Rightarrow> transport_nostr_crate \<Rightarrow> resolved_relay \<Rightarrow> tp_error + target_fingerprint" where
  "relay_fingerprint P T r =
     and_then (map_err TpTransport (map_transpose (pc_parse_scope P) (rv_target_scope r))) (\<lambda>scope.
     and_then (map_err TpTransport (map_transpose (pc_parse_label P) (rv_target_label r))) (\<lambda>label.
     and_then (map_err TpTransport
       (pc_nostr_relay_with_metadata P (url_str T (rv_url r)) scope label)) (\<lambda>target.
       Inr (pc_fingerprint P target))))"

definition transport_target_from_outcome_parts ::
  "publish_crates \<Rightarrow> transport_id \<Rightarrow> string \<Rightarrow> string option \<Rightarrow> string option \<Rightarrow> string + transport_target" where
  "transport_target_from_outcome_parts P kind endpoint_uri scope label =
     (case kind of
        TransportNostr \<Rightarrow> pc_nostr_relay_with_metadata P endpoint_uri scope label
      | TransportReticulum \<Rightarrow>
          if endpoint_uri \<noteq> pc_reticulum_endpoint_uri P then Inl (pc_invalid_target_uri P)
          else and_then (case scope of Some s \<Rightarrow> Inr s | None \<Rightarrow> pc_parse_scope P ''local'') (\<lambda>s.
                 pc_new_with_metadata P TransportReticulum endpoint_uri (Some s) label)
      | TransportLocal \<Rightarrow> pc_local_with_metadata P endpoint_uri scope label
      | TransportOther _ \<Rightarrow> Inl (pc_invalid_target_uri P))"

definition target_outcome_fingerprint ::
  "publish_crates \<Rightarrow> target_outcome \<Rightarrow> nat \<Rightarrow> tp_error + target_fingerprint" where
  "target_outcome_fingerprint P t index =
     (let failed = (\<lambda>what e. TpInvalidPublishJobState (''target outcome '' @ show_nat index @ what @ e)) in
      and_then (map_err (failed '' has invalid transport kind: '')
        (pc_parse_canonical P (to_transport_kind t))) (\<lambda>kind.
      and_then (map_err (failed '' has invalid target scope: '')
        (map_transpose (pc_parse_scope P) (to_target_scope t))) (\<lambda>scope.
      and_then (map_err (failed '' has invalid target label: '')
        (map_transpose (pc_parse_label P) (to_target_label t))) (\<lambda>label.
      and_then (map_err (failed '' fingerprint failed: '')
        (transport_target_from_outcome_parts P kind (to_endpoint_uri t) scope label)) (\<lambda>target.
        Inr (pc_fingerprint P target))))))"

definition target_fingerprints ::
  "publish_crates \<Rightarrow> transport_nostr_crate \<Rightarrow> resolution \<Rightarrow> tp_error + target_fingerprint list" where
  "target_fingerprints P T r =
     and_then (collect_results (relay_fingerprint P T) (rl_targets r)) (\<lambda>fs.
     and_then (collect_results (\<lambda>(i, t). target_outcome_fingerprint P t i) (List.enumerate 0 (rl_outcomes r)))
       (\<lambda>gs. Inr (fs @ gs)))"

definition validate_delivery_policy_for_resolution ::
  "publish_crates \<Rightarrow> transport_nostr_crate \<Rightarrow> delivery_policy \<Rightarrow> resolution \<Rightarrow> tp_error + unit" where
  "validate_delivery_policy_for_resolution P T policy r =
     (case policy of
        DeliverRequired targets \<Rightarrow>
          and_then (target_fingerprints P T r) (\<lambda>fs.
            if list_ex (\<lambda>required. required \<notin> set fs) targets
            then Inl (TpInvalidSignedEvent ''publish request requires a target outside the resolved set'')
            else Inr ())
      | _ \<Rightarrow> Inr ())"

section \<open>The status of a job\<close>

text \<open>\<open>find_map\<close> over the outcomes: the first whose fingerprint is the required one.\<close>

fun first_with_fingerprint ::
  "publish_crates \<Rightarrow> string \<Rightarrow> nat \<Rightarrow> target_outcome list \<Rightarrow> target_outcome option" where
  "first_with_fingerprint P required index [] = None"
| "first_with_fingerprint P required index (t # ts) =
     (if target_outcome_fingerprint P t index = Inr required then Some t
      else first_with_fingerprint P required (Suc index) ts)"

definition required_outcomes_for_policy ::
  "publish_crates \<Rightarrow> string list \<Rightarrow> target_outcome list \<Rightarrow> target_outcome list" where
  "required_outcomes_for_policy P required_targets outcomes =
     List.map_filter (\<lambda>required. first_with_fingerprint P required 0 outcomes) required_targets"

definition accepted_outcome :: "publish_crates \<Rightarrow> target_outcome \<Rightarrow> bool" where
  "accepted_outcome P t = pc_counts_accepted P (to_outcome_kind t)"

definition delivery_satisfaction ::
  "publish_crates \<Rightarrow> delivery_policy \<Rightarrow> nat \<Rightarrow> target_outcome list \<Rightarrow> bool \<times> target_outcome list" where
  "delivery_satisfaction P policy n outcomes =
     (case policy of
        DeliverRequired targets \<Rightarrow>
          (let required = required_outcomes_for_policy P targets outcomes
           in (length required = length targets \<and> list_all (accepted_outcome P) required, required))
      | _ \<Rightarrow> (pc_required_target_count P policy n \<le> length (filter (accepted_outcome P) outcomes),
              outcomes))"

definition delivery_status ::
  "publish_crates \<Rightarrow> delivery_policy \<Rightarrow> nat \<Rightarrow> target_outcome list \<Rightarrow> job_status" where
  "delivery_status P policy n outcomes =
     (let (satisfied, status_outcomes) = delivery_satisfaction P policy n outcomes in
      if satisfied then JsDeliverySatisfied
      else if list_ex (\<lambda>t. pc_is_retryable P (to_outcome_kind t)) status_outcomes
      then JsDeliveryUnsatisfiedRetryable
      else if list_ex (\<lambda>t. to_outcome_kind t = OkDeferredUntilImplemented) status_outcomes \<and>
              list_all (\<lambda>t. \<not> pc_is_terminal_failure P (to_outcome_kind t)) status_outcomes
      then JsDeliveryDeferredUntilImplemented
      else JsDeliveryUnsatisfiedTerminal)"

fun last_error_for_status :: "job_status \<Rightarrow> string option" where
  "last_error_for_status JsDeliverySatisfied = None"
| "last_error_for_status JsRejected = Some ''no_transport_publish_targets''"
| "last_error_for_status JsDeliveryDeferred = Some ''delivery_deferred_until_implemented''"
| "last_error_for_status JsDeliveryDeferredUntilImplemented = Some ''delivery_deferred_until_implemented''"
| "last_error_for_status JsAccepted = Some ''delivery_unsatisfied''"
| "last_error_for_status JsPublishing = Some ''delivery_unsatisfied''"
| "last_error_for_status JsDeliveryUnsatisfiedRetryable = Some ''delivery_unsatisfied''"
| "last_error_for_status JsDeliveryUnsatisfiedTerminal = Some ''delivery_unsatisfied''"

section \<open>The job shown to clients\<close>

definition finalize_job_view :: "publish_crates \<Rightarrow> job \<Rightarrow> job" where
  "finalize_job_view P v = v\<lparr>
     jb_acknowledged_count := length (filter (accepted_outcome P) (jb_targets v)),
     jb_retryable_count := length (filter (\<lambda>t. pc_is_retryable P (to_outcome_kind t)) (jb_targets v)),
     jb_terminal_count := length (filter (\<lambda>t. pc_is_terminal_failure P (to_outcome_kind t)) (jb_targets v)),
     jb_terminal := jb_status v \<in> {JsDeliverySatisfied, JsDeliveryUnsatisfiedTerminal, JsDeliveryDeferred,
       JsDeliveryDeferredUntilImplemented, JsRejected},
     jb_delivery_satisfied := (jb_status v = JsDeliverySatisfied)\<rparr>"

section \<open>Lemmas\<close>

lemma target_outcome_fingerprint_index:
  "target_outcome_fingerprint P t i = Inr f \<longleftrightarrow> target_outcome_fingerprint P t j = Inr f"
  by (simp add: target_outcome_fingerprint_def Let_def result_eqs)

definition has_fingerprint :: "publish_crates \<Rightarrow> string \<Rightarrow> target_outcome \<Rightarrow> bool" where
  "has_fingerprint P f t \<longleftrightarrow> target_outcome_fingerprint P t 0 = Inr f"

lemma first_with_fingerprint_find:
  "first_with_fingerprint P f i ts = find (has_fingerprint P f) ts"
proof (induction ts arbitrary: i)
  case (Cons t ts)
  have "target_outcome_fingerprint P t i = Inr f \<longleftrightarrow> has_fingerprint P f t"
    unfolding has_fingerprint_def by (rule target_outcome_fingerprint_index)
  with Cons show ?case by simp
qed simp

lemma length_map_filter_le: "length (List.map_filter f xs) \<le> length xs"
  by (induction xs) (auto simp: List.map_filter_simps split: option.split)

lemma length_map_filter_eq: "length (List.map_filter f xs) = length xs \<longleftrightarrow> (\<forall>x \<in> set xs. f x \<noteq> None)"
proof (induction xs)
  case (Cons x xs)
  then show ?case
    using length_map_filter_le [of f xs] by (auto simp: List.map_filter_simps split: option.split)
qed (simp add: List.map_filter_simps)

lemma set_map_filter_iff: "y \<in> set (List.map_filter f xs) \<longleftrightarrow> (\<exists>x \<in> set xs. f x = Some y)"
  by (induction xs) (auto simp: List.map_filter_simps split: option.split)

lemma required_satisfied_iff:
  "fst (delivery_satisfaction P (DeliverRequired fs) n outcomes) \<longleftrightarrow>
     (\<forall>f \<in> set fs. \<exists>t. find (has_fingerprint P f) outcomes = Some t \<and> accepted_outcome P t)"
proof -
  let ?first = "\<lambda>f. find (has_fingerprint P f) outcomes"
  have "fst (delivery_satisfaction P (DeliverRequired fs) n outcomes) \<longleftrightarrow>
      (\<forall>f \<in> set fs. ?first f \<noteq> None) \<and> (\<forall>f \<in> set fs. \<forall>t. ?first f = Some t \<longrightarrow> accepted_outcome P t)"
    unfolding delivery_satisfaction_def required_outcomes_for_policy_def
    by (simp add: length_map_filter_eq list_all_iff first_with_fingerprint_find Ball_def
        set_map_filter_iff) blast
  also have "\<dots> \<longleftrightarrow> (\<forall>f \<in> set fs. \<exists>t. ?first f = Some t \<and> accepted_outcome P t)"
    by (metis not_None_eq option.inject)
  finally show ?thesis .
qed

lemma delivery_status_satisfied:
  "delivery_status P policy n outcomes = JsDeliverySatisfied \<longleftrightarrow>
     fst (delivery_satisfaction P policy n outcomes)"
  by (simp add: delivery_status_def split: prod.split)

lemma disjoint_counts:
  assumes "\<And>x. P x \<Longrightarrow> \<not> Q x" "\<And>x. P x \<Longrightarrow> \<not> R x"
  shows "length (filter P xs) + length (filter (\<lambda>x. Q x \<or> R x) xs) \<le> length xs"
  using assms by (induction xs) auto

lemma count_policy_satisfaction:
  "(\<forall>fs. policy \<noteq> DeliverRequired fs) \<Longrightarrow>
     delivery_satisfaction P policy n outcomes =
       (pc_required_target_count P policy n \<le> length (filter (accepted_outcome P) outcomes), outcomes)"
  by (cases policy) (simp_all add: delivery_satisfaction_def)

lemma length_filter_mset: "length (filter Q xs) = size (filter_mset Q (mset xs))"
  by (metis mset_filter size_mset)

section \<open>Properties\<close>

text \<open>C26. A job is reported as delivered exactly when its policy is met: for a policy on counts,
  when at least the required number of targets accepted; for required targets, when for every
  required fingerprint the first outcome with it is an acceptance.\<close>

theorem delivered_exactly_when_met:
  "delivery_status P policy n outcomes = JsDeliverySatisfied \<longleftrightarrow>
     (case policy of
        DeliverRequired fs \<Rightarrow>
          (\<forall>f \<in> set fs. \<exists>t. find (has_fingerprint P f) outcomes = Some t \<and> accepted_outcome P t)
      | _ \<Rightarrow> pc_required_target_count P policy n \<le> length (filter (accepted_outcome P) outcomes))"
  unfolding delivery_status_satisfied
  by (cases policy) (simp_all add: required_satisfied_iff count_policy_satisfaction)

definition sample_outcome :: "string \<Rightarrow> outcome_kind \<Rightarrow> target_outcome" where
  "sample_outcome uri kind =
     \<lparr>to_transport_kind = ''nostr'', to_endpoint_uri = uri, to_target_scope = None, to_target_label = None,
      to_source = TsRequest, to_attempted = True, to_outcome_kind = kind, to_message = None,
      to_latency_ms = None\<rparr>"

theorem delivered_exactly_when_met_witness:
  "delivery_status sample_publish (DeliverRequired [''wss://b'']) 2
     [sample_outcome ''wss://a'' OkTimeout, sample_outcome ''wss://b'' OkAccepted] = JsDeliverySatisfied"
  unfolding delivered_exactly_when_met
  by (simp add: has_fingerprint_def target_outcome_fingerprint_def sample_outcome_def sample_publish_def
      transport_target_from_outcome_parts_def accepted_outcome_def)

text \<open>For a policy on counts the status does not depend on the order in which the targets
  answered, and further outcomes never undo a delivery.\<close>

theorem delivery_order_and_growth:
  assumes "\<forall>fs. policy \<noteq> DeliverRequired fs"
  shows "(mset outcomes = mset outcomes' \<longrightarrow>
       delivery_status P policy n outcomes = delivery_status P policy n outcomes') \<and>
     (mset outcomes \<subseteq># mset outcomes' \<longrightarrow> delivery_status P policy n outcomes = JsDeliverySatisfied \<longrightarrow>
       delivery_status P policy n outcomes' = JsDeliverySatisfied)"
proof (intro conjI impI)
  assume m: "mset outcomes = mset outcomes'"
  then have "set outcomes = set outcomes'" by (rule mset_eq_setD)
  with m show "delivery_status P policy n outcomes = delivery_status P policy n outcomes'"
    by (simp add: delivery_status_def count_policy_satisfaction [OF assms] length_filter_mset
        list_ex_iff list_all_iff)
next
  assume m: "mset outcomes \<subseteq># mset outcomes'"
    and d: "delivery_status P policy n outcomes = JsDeliverySatisfied"
  have "length (filter (accepted_outcome P) outcomes) \<le> length (filter (accepted_outcome P) outcomes')"
    unfolding length_filter_mset using m by (intro size_mset_mono multiset_filter_mono)
  with d show "delivery_status P policy n outcomes' = JsDeliverySatisfied"
    by (simp add: delivery_status_satisfied count_policy_satisfaction [OF assms])
qed

theorem delivery_order_and_growth_witness:
  "delivery_status sample_publish DeliverAny 2
     [sample_outcome ''wss://a'' OkTimeout, sample_outcome ''wss://b'' OkAccepted] =
   delivery_status sample_publish DeliverAny 2
     [sample_outcome ''wss://b'' OkAccepted, sample_outcome ''wss://a'' OkTimeout]"
proof -
  have "mset [sample_outcome ''wss://a'' OkTimeout, sample_outcome ''wss://b'' OkAccepted] =
      mset [sample_outcome ''wss://b'' OkAccepted, sample_outcome ''wss://a'' OkTimeout]" by simp
  with delivery_order_and_growth [of DeliverAny] show ?thesis by blast
qed

text \<open>The counters of a job shown to a client are consistent: acknowledged targets are not
  counted as failed, so together with the retryable or the terminal ones they are at most the
  targets shown, and a job marked delivered is marked terminal.\<close>

theorem job_counters_consistent:
  assumes "kinds_ok P"
  shows "jb_acknowledged_count (finalize_job_view P v) + jb_retryable_count (finalize_job_view P v)
      \<le> length (jb_targets v) \<and>
    jb_acknowledged_count (finalize_job_view P v) + jb_terminal_count (finalize_job_view P v)
      \<le> length (jb_targets v) \<and>
    (jb_delivery_satisfied (finalize_job_view P v) \<longrightarrow> jb_terminal (finalize_job_view P v))"
proof -
  have a: "accepted_outcome P t \<Longrightarrow> \<not> pc_is_retryable P (to_outcome_kind t)"
    and b: "accepted_outcome P t \<Longrightarrow> \<not> pc_is_terminal_failure P (to_outcome_kind t)" for t
    using assms by (auto simp: kinds_ok_def accepted_outcome_def)
  show ?thesis
    using disjoint_counts [of "accepted_outcome P" "\<lambda>t. pc_is_retryable P (to_outcome_kind t)"
        "\<lambda>_. False" "jb_targets v"]
      disjoint_counts [of "accepted_outcome P" "\<lambda>_. False"
        "\<lambda>t. pc_is_terminal_failure P (to_outcome_kind t)" "jb_targets v"] a b
    by (simp add: finalize_job_view_def)
qed

definition sample_job :: job where
  "sample_job = \<lparr>jb_job_id = ''j1'', jb_status = JsDeliverySatisfied, jb_terminal = False,
     jb_delivery_satisfied = False, jb_event_id = ''e1'', jb_pubkey = ''a'', jb_event_kind = 1,
     jb_target_policy = NostrPolicy DaemonDefaultOnly [], jb_delivery_policy = DeliverAny,
     jb_target_count = 2, jb_acknowledged_count = 0, jb_retryable_count = 0, jb_terminal_count = 0,
     jb_requested_at_ms = 0, jb_completed_at_ms = Some 1, jb_last_error = None,
     jb_targets = [sample_outcome ''wss://a'' OkTimeout, sample_outcome ''wss://b'' OkAccepted]\<rparr>"

theorem job_counters_consistent_witness:
  "jb_acknowledged_count (finalize_job_view sample_publish sample_job) = 1 \<and>
   jb_acknowledged_count (finalize_job_view sample_publish sample_job) +
     jb_retryable_count (finalize_job_view sample_publish sample_job) \<le> 2"
proof -
  have "length (jb_targets sample_job) = 2" by (simp add: sample_job_def)
  moreover have "jb_acknowledged_count (finalize_job_view sample_publish sample_job) = 1"
    by (simp add: finalize_job_view_def sample_job_def sample_outcome_def accepted_outcome_def sample_publish_def)
  ultimately show ?thesis
    using job_counters_consistent [OF sample_kinds_ok, of sample_job] by simp
qed

end
