(* ===== verification/Publish_Store.thy ===== *)
theory Publish_Store
  imports Publish_Delivery
begin

text \<open>
  \<open>TransportPublishStore\<close> of \<open>src/core/transport_publish.rs\<close> over its SQLite tables.  A table is the list
  of its rows with the column types of the schema; a statement gives the new database or the
  error SQLite returns, and its primary keys, unique indexes and foreign keys are those of
  \<open>TRANSPORT_PUBLISH_SCHEMA_SQL\<close>.  The store is behind one mutex and each operation is atomic
  towards the others except where the code releases the lock, which the model shows by separate
  calls.  The JSON texts of the columns are written and read by \<open>serde_json\<close>: the codecs are
  parameters.  Failures of the disk are not modelled, a crash between statements is.
\<close>

section \<open>Codecs\<close>

record 'a codec =
  to_json :: "'a \<Rightarrow> string + string"
  from_json :: "string \<Rightarrow> string + 'a"

record codecs =
  cd_strings :: "string list codec"
  cd_kinds :: "u32 list codec"
  cd_policy_names :: "target_policy_name list codec"
  cd_source_policies :: "nostr_target_source_policy list codec"
  cd_status :: "job_status codec"
  cd_target_policy :: "target_policy codec"
  cd_delivery_policy :: "delivery_policy codec"
  cd_source :: "target_source codec"
  cd_outcome_kind :: "outcome_kind codec"
  cd_request :: "event_request codec"

text \<open>What the daemon relies on: every value is written, and read back as it was.\<close>

definition codec_ok :: "'a codec \<Rightarrow> bool" where
  "codec_ok c \<longleftrightarrow> (\<forall>x. \<exists>s. to_json c x = Inr s \<and> from_json c s = Inr x)"

definition codecs_ok :: "codecs \<Rightarrow> bool" where
  "codecs_ok K \<longleftrightarrow>
     codec_ok (cd_strings K) \<and> codec_ok (cd_kinds K) \<and> codec_ok (cd_policy_names K) \<and>
     codec_ok (cd_source_policies K) \<and> codec_ok (cd_status K) \<and> codec_ok (cd_target_policy K) \<and>
     codec_ok (cd_delivery_policy K) \<and> codec_ok (cd_source K) \<and> codec_ok (cd_outcome_kind K) \<and>
     codec_ok (cd_request K)"

definition encode :: "'a codec \<Rightarrow> 'a \<Rightarrow> tp_error + string" where
  "encode c x = map_err TpJson (to_json c x)"

definition persisted_decode_error :: "string \<Rightarrow> string \<Rightarrow> tp_error" where
  "persisted_decode_error field e =
     TpInvalidPublishJobState (field @ '' persisted value could not be decoded: '' @ e)"

definition json_text :: "'a codec \<Rightarrow> string \<Rightarrow> string \<Rightarrow> tp_error + 'a" where
  "json_text c field value = map_err (persisted_decode_error field) (from_json c value)"

section \<open>The tables\<close>

record principal_row =
  pw_principal_id :: string
  pw_label :: string
  pw_token_hash :: string
  pw_allowed_pubkeys_json :: string
  pw_allowed_kinds_json :: string
  pw_allowed_target_policies_json :: string
  pw_allowed_explicit_transport_kinds_json :: string
  pw_allowed_nostr_source_policies_json :: string
  pw_allow_request_targets :: bool
  pw_job_visibility :: string
  pw_expires_at_unix :: "int option"
  pw_revoked_at_unix :: "int option"
  pw_created_at_unix :: int

record job_row =
  jw_job_id :: string
  jw_principal_id :: string
  jw_idempotency_key :: "string option"
  jw_request_fingerprint :: string
  jw_status :: string
  jw_event_id :: string
  jw_event_pubkey :: string
  jw_event_kind :: int
  jw_target_policy_json :: string
  jw_delivery_policy_json :: string
  jw_requested_target_count :: int
  jw_effective_target_count :: int
  jw_request_json :: string
  jw_requested_at_ms :: int
  jw_updated_at_ms :: int
  jw_completed_at_ms :: "int option"
  jw_last_error :: "string option"

text \<open>The columns of the two tables of targets, and what each table adds.\<close>

record target_row =
  tw_job_id :: string
  tw_transport_kind :: string
  tw_endpoint_uri :: string
  tw_target_scope :: string
  tw_target_label :: "string option"
  tw_source :: string
  tw_attempted :: bool
  tw_outcome_kind :: string
  tw_message :: "string option"
  tw_latency_ms :: "int option"

record cache_row =
  cw_pubkey :: string
  cw_relays_json :: string
  cw_updated_at_ms :: int

record database =
  db_principals :: "principal_row list"
  db_jobs :: "job_row list"
  db_results :: "(target_row \<times> int) list"
  db_snapshots :: "(nat \<times> target_row \<times> int) list"
  db_cache :: "cache_row list"

definition empty_database :: database where
  "empty_database = \<lparr>db_principals = [], db_jobs = [], db_results = [], db_snapshots = [], db_cache = []\<rparr>"

section \<open>Statements\<close>

text \<open>SQLite's extended result codes for a primary key, a unique index and a foreign key.\<close>

definition primary_key_violation :: sqlx_error where
  "primary_key_violation = SqlxDatabase 1555 ''UNIQUE constraint failed''"

definition unique_violation :: sqlx_error where
  "unique_violation = SqlxDatabase 2067 ''UNIQUE constraint failed''"

definition foreign_key_violation :: sqlx_error where
  "foreign_key_violation = SqlxDatabase 787 ''FOREIGN KEY constraint failed''"

fun is_sqlite_constraint_error :: "tp_error \<Rightarrow> bool" where
  "is_sqlite_constraint_error (TpSqlite (SqlxDatabase code m)) = (code \<in> {1555, 2067, 19})"
| "is_sqlite_constraint_error _ = False"

definition insert_principal :: "principal_row \<Rightarrow> database \<Rightarrow> tp_error + database" where
  "insert_principal r d =
     (if pw_principal_id r \<in> pw_principal_id ` set (db_principals d) then Inl (TpSqlite primary_key_violation)
      else if pw_token_hash r \<in> pw_token_hash ` set (db_principals d) then Inl (TpSqlite unique_violation)
      else Inr (d\<lparr>db_principals := db_principals d @ [r]\<rparr>))"

definition same_idempotency :: "job_row \<Rightarrow> job_row \<Rightarrow> bool" where
  "same_idempotency r s \<longleftrightarrow> jw_idempotency_key r \<noteq> None \<and>
     jw_principal_id r = jw_principal_id s \<and> jw_idempotency_key r = jw_idempotency_key s"

definition insert_job :: "job_row \<Rightarrow> database \<Rightarrow> tp_error + database" where
  "insert_job r d =
     (if jw_job_id r \<in> jw_job_id ` set (db_jobs d) then Inl (TpSqlite primary_key_violation)
      else if list_ex (same_idempotency r) (db_jobs d) then Inl (TpSqlite unique_violation)
      else if jw_principal_id r \<notin> pw_principal_id ` set (db_principals d)
      then Inl (TpSqlite foreign_key_violation)
      else Inr (d\<lparr>db_jobs := db_jobs d @ [r]\<rparr>))"

definition insert_snapshot :: "nat \<Rightarrow> target_row \<Rightarrow> int \<Rightarrow> database \<Rightarrow> tp_error + database" where
  "insert_snapshot i r now d =
     (if list_ex (\<lambda>(j, s, _). j = i \<and> tw_job_id s = tw_job_id r) (db_snapshots d)
      then Inl (TpSqlite primary_key_violation)
      else if tw_job_id r \<notin> jw_job_id ` set (db_jobs d) then Inl (TpSqlite foreign_key_violation)
      else Inr (d\<lparr>db_snapshots := db_snapshots d @ [(i, r, now)]\<rparr>))"

definition result_key :: "target_row \<Rightarrow> string \<times> string \<times> string \<times> string" where
  "result_key r = (tw_job_id r, tw_transport_kind r, tw_endpoint_uri r, tw_target_scope r)"

definition replace_result :: "target_row \<Rightarrow> int \<Rightarrow> database \<Rightarrow> tp_error + database" where
  "replace_result r now d =
     (if tw_job_id r \<notin> jw_job_id ` set (db_jobs d) then Inl (TpSqlite foreign_key_violation)
      else Inr (d\<lparr>db_results := filter (\<lambda>(s, _). result_key s \<noteq> result_key r) (db_results d) @ [(r, now)]\<rparr>))"

definition delete_results :: "string \<Rightarrow> database \<Rightarrow> database" where
  "delete_results job_id d = d\<lparr>db_results := filter (\<lambda>(s, _). tw_job_id s \<noteq> job_id) (db_results d)\<rparr>"

definition update_job :: "string \<Rightarrow> (job_row \<Rightarrow> job_row) \<Rightarrow> database \<Rightarrow> database" where
  "update_job job_id f d =
     d\<lparr>db_jobs := map (\<lambda>r. if jw_job_id r = job_id then f r else r) (db_jobs d)\<rparr>"

definition upsert_cache :: "cache_row \<Rightarrow> database \<Rightarrow> database" where
  "upsert_cache r d =
     d\<lparr>db_cache := (if cw_pubkey r \<in> cw_pubkey ` set (db_cache d)
        then map (\<lambda>s. if cw_pubkey s = cw_pubkey r then r else s) (db_cache d)
        else db_cache d @ [r])\<rparr>"

section \<open>Columns\<close>

definition integer_range_error :: "string \<Rightarrow> int \<Rightarrow> string \<Rightarrow> tp_error" where
  "integer_range_error field v target =
     persisted_decode_error field
       (field @ '' integer value '' @ show_int v @ '' is outside '' @ target @ '' range'')"

definition checked_event_kind_column :: "int \<Rightarrow> tp_error + u32" where
  "checked_event_kind_column v =
     (if 0 \<le> v \<and> v \<le> 2 ^ 32 - 1 then Inr (word_of_int v)
      else Inl (integer_range_error ''event_kind'' v ''u32''))"

definition checked_usize_column :: "int \<Rightarrow> string \<Rightarrow> tp_error + nat" where
  "checked_usize_column v field =
     (if 0 \<le> v then Inr (nat v) else Inl (integer_range_error field v ''usize''))"

definition checked_optional_u64_column :: "int option \<Rightarrow> string \<Rightarrow> tp_error + u64 option" where
  "checked_optional_u64_column v field =
     map_transpose (\<lambda>n. if 0 \<le> n then Inr (word_of_int n)
       else Inl (integer_range_error field n ''u64'')) v"

definition storage_count_i64 :: "nat \<Rightarrow> string \<Rightarrow> tp_error + int" where
  "storage_count_i64 n field =
     (if int n \<le> i64_max then Inr (int n)
      else Inl (TpInvalidPublishJobState (field @ '' value exceeds i64 storage range'')))"

definition storage_target_scope :: "string option \<Rightarrow> string" where
  "storage_target_scope scope = (case scope of Some s \<Rightarrow> s | None \<Rightarrow> [])"

definition storage_target_scope_to_protocol :: "string \<Rightarrow> string option" where
  "storage_target_scope_to_protocol scope = (if scope = [] then None else Some scope)"

definition latency_column :: "u64 option \<Rightarrow> int option" where
  "latency_column v = (case v of Some n \<Rightarrow> (if uint n \<le> i64_max then Some (uint n) else None) | None \<Rightarrow> None)"

section \<open>Rows and values\<close>

definition target_row_of ::
  "codecs \<Rightarrow> string \<Rightarrow> target_outcome \<Rightarrow> tp_error + target_row" where
  "target_row_of K job_id t =
     and_then (encode (cd_source K) (to_source t)) (\<lambda>source.
     and_then (encode (cd_outcome_kind K) (to_outcome_kind t)) (\<lambda>kind. Inr
       \<lparr>tw_job_id = job_id, tw_transport_kind = to_transport_kind t, tw_endpoint_uri = to_endpoint_uri t,
        tw_target_scope = storage_target_scope (to_target_scope t), tw_target_label = to_target_label t,
        tw_source = source, tw_attempted = to_attempted t, tw_outcome_kind = kind,
        tw_message = to_message t, tw_latency_ms = latency_column (to_latency_ms t)\<rparr>))"

definition target_outcome_from_row :: "codecs \<Rightarrow> target_row \<Rightarrow> tp_error + target_outcome" where
  "target_outcome_from_row K r =
     and_then (json_text (cd_source K) ''source'' (tw_source r)) (\<lambda>source.
     and_then (json_text (cd_outcome_kind K) ''outcome_kind'' (tw_outcome_kind r)) (\<lambda>kind.
     and_then (checked_optional_u64_column (tw_latency_ms r) ''latency_ms'') (\<lambda>latency. Inr
       \<lparr>to_transport_kind = tw_transport_kind r, to_endpoint_uri = tw_endpoint_uri r,
        to_target_scope = storage_target_scope_to_protocol (tw_target_scope r),
        to_target_label = tw_target_label r, to_source = source, to_attempted = tw_attempted r,
        to_outcome_kind = kind, to_message = tw_message r, to_latency_ms = latency\<rparr>)))"

definition principal_from_row :: "codecs \<Rightarrow> principal_row \<Rightarrow> tp_error + principal" where
  "principal_from_row K r =
     and_then (json_text (cd_strings K) ''allowed_pubkeys_json'' (pw_allowed_pubkeys_json r)) (\<lambda>pubkeys.
     and_then (json_text (cd_kinds K) ''allowed_kinds_json'' (pw_allowed_kinds_json r)) (\<lambda>kinds.
     and_then (json_text (cd_policy_names K) ''allowed_target_policies_json''
       (pw_allowed_target_policies_json r)) (\<lambda>policies.
     and_then (json_text (cd_strings K) ''allowed_explicit_transport_kinds_json''
       (pw_allowed_explicit_transport_kinds_json r)) (\<lambda>transports.
     and_then (json_text (cd_source_policies K) ''allowed_nostr_source_policies_json''
       (pw_allowed_nostr_source_policies_json r)) (\<lambda>sources.
     and_then (visibility_from_str (pw_job_visibility r)) (\<lambda>visibility. Inr
       \<lparr>pp_principal_id = pw_principal_id r, pp_label = pw_label r, pp_allowed_pubkeys = pubkeys,
        pp_allowed_kinds = kinds, pp_allowed_target_policies = policies,
        pp_allowed_explicit_transport_kinds = transports, pp_allowed_nostr_source_policies = sources,
        pp_allow_request_targets = pw_allow_request_targets r, pp_job_visibility = visibility,
        pp_expires_at_unix = pw_expires_at_unix r\<rparr>))))))"

record publish_job_row =
  pj_principal_id :: string
  pj_request_fingerprint :: string
  pj_view :: job

definition job_from_row :: "codecs \<Rightarrow> job_row \<Rightarrow> tp_error + publish_job_row" where
  "job_from_row K r =
     and_then (json_text (cd_status K) ''status'' (jw_status r)) (\<lambda>status.
     and_then (json_text (cd_target_policy K) ''target_policy_json'' (jw_target_policy_json r)) (\<lambda>target_policy.
     and_then (json_text (cd_delivery_policy K) ''delivery_policy_json'' (jw_delivery_policy_json r))
       (\<lambda>delivery_policy.
     and_then (checked_event_kind_column (jw_event_kind r)) (\<lambda>kind.
     and_then (checked_usize_column (jw_effective_target_count r) ''effective_target_count'') (\<lambda>n. Inr
       \<lparr>pj_principal_id = jw_principal_id r, pj_request_fingerprint = jw_request_fingerprint r,
        pj_view = \<lparr>jb_job_id = jw_job_id r, jb_status = status, jb_terminal = False,
          jb_delivery_satisfied = False, jb_event_id = jw_event_id r, jb_pubkey = jw_event_pubkey r,
          jb_event_kind = kind, jb_target_policy = target_policy, jb_delivery_policy = delivery_policy,
          jb_target_count = n, jb_acknowledged_count = 0, jb_retryable_count = 0, jb_terminal_count = 0,
          jb_requested_at_ms = jw_requested_at_ms r, jb_completed_at_ms = jw_completed_at_ms r,
          jb_last_error = jw_last_error r, jb_targets = []\<rparr>\<rparr>)))))"

section \<open>Principals\<close>

definition principal_by_id :: "codecs \<Rightarrow> database \<Rightarrow> string \<Rightarrow> tp_error + principal option" where
  "principal_by_id K d principal_id =
     map_transpose (principal_from_row K)
       (find (\<lambda>r. pw_principal_id r = principal_id) (db_principals d))"

definition principal_for_token_hash ::
  "codecs \<Rightarrow> int \<Rightarrow> database \<Rightarrow> string \<Rightarrow> tp_error + principal option" where
  "principal_for_token_hash K now d token_hash =
     map_transpose (principal_from_row K)
       (find (\<lambda>r. pw_token_hash r = token_hash \<and> pw_revoked_at_unix r = None \<and>
          (case pw_expires_at_unix r of None \<Rightarrow> True | Some t \<Rightarrow> now < t)) (db_principals d))"

definition principal_row_of ::
  "codecs \<Rightarrow> string \<Rightarrow> int \<Rightarrow> principal_init \<Rightarrow> tp_error + principal_row" where
  "principal_row_of K principal_id now i =
     and_then (encode (cd_strings K) (pi_allowed_pubkeys i)) (\<lambda>pubkeys.
     and_then (encode (cd_kinds K) (pi_allowed_kinds i)) (\<lambda>kinds.
     and_then (encode (cd_policy_names K) (pi_allowed_target_policies i)) (\<lambda>policies.
     and_then (encode (cd_strings K) (pi_allowed_explicit_transport_kinds i)) (\<lambda>transports.
     and_then (encode (cd_source_policies K) (pi_allowed_nostr_source_policies i)) (\<lambda>sources. Inr
       \<lparr>pw_principal_id = principal_id, pw_label = trim (pi_label i), pw_token_hash = pi_token_hash i,
        pw_allowed_pubkeys_json = pubkeys, pw_allowed_kinds_json = kinds,
        pw_allowed_target_policies_json = policies,
        pw_allowed_explicit_transport_kinds_json = transports,
        pw_allowed_nostr_source_policies_json = sources,
        pw_allow_request_targets = pi_allow_request_targets i,
        pw_job_visibility = visibility_to_string (pi_job_visibility i),
        pw_expires_at_unix = pi_expires_at_unix i, pw_revoked_at_unix = None,
        pw_created_at_unix = now\<rparr>)))))"

text \<open>\<open>principal_id\<close> is the fresh identifier drawn, \<open>now\<close> the clock in seconds.\<close>

definition create_principal ::
  "publish_crates \<Rightarrow> codecs \<Rightarrow> string \<Rightarrow> int \<Rightarrow> principal_init \<Rightarrow> database
     \<Rightarrow> database \<times> (tp_error + principal)" where
  "create_principal P K principal_id now i d =
     (case and_then (validate_principal_init P i) (\<lambda>_.
           and_then (principal_row_of K principal_id now i) (\<lambda>row. insert_principal row d)) of
        Inl e \<Rightarrow> (d, Inl e)
      | Inr d' \<Rightarrow> (d', and_then (principal_by_id K d' principal_id)
          (ok_or (TpInvalidScope ''created principal missing''))))"

section \<open>Reading jobs\<close>

definition target_outcomes :: "codecs \<Rightarrow> database \<Rightarrow> string \<Rightarrow> tp_error + target_outcome list" where
  "target_outcomes K d job_id =
     collect_results (target_outcome_from_row K)
       (sort_key (\<lambda>r. (tw_transport_kind r, tw_endpoint_uri r, tw_target_scope r))
          (filter (\<lambda>r. tw_job_id r = job_id) (map fst (db_results d))))"

definition finalize_job_row_for_egress ::
  "publish_crates \<Rightarrow> codecs \<Rightarrow> database \<Rightarrow> publish_job_row \<Rightarrow> tp_error + publish_job_row" where
  "finalize_job_row_for_egress P K d row =
     and_then (target_outcomes K d (jb_job_id (pj_view row))) (\<lambda>targets.
       let view = finalize_job_view P ((pj_view row)\<lparr>jb_targets := targets\<rparr>)
       in and_then (map_err TpInvalidPublishJobState (pc_validate_job P view))
            (\<lambda>_. Inr (row\<lparr>pj_view := view\<rparr>)))"

definition job_by_id :: "publish_crates \<Rightarrow> codecs \<Rightarrow> database \<Rightarrow> string \<Rightarrow> tp_error + job" where
  "job_by_id P K d job_id =
     and_then (map_transpose (job_from_row K) (find (\<lambda>r. jw_job_id r = job_id) (db_jobs d))) (\<lambda>row.
       case row of
         None \<Rightarrow> Inl (TpInvalidScope ''unknown publish job'')
       | Some row \<Rightarrow> map_ok pj_view (finalize_job_row_for_egress P K d row))"

definition job_by_id_for_principal ::
  "publish_crates \<Rightarrow> codecs \<Rightarrow> database \<Rightarrow> string \<Rightarrow> principal \<Rightarrow> tp_error + job option" where
  "job_by_id_for_principal P K d job_id p =
     and_then (map_transpose (job_from_row K) (find (\<lambda>r. jw_job_id r = job_id) (db_jobs d))) (\<lambda>row.
       case row of
         None \<Rightarrow> Inr None
       | Some row \<Rightarrow>
           if \<not> can_read_job p (pj_principal_id row) then Inr None
           else map_ok (\<lambda>r. Some (pj_view r)) (finalize_job_row_for_egress P K d row))"

definition job_for_principal_id_and_key ::
  "publish_crates \<Rightarrow> codecs \<Rightarrow> database \<Rightarrow> string \<Rightarrow> string \<Rightarrow> tp_error + publish_job_row option" where
  "job_for_principal_id_and_key P K d principal_id key =
     and_then (map_transpose (job_from_row K)
       (find (\<lambda>r. jw_principal_id r = principal_id \<and> jw_idempotency_key r = Some key) (db_jobs d))) (\<lambda>row.
       case row of
         None \<Rightarrow> Inr None
       | Some row \<Rightarrow> map_ok Some (finalize_job_row_for_egress P K d row))"

definition clamp :: "nat \<Rightarrow> nat \<Rightarrow> nat \<Rightarrow> nat" where
  "clamp lo hi n = max lo (min hi n)"

definition list_jobs_for_principal ::
  "publish_crates \<Rightarrow> codecs \<Rightarrow> database \<Rightarrow> principal \<Rightarrow> nat \<Rightarrow> tp_error + job list" where
  "list_jobs_for_principal P K d p limit =
     (let visible = (if pp_job_visibility p = Admin then db_jobs d
            else filter (\<lambda>r. jw_principal_id r = pp_principal_id p) (db_jobs d));
          newest = rev (sort_key (\<lambda>r. (jw_requested_at_ms r, jw_job_id r)) visible);
          page = take (clamp 1 200 limit) newest
      in and_then (collect_results (job_from_row K) page)
           (collect_results (\<lambda>row. map_ok pj_view (finalize_job_row_for_egress P K d row))))"

section \<open>Recording a job\<close>

record event_metadata =
  em_event_id :: string
  em_pubkey :: string
  em_kind :: u32

definition from_signed_event :: "signed_event \<Rightarrow> event_metadata" where
  "from_signed_event e = \<lparr>em_event_id = se_id e, em_pubkey = se_pubkey e, em_kind = se_kind e\<rparr>"

record job_insert =
  ji_principal_id :: string
  ji_idempotency_key :: "string option"
  ji_event :: event_metadata
  ji_request :: event_request
  ji_request_fingerprint :: string
  ji_effective_target_count :: nat
  ji_target_snapshots :: "target_outcome list"

fun insert_target_snapshots ::
  "codecs \<Rightarrow> string \<Rightarrow> nat \<Rightarrow> target_outcome list \<Rightarrow> int \<Rightarrow> database \<Rightarrow> tp_error + database" where
  "insert_target_snapshots K job_id i [] now d = Inr d"
| "insert_target_snapshots K job_id i (t # ts) now d =
     and_then (target_row_of K job_id t) (\<lambda>row.
     and_then (insert_snapshot i row now d) (\<lambda>d'. insert_target_snapshots K job_id (Suc i) ts now d'))"

definition job_row_of ::
  "codecs \<Rightarrow> string \<Rightarrow> int \<Rightarrow> string \<Rightarrow> int \<Rightarrow> int \<Rightarrow> job_insert \<Rightarrow> tp_error + job_row" where
  "job_row_of K job_id now request_json requested_count effective_count i =
     and_then (encode (cd_status K) JsPublishing) (\<lambda>status.
     and_then (encode (cd_target_policy K) (er_target_policy (ji_request i))) (\<lambda>target_policy.
     and_then (encode (cd_delivery_policy K) (er_delivery_policy (ji_request i))) (\<lambda>delivery_policy. Inr
       \<lparr>jw_job_id = job_id, jw_principal_id = ji_principal_id i, jw_idempotency_key = ji_idempotency_key i,
        jw_request_fingerprint = ji_request_fingerprint i, jw_status = status,
        jw_event_id = em_event_id (ji_event i), jw_event_pubkey = em_pubkey (ji_event i),
        jw_event_kind = uint (em_kind (ji_event i)), jw_target_policy_json = target_policy,
        jw_delivery_policy_json = delivery_policy, jw_requested_target_count = requested_count,
        jw_effective_target_count = effective_count, jw_request_json = request_json,
        jw_requested_at_ms = now, jw_updated_at_ms = now, jw_completed_at_ms = None,
        jw_last_error = None\<rparr>)))"

text \<open>The statements between \<open>BEGIN\<close> and \<open>COMMIT\<close>; on an error the transaction is rolled back.\<close>

definition record_transaction ::
  "codecs \<Rightarrow> string \<Rightarrow> int \<Rightarrow> string \<Rightarrow> int \<Rightarrow> int \<Rightarrow> job_insert \<Rightarrow> database \<Rightarrow> tp_error + database" where
  "record_transaction K job_id now request_json requested_count effective_count i d =
     and_then (job_row_of K job_id now request_json requested_count effective_count i) (\<lambda>row.
     and_then (map_err (\<lambda>e. if is_sqlite_constraint_error e
           then TpIdempotencyConflict ''idempotency key conflicts with an existing publish job'' else e)
         (insert_job row d)) (\<lambda>d'.
       insert_target_snapshots K job_id 0 (ji_target_snapshots i) now d'))"

definition lookup_idempotent ::
  "publish_crates \<Rightarrow> codecs \<Rightarrow> database \<Rightarrow> job_insert \<Rightarrow> tp_error + publish_job_row option" where
  "lookup_idempotent P K d i =
     (case ji_idempotency_key i of
        None \<Rightarrow> Inr None
      | Some key \<Rightarrow> job_for_principal_id_and_key P K d (ji_principal_id i) key)"

definition insert_publish_job ::
  "publish_crates \<Rightarrow> codecs \<Rightarrow> string \<Rightarrow> int \<Rightarrow> job_insert \<Rightarrow> database
     \<Rightarrow> database \<times> (tp_error + event_response)" where
  "insert_publish_job P K job_id now i d =
     (case and_then (encode (cd_request K) (ji_request i)) (\<lambda>request_json.
           and_then (storage_count_i64 (pc_request_target_count P (er_target_policy (ji_request i)))
             ''requested_target_count'') (\<lambda>requested_count.
           and_then (storage_count_i64 (ji_effective_target_count i) ''effective_target_count'')
             (\<lambda>effective_count.
             record_transaction K job_id now request_json requested_count effective_count i d))) of
        Inl e \<Rightarrow> (d, Inl e)
      | Inr d' \<Rightarrow> (d', map_ok (\<lambda>j. \<lparr>rs_deduplicated = False, rs_job = j\<rparr>) (job_by_id P K d' job_id)))"

definition record_publish_job ::
  "publish_crates \<Rightarrow> codecs \<Rightarrow> string \<Rightarrow> int \<Rightarrow> job_insert \<Rightarrow> database
     \<Rightarrow> database \<times> (tp_error + event_response)" where
  "record_publish_job P K job_id now i d =
     (if ji_effective_target_count i \<noteq> length (ji_target_snapshots i)
      then (d, Inl (TpInvalidScope ''publish job target snapshot count must match effective target count''))
      else case lookup_idempotent P K d i of
             Inl e \<Rightarrow> (d, Inl e)
           | Inr (Some existing) \<Rightarrow>
               (d, if pj_request_fingerprint existing \<noteq> ji_request_fingerprint i
                   then Inl (TpIdempotencyConflict (case ji_idempotency_key i of Some k \<Rightarrow> k | None \<Rightarrow> []))
                   else Inr \<lparr>rs_deduplicated = True, rs_job = pj_view existing\<rparr>)
           | Inr None \<Rightarrow> insert_publish_job P K job_id now i d)"

section \<open>Completing a job\<close>

fun insert_results ::
  "codecs \<Rightarrow> string \<Rightarrow> target_outcome list \<Rightarrow> int \<Rightarrow> database \<Rightarrow> database \<times> (tp_error + unit)" where
  "insert_results K job_id [] now d = (d, Inr ())"
| "insert_results K job_id (t # ts) now d =
     (case and_then (target_row_of K job_id t) (\<lambda>row. replace_result row now d) of
        Inl e \<Rightarrow> (d, Inl e)
      | Inr d' \<Rightarrow> insert_results K job_id ts now d')"

definition replace_target_outcomes ::
  "codecs \<Rightarrow> string \<Rightarrow> target_outcome list \<Rightarrow> int \<Rightarrow> database \<Rightarrow> database \<times> (tp_error + unit)" where
  "replace_target_outcomes K job_id outcomes now d =
     insert_results K job_id outcomes now (delete_results job_id d)"

definition completed_row ::
  "string \<Rightarrow> int \<Rightarrow> string option \<Rightarrow> int \<Rightarrow> job_row \<Rightarrow> job_row" where
  "completed_row status now last_error n r =
     r\<lparr>jw_status := status, jw_updated_at_ms := now, jw_completed_at_ms := Some now,
       jw_last_error := last_error, jw_effective_target_count := n\<rparr>"

definition complete_publish_job ::
  "codecs \<Rightarrow> int \<Rightarrow> string \<Rightarrow> job_status \<Rightarrow> target_outcome list \<Rightarrow> string option \<Rightarrow> database
     \<Rightarrow> database \<times> (tp_error + unit)" where
  "complete_publish_job K now job_id status outcomes last_error d =
     (case and_then (storage_count_i64 (length outcomes) ''effective_target_count'') (\<lambda>n.
           and_then (encode (cd_status K) status) (\<lambda>text. Inr (n, text))) of
        Inl e \<Rightarrow> (d, Inl e)
      | Inr (n, text) \<Rightarrow>
          replace_target_outcomes K job_id outcomes now
            (update_job job_id (completed_row text now last_error n) d))"

section \<open>The cache of author relays\<close>

definition cached_author_write_relays :: "codecs \<Rightarrow> database \<Rightarrow> string \<Rightarrow> tp_error + string list" where
  "cached_author_write_relays K d pubkey =
     (case find (\<lambda>r. cw_pubkey r = pubkey) (db_cache d) of
        None \<Rightarrow> Inr []
      | Some r \<Rightarrow> map_err TpJson (from_json (cd_strings K) (cw_relays_json r)))"

definition cache_author_write_relays ::
  "codecs \<Rightarrow> int \<Rightarrow> string \<Rightarrow> string list \<Rightarrow> database \<Rightarrow> tp_error + database" where
  "cache_author_write_relays K now pubkey relays d =
     map_ok (\<lambda>text. upsert_cache \<lparr>cw_pubkey = pubkey, cw_relays_json = text, cw_updated_at_ms = now\<rparr> d)
       (encode (cd_strings K) relays)"

section \<open>Recovery at start\<close>

definition target_snapshot_outcomes :: "codecs \<Rightarrow> database \<Rightarrow> string \<Rightarrow> tp_error + target_outcome list" where
  "target_snapshot_outcomes K d job_id =
     collect_results (target_outcome_from_row K)
       (map (\<lambda>(_, r, _). r) (sort_key fst (filter (\<lambda>(_, r, _). tw_job_id r = job_id) (db_snapshots d))))"

definition recovered_status ::
  "publish_crates \<Rightarrow> job \<Rightarrow> target_outcome list \<Rightarrow> job_status \<times> string option" where
  "recovered_status P view snapshots =
     (if snapshots = [] then (JsRejected, Some ''publish_attempt_interrupted_missing_target_snapshot'')
      else let status = delivery_status P (jb_delivery_policy view) (length snapshots) snapshots
           in (status, if status = JsDeliveryUnsatisfiedRetryable then Some ''publish_attempt_interrupted''
                       else last_error_for_status status))"

definition recover_job ::
  "publish_crates \<Rightarrow> codecs \<Rightarrow> int \<Rightarrow> publish_job_row \<Rightarrow> database \<Rightarrow> database \<times> (tp_error + unit)" where
  "recover_job P K now row d =
     (let job_id = jb_job_id (pj_view row) in
      case and_then (target_snapshot_outcomes K d job_id) (\<lambda>snapshots.
           and_then (storage_count_i64 (length snapshots) ''effective_target_count'') (\<lambda>n.
           and_then (encode (cd_status K) (fst (recovered_status P (pj_view row) snapshots))) (\<lambda>text.
             Inr (snapshots, n, text)))) of
        Inl e \<Rightarrow> (d, Inl e)
      | Inr (snapshots, n, text) \<Rightarrow>
          replace_target_outcomes K job_id snapshots now
            (update_job job_id
              (completed_row text now (snd (recovered_status P (pj_view row) snapshots)) n) d))"

fun recover_jobs ::
  "publish_crates \<Rightarrow> codecs \<Rightarrow> int \<Rightarrow> publish_job_row list \<Rightarrow> database \<Rightarrow> database \<times> (tp_error + unit)" where
  "recover_jobs P K now [] d = (d, Inr ())"
| "recover_jobs P K now (row # rows) d =
     (case recover_job P K now row d of
        (d', Inl e) \<Rightarrow> (d', Inl e)
      | (d', Inr _) \<Rightarrow> recover_jobs P K now rows d')"

definition recover_interrupted_publish_jobs ::
  "publish_crates \<Rightarrow> codecs \<Rightarrow> int \<Rightarrow> database \<Rightarrow> database \<times> (tp_error + unit)" where
  "recover_interrupted_publish_jobs P K now d =
     (case and_then (encode (cd_status K) JsPublishing) (\<lambda>publishing.
           collect_results (job_from_row K) (filter (\<lambda>r. jw_status r = publishing) (db_jobs d))) of
        Inl e \<Rightarrow> (d, Inl e)
      | Inr rows \<Rightarrow> recover_jobs P K now rows d)"

section \<open>The constraints as an invariant\<close>

definition database_ok :: "database \<Rightarrow> bool" where
  "database_ok d \<longleftrightarrow>
     distinct (map pw_principal_id (db_principals d)) \<and> distinct (map pw_token_hash (db_principals d)) \<and>
     distinct (map jw_job_id (db_jobs d)) \<and>
     (\<forall>r \<in> set (db_jobs d). \<forall>s \<in> set (db_jobs d). same_idempotency r s \<longrightarrow> r = s) \<and>
     jw_principal_id ` set (db_jobs d) \<subseteq> pw_principal_id ` set (db_principals d) \<and>
     distinct (map (\<lambda>(r, _). result_key r) (db_results d)) \<and>
     (\<forall>(r, _) \<in> set (db_results d). tw_job_id r \<in> jw_job_id ` set (db_jobs d)) \<and>
     distinct (map (\<lambda>(i, r, _). (tw_job_id r, i)) (db_snapshots d)) \<and>
     (\<forall>(_, r, _) \<in> set (db_snapshots d). tw_job_id r \<in> jw_job_id ` set (db_jobs d)) \<and>
     distinct (map cw_pubkey (db_cache d))"

subsection \<open>Inserting a row with a unique key\<close>

lemma find_append: "find Q (xs @ ys) = (case find Q xs of None \<Rightarrow> find Q ys | Some x \<Rightarrow> Some x)"
  by (induction xs) auto

locale unique_table =
  fixes rows :: "database \<Rightarrow> 'row list"
    and key :: "'row \<Rightarrow> 'k"
    and ins :: "'row \<Rightarrow> database \<Rightarrow> tp_error + database"
  assumes ins_rows: "ins r d = Inr d' \<Longrightarrow> rows d' = rows d @ [r]"
    and ins_fresh: "ins r d = Inr d' \<Longrightarrow> key r \<notin> key ` set (rows d)"
begin

lemma ins_distinct:
  assumes "ins r d = Inr d'" and "distinct (map key (rows d))"
  shows "distinct (map key (rows d'))"
  using assms(2) ins_fresh [OF assms(1)] by (simp add: ins_rows [OF assms(1)])

lemma ins_lookup:
  assumes "ins r d = Inr d'"
  shows "find (\<lambda>s. key s = key r) (rows d') = Some r"
proof -
  have "find (\<lambda>s. key s = key r) (rows d) = None"
    using ins_fresh [OF assms] by (force simp: find_None_iff image_iff)
  then show ?thesis
    by (simp add: ins_rows [OF assms] find_append)
qed

lemma ins_lookup_other:
  assumes "ins r d = Inr d'" and "k \<noteq> key r"
  shows "find (\<lambda>s. key s = k) (rows d') = find (\<lambda>s. key s = k) (rows d)"
  using assms(2) by (simp add: ins_rows [OF assms(1)] find_append split: option.split)

end

interpretation principals: unique_table db_principals pw_principal_id insert_principal
  by unfold_locales (auto simp: insert_principal_def split: if_splits)

interpretation tokens: unique_table db_principals pw_token_hash insert_principal
  by unfold_locales (auto simp: insert_principal_def split: if_splits)

interpretation jobs: unique_table db_jobs jw_job_id insert_job
  by unfold_locales (auto simp: insert_job_def split: if_splits)

interpretation snapshots: unique_table db_snapshots "\<lambda>(i, r, _). (tw_job_id r, i)"
  "\<lambda>(i, r, now). insert_snapshot i r now"
  by unfold_locales (auto simp: insert_snapshot_def list_ex_iff split: if_splits)

subsection \<open>Every statement keeps the constraints\<close>

lemma insert_principal_ok:
  assumes "insert_principal r d = Inr d'" and "database_ok d"
  shows "database_ok d'"
proof -
  have d': "d' = d\<lparr>db_principals := db_principals d @ [r]\<rparr>"
    using assms(1) by (simp add: insert_principal_def split: if_splits)
  have "distinct (map pw_principal_id (db_principals d'))" "distinct (map pw_token_hash (db_principals d'))"
    using assms(2) principals.ins_distinct [OF assms(1)] tokens.ins_distinct [OF assms(1)]
    by (simp_all add: database_ok_def)
  with assms(2) show ?thesis by (simp add: d' database_ok_def subset_insertI2)
qed

lemma insert_job_ok:
  assumes "insert_job r d = Inr d'" and "database_ok d"
  shows "database_ok d'"
proof -
  have new: "\<not> list_ex (same_idempotency r) (db_jobs d)"
    and d': "d' = d\<lparr>db_jobs := db_jobs d @ [r]\<rparr>"
    and fk: "jw_principal_id r \<in> pw_principal_id ` set (db_principals d)"
    using assms(1) by (auto simp: insert_job_def split: if_splits)
  have old: "\<forall>s \<in> set (db_jobs d). \<forall>t \<in> set (db_jobs d). same_idempotency s t \<longrightarrow> s = t"
    using assms(2) by (simp add: database_ok_def)
  have "\<not> same_idempotency r s \<and> \<not> same_idempotency s r" if "s \<in> set (db_jobs d)" for s
    using new that by (simp add: list_ex_iff same_idempotency_def) metis
  with old have "\<forall>s \<in> set (db_jobs d'). \<forall>t \<in> set (db_jobs d'). same_idempotency s t \<longrightarrow> s = t"
    unfolding d' by simp
  moreover have "distinct (map jw_job_id (db_jobs d'))"
    using assms(2) jobs.ins_distinct [OF assms(1)] by (simp add: database_ok_def)
  ultimately show ?thesis
    using assms(2) fk by (simp add: d' database_ok_def case_prod_beta)
qed

lemma insert_snapshot_ok:
  assumes "insert_snapshot i r now d = Inr d'" and "database_ok d"
  shows "database_ok d'"
proof -
  have d': "d' = d\<lparr>db_snapshots := db_snapshots d @ [(i, r, now)]\<rparr>"
    and fk: "tw_job_id r \<in> jw_job_id ` set (db_jobs d)"
    using assms(1) by (auto simp: insert_snapshot_def split: if_splits)
  have "distinct (map (\<lambda>(i, r, _). (tw_job_id r, i)) (db_snapshots d'))"
    using assms snapshots.ins_distinct [of "(i, r, now)" d d'] by (simp add: database_ok_def)
  with fk assms(2) show ?thesis by (simp add: d' database_ok_def)
qed

lemma replace_result_ok:
  assumes "replace_result r now d = Inr d'" and "database_ok d"
  shows "database_ok d'"
proof -
  let ?kept = "filter (\<lambda>(s, _). result_key s \<noteq> result_key r) (db_results d)"
  have d': "d' = d\<lparr>db_results := ?kept @ [(r, now)]\<rparr>"
    and fk: "tw_job_id r \<in> jw_job_id ` set (db_jobs d)"
    using assms(1) by (auto simp: replace_result_def split: if_splits)
  have "distinct (map (\<lambda>(r, _). result_key r) (?kept @ [(r, now)]))"
    using assms(2) by (auto simp: database_ok_def intro: distinct_map_filter)
  with fk assms(2) show ?thesis by (auto simp: d' database_ok_def)
qed

lemma delete_results_ok: "database_ok d \<Longrightarrow> database_ok (delete_results job_id d)"
  by (auto simp: delete_results_def database_ok_def intro: distinct_map_filter)

lemma update_job_frame [simp]:
  "db_principals (update_job k f d) = db_principals d" "db_results (update_job k f d) = db_results d"
  "db_snapshots (update_job k f d) = db_snapshots d" "db_cache (update_job k f d) = db_cache d"
  by (simp_all add: update_job_def)

lemma update_job_ids:
  assumes "\<And>r. jw_job_id (f r) = jw_job_id r"
  shows "map jw_job_id (db_jobs (update_job k f d)) = map jw_job_id (db_jobs d)"
  using assms by (simp add: update_job_def)

lemma update_job_ok:
  assumes "\<And>r. jw_job_id (f r) = jw_job_id r" and "\<And>r. jw_principal_id (f r) = jw_principal_id r"
    and "\<And>r. jw_idempotency_key (f r) = jw_idempotency_key r" and "database_ok d"
  shows "database_ok (update_job k f d)"
proof -
  let ?u = "\<lambda>r. if jw_job_id r = k then f r else r"
  have ids: "map jw_job_id (db_jobs (update_job k f d)) = map jw_job_id (db_jobs d)"
    by (rule update_job_ids) (rule assms)
  have pids: "map jw_principal_id (db_jobs (update_job k f d)) = map jw_principal_id (db_jobs d)"
    using assms(2) by (simp add: update_job_def)
  have same: "same_idempotency (?u r) (?u s) = same_idempotency r s" for r s
    by (simp add: same_idempotency_def assms(2,3))
  have "\<forall>r \<in> set (db_jobs (update_job k f d)). \<forall>s \<in> set (db_jobs (update_job k f d)).
      same_idempotency r s \<longrightarrow> r = s"
  proof (intro ballI impI)
    fix r' s'
    assume "r' \<in> set (db_jobs (update_job k f d))" "s' \<in> set (db_jobs (update_job k f d))"
      and si: "same_idempotency r' s'"
    then obtain r s where r: "r \<in> set (db_jobs d)" "r' = ?u r" and s: "s \<in> set (db_jobs d)" "s' = ?u s"
      by (auto simp: update_job_def)
    with si same have "same_idempotency r s" by metis
    then have "r = s" using r(1) s(1) assms(4) unfolding database_ok_def by blast
    then show "r' = s'" using r(2) s(2) by simp
  qed
  moreover have "jw_job_id ` set (db_jobs (update_job k f d)) = jw_job_id ` set (db_jobs d)"
    and "jw_principal_id ` set (db_jobs (update_job k f d)) = jw_principal_id ` set (db_jobs d)"
    using arg_cong [OF ids, of set] arg_cong [OF pids, of set] by simp_all
  ultimately show ?thesis
    using assms(4) unfolding database_ok_def ids update_job_frame by (elim conjE) (intro conjI; simp)
qed

lemma completed_row_ok: "database_ok d \<Longrightarrow> database_ok (update_job k (completed_row s now e n) d)"
  by (intro update_job_ok) (simp_all add: completed_row_def)

lemma upsert_cache_ok:
  assumes "database_ok d"
  shows "database_ok (upsert_cache r d)"
proof -
  have "map cw_pubkey (map (\<lambda>s. if cw_pubkey s = cw_pubkey r then r else s) (db_cache d)) =
      map cw_pubkey (db_cache d)"
    by simp
  then have "distinct (map cw_pubkey (db_cache (upsert_cache r d)))"
    using assms by (auto simp: upsert_cache_def database_ok_def simp del: map_map)
  with assms show ?thesis by (simp add: database_ok_def upsert_cache_def)
qed

section \<open>Rows read back\<close>

lemma encode_decode: "codec_ok c \<Longrightarrow> encode c x = Inr text \<Longrightarrow> from_json c text = Inr x"
  by (metis codec_ok_def encode_def map_err_eq_Inr sum.inject(2))

lemma encode_total: "codec_ok c \<Longrightarrow> \<exists>text. encode c x = Inr text"
  by (metis codec_ok_def encode_def map_err.simps(2))

lemma encode_inject:
  "codec_ok c \<Longrightarrow> encode c x = Inr text \<Longrightarrow> encode c y = Inr text \<Longrightarrow> x = y"
  by (metis encode_decode sum.inject(2))

lemma encode_json_text: "codec_ok c \<Longrightarrow> encode c x = Inr text \<Longrightarrow> json_text c field text = Inr x"
  by (simp add: json_text_def encode_decode)

lemma codecs_okD:
  assumes "codecs_ok K"
  shows "codec_ok (cd_strings K)" "codec_ok (cd_kinds K)" "codec_ok (cd_policy_names K)"
    "codec_ok (cd_source_policies K)" "codec_ok (cd_status K)" "codec_ok (cd_target_policy K)"
    "codec_ok (cd_delivery_policy K)" "codec_ok (cd_source K)" "codec_ok (cd_outcome_kind K)"
    "codec_ok (cd_request K)"
  using assms by (simp_all add: codecs_ok_def)

text \<open>An outcome the columns can hold: an empty scope and a latency above \<open>i64::MAX\<close> are not kept.\<close>

definition storable :: "target_outcome \<Rightarrow> bool" where
  "storable t \<longleftrightarrow> to_target_scope t \<noteq> Some [] \<and>
     (case to_latency_ms t of Some n \<Rightarrow> uint n \<le> i64_max | None \<Rightarrow> True)"

definition stored_form :: "target_outcome \<Rightarrow> target_outcome" where
  "stored_form t = t\<lparr>to_target_scope := storage_target_scope_to_protocol (storage_target_scope (to_target_scope t)),
     to_latency_ms := (case to_latency_ms t of Some n \<Rightarrow> (if uint n \<le> i64_max then Some n else None) | None \<Rightarrow> None)\<rparr>"

lemma stored_form_storable: "storable t \<Longrightarrow> stored_form t = t"
  by (cases t) (auto simp: storable_def stored_form_def storage_target_scope_def
      storage_target_scope_to_protocol_def split: option.splits)

lemma latency_roundtrip:
  "checked_optional_u64_column (latency_column v) field =
     Inr (case v of Some n \<Rightarrow> (if uint n \<le> i64_max then Some n else None) | None \<Rightarrow> None)"
  by (simp add: checked_optional_u64_column_def latency_column_def split: option.split)

lemma target_row_total: "codecs_ok K \<Longrightarrow> \<exists>r. target_row_of K job_id t = Inr r"
  using encode_total [OF codecs_okD(8), of K "to_source t"]
    encode_total [OF codecs_okD(9), of K "to_outcome_kind t"]
  by (auto simp: target_row_of_def)

lemma target_row_roundtrip:
  assumes "codecs_ok K" and "target_row_of K job_id t = Inr r"
  shows "target_outcome_from_row K r = Inr (stored_form t)" and "tw_job_id r = job_id"
    and "result_key r = (job_id, to_transport_kind t, to_endpoint_uri t, storage_target_scope (to_target_scope t))"
proof -
  obtain source kind where e: "encode (cd_source K) (to_source t) = Inr source"
      "encode (cd_outcome_kind K) (to_outcome_kind t) = Inr kind"
    and r: "r = \<lparr>tw_job_id = job_id, tw_transport_kind = to_transport_kind t, tw_endpoint_uri = to_endpoint_uri t,
        tw_target_scope = storage_target_scope (to_target_scope t), tw_target_label = to_target_label t,
        tw_source = source, tw_attempted = to_attempted t, tw_outcome_kind = kind,
        tw_message = to_message t, tw_latency_ms = latency_column (to_latency_ms t)\<rparr>"
    using assms(2) by (auto simp: target_row_of_def result_eqs)
  show "target_outcome_from_row K r = Inr (stored_form t)"
    using encode_json_text [OF codecs_okD(8) e(1)] encode_json_text [OF codecs_okD(9) e(2)] assms(1)
    by (cases t) (simp add: target_outcome_from_row_def r latency_roundtrip stored_form_def)
  show "tw_job_id r = job_id"
    and "result_key r = (job_id, to_transport_kind t, to_endpoint_uri t, storage_target_scope (to_target_scope t))"
    by (simp_all add: r result_key_def)
qed

lemma principal_row_roundtrip:
  assumes "codecs_ok K" and "principal_row_of K pid now i = Inr r"
  shows "principal_from_row K r = Inr
    \<lparr>pp_principal_id = pid, pp_label = trim (pi_label i), pp_allowed_pubkeys = pi_allowed_pubkeys i,
     pp_allowed_kinds = pi_allowed_kinds i, pp_allowed_target_policies = pi_allowed_target_policies i,
     pp_allowed_explicit_transport_kinds = pi_allowed_explicit_transport_kinds i,
     pp_allowed_nostr_source_policies = pi_allowed_nostr_source_policies i,
     pp_allow_request_targets = pi_allow_request_targets i, pp_job_visibility = pi_job_visibility i,
     pp_expires_at_unix = pi_expires_at_unix i\<rparr>"
    and "pw_principal_id r = pid" "pw_token_hash r = pi_token_hash i" "pw_revoked_at_unix r = None"
      "pw_expires_at_unix r = pi_expires_at_unix i"
proof -
  have v: "visibility_from_str (visibility_to_string v) = Inr v" for v
    by (cases v) (simp_all add: visibility_from_str_def)
  note ok = codecs_okD [OF assms(1)]
  show "principal_from_row K r = Inr
    \<lparr>pp_principal_id = pid, pp_label = trim (pi_label i), pp_allowed_pubkeys = pi_allowed_pubkeys i,
     pp_allowed_kinds = pi_allowed_kinds i, pp_allowed_target_policies = pi_allowed_target_policies i,
     pp_allowed_explicit_transport_kinds = pi_allowed_explicit_transport_kinds i,
     pp_allowed_nostr_source_policies = pi_allowed_nostr_source_policies i,
     pp_allow_request_targets = pi_allow_request_targets i, pp_job_visibility = pi_job_visibility i,
     pp_expires_at_unix = pi_expires_at_unix i\<rparr>"
    using assms(2) encode_json_text [OF ok(1)] encode_json_text [OF ok(2)] encode_json_text [OF ok(3)]
      encode_json_text [OF ok(4)]
    by (auto simp: principal_row_of_def principal_from_row_def result_eqs v)
  show "pw_principal_id r = pid" "pw_token_hash r = pi_token_hash i" "pw_revoked_at_unix r = None"
      "pw_expires_at_unix r = pi_expires_at_unix i"
    using assms(2) by (auto simp: principal_row_of_def result_eqs)
qed

section \<open>Recording\<close>

lemma insert_target_snapshots_ok:
  "insert_target_snapshots K job_id i ts now d = Inr d' \<Longrightarrow> database_ok d \<Longrightarrow> database_ok d'"
  by (induction K job_id i ts now d rule: insert_target_snapshots.induct)
    (simp_all add: result_eqs, meson insert_snapshot_ok)

lemma insert_target_snapshots_effect:
  assumes "insert_target_snapshots K job_id i ts now d = Inr d'"
  shows "\<exists>rows. list_all2 (\<lambda>t r. target_row_of K job_id t = Inr r) ts rows \<and>
    d' = d\<lparr>db_snapshots := db_snapshots d @ map (\<lambda>(j, r). (j, r, now)) (List.enumerate i rows)\<rparr>"
  using assms
proof (induction K job_id i ts now d rule: insert_target_snapshots.induct)
  case (1 K job_id i now d)
  then show ?case by (intro exI [of _ "[]"]) simp
next
  case (2 K job_id i t ts now d)
  from 2(2) obtain row d1 where row: "target_row_of K job_id t = Inr row"
    and d1: "insert_snapshot i row now d = Inr d1"
    and rest: "insert_target_snapshots K job_id (Suc i) ts now d1 = Inr d'"
    by (auto simp: result_eqs)
  from 2(1) [OF rest] obtain rows
    where rows: "list_all2 (\<lambda>t r. target_row_of K job_id t = Inr r) ts rows"
      and d': "d' = d1\<lparr>db_snapshots := db_snapshots d1 @ map (\<lambda>(j, r). (j, r, now)) (List.enumerate (Suc i) rows)\<rparr>"
    by blast
  have "d1 = d\<lparr>db_snapshots := db_snapshots d @ [(i, row, now)]\<rparr>"
    using d1 by (simp add: insert_snapshot_def split: if_splits)
  with row rows d' show ?case by (intro exI [of _ "row # rows"]) simp
qed

lemma record_transactionE:
  assumes "record_transaction K job_id now rj rc ec i d = Inr d'"
  obtains row d1 where "job_row_of K job_id now rj rc ec i = Inr row" "insert_job row d = Inr d1"
    "insert_target_snapshots K job_id 0 (ji_target_snapshots i) now d1 = Inr d'"
  using assms by (auto simp: record_transaction_def result_eqs)

lemma insert_publish_job_ok:
  "database_ok d \<Longrightarrow> database_ok (fst (insert_publish_job P K job_id now i d))"
  by (auto simp: insert_publish_job_def result_eqs split: sum.split
      elim!: record_transactionE intro: insert_target_snapshots_ok insert_job_ok)

lemma record_publish_job_ok:
  "database_ok d \<Longrightarrow> database_ok (fst (record_publish_job P K job_id now i d))"
  by (simp add: record_publish_job_def insert_publish_job_ok split: sum.split option.split)

lemma job_row_of_columns:
  assumes "job_row_of K job_id now rj rc ec i = Inr row"
  shows "jw_job_id row = job_id" "jw_principal_id row = ji_principal_id i"
    "jw_idempotency_key row = ji_idempotency_key i"
    "jw_request_fingerprint row = ji_request_fingerprint i"
    "encode (cd_status K) JsPublishing = Inr (jw_status row)"
  using assms by (auto simp: job_row_of_def result_eqs)

lemma job_from_row_columns:
  "job_from_row K r = Inr row \<Longrightarrow> pj_request_fingerprint row = jw_request_fingerprint r"
  "job_from_row K r = Inr row \<Longrightarrow> pj_principal_id row = jw_principal_id r"
  "job_from_row K r = Inr row \<Longrightarrow> jb_job_id (pj_view row) = jw_job_id r"
  by (auto simp: job_from_row_def result_eqs)

lemma finalize_columns:
  "finalize_job_row_for_egress P K d row = Inr row' \<Longrightarrow>
     pj_request_fingerprint row' = pj_request_fingerprint row \<and> pj_principal_id row' = pj_principal_id row"
  by (auto simp: finalize_job_row_for_egress_def Let_def result_eqs)

text \<open>What a successful call leaves behind: the job is found again under its key.\<close>

lemma find_idempotent_new:
  assumes "find (\<lambda>r. jw_principal_id r = p \<and> jw_idempotency_key r = Some k) rows = None"
    and "jw_principal_id row = p" and "jw_idempotency_key row = Some k"
  shows "find (\<lambda>r. jw_principal_id r = p \<and> jw_idempotency_key r = Some k) (rows @ [row]) = Some row"
  using assms by (simp add: find_append)

lemma insert_publish_job_found:
  assumes "insert_publish_job P K job_id now i d = (d', Inr r)" and "ji_idempotency_key i = Some key"
    and "lookup_idempotent P K d i = Inr None"
  shows "\<exists>row. lookup_idempotent P K d' i = Inr (Some row) \<and>
    pj_request_fingerprint row = ji_request_fingerprint i \<and> pj_view row = rs_job r"
proof -
  let ?same = "\<lambda>r. jw_principal_id r = ji_principal_id i \<and> jw_idempotency_key r = Some key"
  obtain rj rc ec where t: "record_transaction K job_id now rj rc ec i d = Inr d'"
    and r: "map_ok (\<lambda>j. \<lparr>rs_deduplicated = False, rs_job = j\<rparr>) (job_by_id P K d' job_id) = Inr r"
    using assms(1) by (auto simp: insert_publish_job_def result_eqs split: sum.splits)
  from t obtain row d1 where row: "job_row_of K job_id now rj rc ec i = Inr row"
    and d1: "insert_job row d = Inr d1"
    and d': "insert_target_snapshots K job_id 0 (ji_target_snapshots i) now d1 = Inr d'"
    by (rule record_transactionE)
  note cols = job_row_of_columns [OF row]
  have none: "find ?same (db_jobs d) = None"
  proof (rule ccontr)
    assume "find ?same (db_jobs d) \<noteq> None"
    then obtain r0 where "find ?same (db_jobs d) = Some r0" by blast
    with assms(2,3) show False
      by (auto simp: lookup_idempotent_def job_for_principal_id_and_key_def result_eqs)
  qed
  have jobs: "db_jobs d' = db_jobs d @ [row]"
    using insert_target_snapshots_effect [OF d'] jobs.ins_rows [OF d1] by auto
  then have key_find: "find ?same (db_jobs d') = Some row"
    using find_idempotent_new [OF none] cols assms(2) by simp
  have id_find: "find (\<lambda>s. jw_job_id s = job_id) (db_jobs d') = Some row"
    using jobs.ins_lookup [OF d1] jobs jobs.ins_rows [OF d1] cols(1) by simp
  from r obtain prow frow where p: "job_from_row K row = Inr prow"
    and f: "finalize_job_row_for_egress P K d' prow = Inr frow" and rs: "rs_job r = pj_view frow"
    by (auto simp: job_by_id_def id_find result_eqs)
  have "lookup_idempotent P K d' i = Inr (Some frow)"
    by (simp add: lookup_idempotent_def assms(2) job_for_principal_id_and_key_def key_find p f)
  moreover have "pj_request_fingerprint frow = ji_request_fingerprint i"
    using finalize_columns [OF f] job_from_row_columns(1) [OF p] cols(4) by simp
  ultimately show ?thesis using rs by auto
qed

lemma record_publish_job_found:
  assumes "record_publish_job P K job_id now i d = (d', Inr r)" and "ji_idempotency_key i = Some key"
  shows "\<exists>row. lookup_idempotent P K d' i = Inr (Some row) \<and>
    pj_request_fingerprint row = ji_request_fingerprint i \<and> pj_view row = rs_job r"
proof (cases "lookup_idempotent P K d i")
  case (Inr found)
  with assms insert_publish_job_found [of P K job_id now i d d' r key] show ?thesis
    by (cases found) (auto simp: record_publish_job_def split: if_splits)
qed (use assms in \<open>simp add: record_publish_job_def split: if_splits\<close>)

section \<open>Completing\<close>

lemma insert_results_ok: "database_ok d \<Longrightarrow> database_ok (fst (insert_results K job_id ts now d))"
  by (induction K job_id ts now d rule: insert_results.induct)
    (auto simp: result_eqs intro: replace_result_ok split: sum.split)

lemma replace_target_outcomes_ok:
  "database_ok d \<Longrightarrow> database_ok (fst (replace_target_outcomes K job_id ts now d))"
  by (simp add: replace_target_outcomes_def insert_results_ok delete_results_ok)

lemma complete_publish_job_ok:
  "database_ok d \<Longrightarrow> database_ok (fst (complete_publish_job K now job_id status ts e d))"
  by (simp add: complete_publish_job_def replace_target_outcomes_ok completed_row_ok split: sum.split)

lemma insert_results_jobs: "db_jobs (fst (insert_results K job_id ts now d)) = db_jobs d"
  by (induction K job_id ts now d rule: insert_results.induct)
    (auto simp: replace_result_def result_eqs split: sum.split if_splits)

lemma insert_results_snapshots: "db_snapshots (fst (insert_results K job_id ts now d)) = db_snapshots d"
  by (induction K job_id ts now d rule: insert_results.induct)
    (auto simp: replace_result_def result_eqs split: sum.split if_splits)

lemma insert_results_total:
  "codecs_ok K \<Longrightarrow> job_id \<in> jw_job_id ` set (db_jobs d) \<Longrightarrow>
     snd (insert_results K job_id ts now d) = Inr ()"
proof (induction K job_id ts now d rule: insert_results.induct)
  case (2 K job_id t ts now d)
  obtain row where row: "target_row_of K job_id t = Inr row" using target_row_total 2 by blast
  then have "tw_job_id row = job_id" using target_row_roundtrip(2) 2 by blast
  then obtain d1 where d1: "replace_result row now d = Inr d1" "db_jobs d1 = db_jobs d"
    using 2 by (simp add: replace_result_def)
  then show ?case using 2 row by simp
qed simp

lemma recover_job_ok: "database_ok d \<Longrightarrow> database_ok (fst (recover_job P K now row d))"
  by (simp add: recover_job_def Let_def replace_target_outcomes_ok completed_row_ok split: sum.split)

lemma recover_jobs_ok: "database_ok d \<Longrightarrow> database_ok (fst (recover_jobs P K now rows d))"
proof (induction P K now rows d rule: recover_jobs.induct)
  case (2 P K now row rows d)
  then show ?case using recover_job_ok [of d P K now row]
    by (auto split: prod.splits sum.splits)
qed simp

lemma recover_ok: "database_ok d \<Longrightarrow> database_ok (fst (recover_interrupted_publish_jobs P K now d))"
  by (simp add: recover_interrupted_publish_jobs_def recover_jobs_ok split: sum.split)

lemma create_principal_ok: "database_ok d \<Longrightarrow> database_ok (fst (create_principal P K pid now i d))"
  by (auto simp: create_principal_def result_eqs intro: insert_principal_ok split: sum.split)

lemma cache_ok: "cache_author_write_relays K now pk relays d = Inr d' \<Longrightarrow> database_ok d \<Longrightarrow> database_ok d'"
  by (auto simp: cache_author_write_relays_def result_eqs intro: upsert_cache_ok)

lemma insort_key_map: "insort_key f (g x) (map g xs) = map g (insort_key (\<lambda>x. f (g x)) x xs)"
  by (induction xs) auto

lemma sort_key_map: "sort_key f (map g xs) = map g (sort_key (\<lambda>x. f (g x)) xs)"
  by (induction xs) (simp_all add: insort_key_map)

definition stored_row :: "codecs \<Rightarrow> string \<Rightarrow> target_outcome \<Rightarrow> target_row" where
  "stored_row K job_id t = projr (target_row_of K job_id t)"

definition outcome_key :: "target_outcome \<Rightarrow> string \<times> string \<times> string" where
  "outcome_key t = (to_transport_kind t, to_endpoint_uri t, storage_target_scope (to_target_scope t))"

lemma stored_row:
  assumes "codecs_ok K"
  shows "target_row_of K job_id t = Inr (stored_row K job_id t)"
    and "target_outcome_from_row K (stored_row K job_id t) = Inr (stored_form t)"
    and "tw_job_id (stored_row K job_id t) = job_id"
    and "result_key (stored_row K job_id t) = (job_id, outcome_key t)"
proof -
  obtain r where r: "target_row_of K job_id t = Inr r" using target_row_total [OF assms] by blast
  then have s: "stored_row K job_id t = r" by (simp add: stored_row_def)
  show "target_row_of K job_id t = Inr (stored_row K job_id t)"
    and "target_outcome_from_row K (stored_row K job_id t) = Inr (stored_form t)"
    and "tw_job_id (stored_row K job_id t) = job_id"
    and "result_key (stored_row K job_id t) = (job_id, outcome_key t)"
    using r target_row_roundtrip [OF assms r] by (simp_all add: s outcome_key_def)
qed

lemma insert_results_effect:
  assumes "codecs_ok K" and "job_id \<in> jw_job_id ` set (db_jobs d)" and "distinct (map outcome_key ts)"
    and "\<forall>t \<in> set ts. \<forall>(s, _) \<in> set (db_results d). result_key s \<noteq> (job_id, outcome_key t)"
  shows "insert_results K job_id ts now d =
    (d\<lparr>db_results := db_results d @ map (\<lambda>t. (stored_row K job_id t, now)) ts\<rparr>, Inr ())"
  using assms(2-4)
proof (induction ts arbitrary: d)
  case (Cons t ts)
  let ?r = "stored_row K job_id t"
  let ?d1 = "d\<lparr>db_results := db_results d @ [(?r, now)]\<rparr>"
  have "filter (\<lambda>(s, _). result_key s \<noteq> result_key ?r) (db_results d) = db_results d"
    using Cons.prems(3) by (auto simp: filter_id_conv stored_row(4) [OF assms(1)])
  then have step: "replace_result ?r now d = Inr ?d1"
    using Cons.prems(1) by (simp add: replace_result_def stored_row(3) [OF assms(1)])
  have "insert_results K job_id ts now ?d1 =
      (?d1\<lparr>db_results := db_results ?d1 @ map (\<lambda>t. (stored_row K job_id t, now)) ts\<rparr>, Inr ())"
  proof (rule Cons.IH)
    show "\<forall>u \<in> set ts. \<forall>(s, _) \<in> set (db_results ?d1). result_key s \<noteq> (job_id, outcome_key u)"
      using Cons.prems(2,3) by (auto simp: stored_row(4) [OF assms(1)])
  qed (use Cons.prems in simp_all)
  with step show ?case by (simp add: stored_row(1) [OF assms(1)])
qed simp

lemma replace_target_outcomes_effect:
  assumes "codecs_ok K" and "job_id \<in> jw_job_id ` set (db_jobs d)" and "distinct (map outcome_key ts)"
  shows "replace_target_outcomes K job_id ts now d =
    (d\<lparr>db_results := filter (\<lambda>(s, _). tw_job_id s \<noteq> job_id) (db_results d) @
        map (\<lambda>t. (stored_row K job_id t, now)) ts\<rparr>, Inr ())"
proof -
  have "insert_results K job_id ts now (delete_results job_id d) =
    ((delete_results job_id d)\<lparr>db_results := db_results (delete_results job_id d) @
        map (\<lambda>t. (stored_row K job_id t, now)) ts\<rparr>, Inr ())"
    using assms by (intro insert_results_effect) (auto simp: delete_results_def result_key_def)
  then show ?thesis by (simp add: replace_target_outcomes_def delete_results_def)
qed

lemma target_outcomes_stored:
  assumes "codecs_ok K" and "db_results d = old @ map (\<lambda>t. (stored_row K job_id t, now)) ts"
    and "\<forall>(s, _) \<in> set old. tw_job_id s \<noteq> job_id"
  shows "target_outcomes K d job_id = Inr (map stored_form (sort_key outcome_key ts))"
proof -
  let ?k = "\<lambda>r. (tw_transport_kind r, tw_endpoint_uri r, tw_target_scope r)"
  have key: "?k (stored_row K job_id t) = outcome_key t" for t
    using stored_row(4) [OF assms(1), of job_id t] by (auto simp: result_key_def)
  have "filter (\<lambda>r. tw_job_id r = job_id) (map fst (db_results d)) = map (stored_row K job_id) ts"
    using assms(3) by (auto simp: assms(2) filter_empty_conv filter_id_conv stored_row(3) [OF assms(1)] comp_def)
  then have "target_outcomes K d job_id =
      collect_results (target_outcome_from_row K) (map (stored_row K job_id) (sort_key outcome_key ts))"
    by (simp add: target_outcomes_def sort_key_map key)
  also have "\<dots> = Inr (map stored_form (sort_key outcome_key ts))"
    unfolding collect_results_eq_Inr by (simp add: list_all2_map1 list_all2_map2 list_all2_same stored_row(2) [OF assms(1)])
  finally show ?thesis .
qed

section \<open>Recovering\<close>

lemma filter_other_results:
  "tw_job_id r \<noteq> k \<Longrightarrow>
     filter (\<lambda>(s, _). tw_job_id s = k) (filter (\<lambda>(s, _). result_key s \<noteq> result_key r) rows @ [(r, now)]) =
     filter (\<lambda>(s, _). tw_job_id s = k) rows"
  by (induction rows) (auto simp: result_key_def)

lemma insert_results_others:
  "codecs_ok K \<Longrightarrow> job_id' \<noteq> job_id \<Longrightarrow>
     filter (\<lambda>(s, _). tw_job_id s = job_id') (db_results (fst (insert_results K job_id ts now d))) =
     filter (\<lambda>(s, _). tw_job_id s = job_id') (db_results d)"
proof (induction K job_id ts now d rule: insert_results.induct)
  case (2 K job_id t ts now d)
  let ?r = "stored_row K job_id t"
  have row: "target_row_of K job_id t = Inr ?r" "tw_job_id ?r = job_id"
    using stored_row 2 by blast+
  show ?case
  proof (cases "replace_result ?r now d")
    case (Inr d1)
    then have "db_results d1 = filter (\<lambda>(s, _). result_key s \<noteq> result_key ?r) (db_results d) @ [(?r, now)]"
      by (auto simp: replace_result_def split: if_splits)
    then have "filter (\<lambda>(s, _). tw_job_id s = job_id') (db_results d1) =
        filter (\<lambda>(s, _). tw_job_id s = job_id') (db_results d)"
      using "2.prems"(2) row(2) by (simp only: filter_other_results not_sym)
    with 2 Inr row show ?thesis by simp
  qed (simp add: row)
qed simp

lemma replace_target_outcomes_others:
  assumes "codecs_ok K" and "job_id' \<noteq> job_id"
  shows "target_outcomes K (fst (replace_target_outcomes K job_id ts now d)) job_id' = target_outcomes K d job_id'"
proof -
  have *: "filter (\<lambda>r. tw_job_id r = k) (map fst rows) = map fst (filter (\<lambda>(s, _). tw_job_id s = k) rows)"
    for k and rows :: "(target_row \<times> int) list"
    by (induction rows) auto
  have "filter (\<lambda>(s, _). tw_job_id s = job_id') (db_results (delete_results job_id d)) =
      filter (\<lambda>(s, _). tw_job_id s = job_id') (db_results d)"
    using assms(2) by (auto simp: delete_results_def intro!: filter_cong)
  then show ?thesis
    using insert_results_others [OF assms, of ts now "delete_results job_id d"]
    by (simp add: target_outcomes_def replace_target_outcomes_def *)
qed

text \<open>The rows of other jobs are not touched by the recovery of one.\<close>

lemma recover_job_jobs:
  assumes "codecs_ok K" and "recover_job P K now row d = (d', r)"
  shows "\<exists>f. db_jobs d' = db_jobs (update_job (jb_job_id (pj_view row)) f d) \<and> (\<forall>r. jw_job_id (f r) = jw_job_id r)
    \<and> (r = Inr () \<longrightarrow> (\<exists>s. s \<noteq> JsPublishing \<and> (\<forall>r. encode (cd_status K) s = Inr (jw_status (f r)))))"
    and "k \<noteq> jb_job_id (pj_view row) \<Longrightarrow> target_outcomes K d' k = target_outcomes K d k"
    and "db_snapshots d' = db_snapshots d"
proof -
  let ?id = "jb_job_id (pj_view row)"
  have np: "fst (recovered_status P v ts) \<noteq> JsPublishing" for v ts
    by (simp add: recovered_status_def delivery_status_def Let_def split: prod.split)
  have "(\<exists>e. d' = d \<and> r = Inl e) \<or>
      (\<exists>snaps n txt0. encode (cd_status K) (fst (recovered_status P (pj_view row) snaps)) = Inr txt0 \<and>
        (d', r) = replace_target_outcomes K ?id snaps now
          (update_job ?id (completed_row txt0 now (snd (recovered_status P (pj_view row) snaps)) n) d))"
    using assms(2) unfolding recover_job_def Let_def
    by (auto simp: result_eqs split: sum.splits dest!: sym [of "replace_target_outcomes _ _ _ _ _"])
  then consider (fail) e where "d' = d" "r = Inl e"
    | (ok) snaps n txt0 where "encode (cd_status K) (fst (recovered_status P (pj_view row) snaps)) = Inr txt0"
        "(d', r) = replace_target_outcomes K ?id snaps now
          (update_job ?id (completed_row txt0 now (snd (recovered_status P (pj_view row) snaps)) n) d)"
    by blast
  note cases = this
  show "\<exists>f. db_jobs d' = db_jobs (update_job ?id f d) \<and> (\<forall>r. jw_job_id (f r) = jw_job_id r)
    \<and> (r = Inr () \<longrightarrow> (\<exists>s. s \<noteq> JsPublishing \<and> (\<forall>r. encode (cd_status K) s = Inr (jw_status (f r)))))"
  proof (cases rule: cases)
    case fail
    have "map (\<lambda>r. if jw_job_id r = ?id then id r else r) (db_jobs d) = db_jobs d"
      by (rule map_idI) simp
    with fail show ?thesis by (intro exI [of _ id]) (simp add: update_job_def)
  next
    case (ok snaps n txt0)
    let ?f = "completed_row txt0 now (snd (recovered_status P (pj_view row) snaps)) n"
    have "db_jobs d' = db_jobs (update_job ?id ?f d)"
      using ok(2) insert_results_jobs by (metis (no_types, lifting) delete_results_def fst_conv
          replace_target_outcomes_def database.select_convs(2) database.surjective database.update_convs(3))
    moreover have "jw_job_id (?f r) = jw_job_id r" "encode (cd_status K) (fst (recovered_status P (pj_view row) snaps)) = Inr (jw_status (?f r))" for r
      using ok(1) by (simp_all add: completed_row_def)
    ultimately show ?thesis using np by blast
  qed
  show "target_outcomes K d' k = target_outcomes K d k" if "k \<noteq> ?id"
  proof (cases rule: cases)
    case (ok snaps n txt0)
    let ?d1 = "update_job ?id (completed_row txt0 now (snd (recovered_status P (pj_view row) snaps)) n) d"
    have "target_outcomes K d' k = target_outcomes K ?d1 k"
      using replace_target_outcomes_others [OF assms(1) that] ok(2) by (metis fst_conv)
    then show ?thesis by (simp add: target_outcomes_def)
  qed simp
  show "db_snapshots d' = db_snapshots d"
  proof (cases rule: cases)
    case (ok snaps n txt0)
    then have "d' = fst (replace_target_outcomes K ?id snaps now
        (update_job ?id (completed_row txt0 now (snd (recovered_status P (pj_view row) snaps)) n) d))"
      by (metis fst_conv)
    then show ?thesis by (simp add: replace_target_outcomes_def insert_results_snapshots delete_results_def)
  qed simp
qed

lemma update_job_set:
  "r \<in> set (db_jobs (update_job k f d)) \<Longrightarrow> \<exists>r0 \<in> set (db_jobs d). r = (if jw_job_id r0 = k then f r0 else r0)"
  by (auto simp: update_job_def)

lemma recover_jobs_effect:
  assumes "codecs_ok K" and "recover_jobs P K now rows d = (d', Inr ())"
  shows "(\<forall>r \<in> set (db_jobs d').
      (jw_job_id r \<in> (\<lambda>row. jb_job_id (pj_view row)) ` set rows \<longrightarrow>
         (\<exists>s. s \<noteq> JsPublishing \<and> encode (cd_status K) s = Inr (jw_status r))) \<and>
      (jw_job_id r \<notin> (\<lambda>row. jb_job_id (pj_view row)) ` set rows \<longrightarrow> r \<in> set (db_jobs d))) \<and>
    (\<forall>k. k \<notin> (\<lambda>row. jb_job_id (pj_view row)) ` set rows \<longrightarrow> target_outcomes K d' k = target_outcomes K d k)"
  using assms
proof (induction P K now rows d rule: recover_jobs.induct)
  case (2 P K now row rows d)
  obtain d1 where d1: "recover_job P K now row d = (d1, Inr ())"
    and rest: "recover_jobs P K now rows d1 = (d', Inr ())"
    using "2.prems"(2) by (auto split: prod.splits sum.splits)
  note IH = "2.IH" [OF d1 [symmetric] refl "2.prems"(1) rest]
  let ?id = "jb_job_id (pj_view row)"
  obtain f s where f: "db_jobs d1 = db_jobs (update_job ?id f d)" "\<And>r. jw_job_id (f r) = jw_job_id r"
    and s: "s \<noteq> JsPublishing" "\<And>r. encode (cd_status K) s = Inr (jw_status (f r))"
    using recover_job_jobs(1) [OF "2.prems"(1) d1] by auto
  show ?case
  proof (intro conjI ballI allI impI)
    fix r
    assume r: "r \<in> set (db_jobs d')"
    let ?ids = "(\<lambda>row. jb_job_id (pj_view row)) ` set rows"
    have r1: "\<exists>r0 \<in> set (db_jobs d). r = (if jw_job_id r0 = ?id then f r0 else r0)" if "jw_job_id r \<notin> ?ids"
    proof -
      have "r \<in> set (db_jobs (update_job ?id f d))" using IH r that f(1) by simp
      then show ?thesis by (rule update_job_set)
    qed
    show "\<exists>s. s \<noteq> JsPublishing \<and> encode (cd_status K) s = Inr (jw_status r)"
      if "jw_job_id r \<in> (\<lambda>row. jb_job_id (pj_view row)) ` set (row # rows)"
    proof (cases "jw_job_id r \<in> ?ids")
      case False
      with that have "jw_job_id r = ?id" by simp
      from r1 [OF False] obtain r0 where r0: "r = (if jw_job_id r0 = ?id then f r0 else r0)" by blast
      with \<open>jw_job_id r = ?id\<close> f(2) have "r = f r0" by (auto split: if_splits)
      with s show ?thesis by blast
    qed (use IH r in blast)
    show "r \<in> set (db_jobs d)" if "jw_job_id r \<notin> (\<lambda>row. jb_job_id (pj_view row)) ` set (row # rows)"
    proof -
      from that have "jw_job_id r \<notin> ?ids" "jw_job_id r \<noteq> ?id" by simp_all
      with r1 obtain r0 where r0: "r0 \<in> set (db_jobs d)" "r = (if jw_job_id r0 = ?id then f r0 else r0)" by blast
      with \<open>jw_job_id r \<noteq> ?id\<close> f(2) have "jw_job_id r0 \<noteq> ?id" by (auto split: if_splits)
      with r0 show ?thesis by simp
    qed
  next
    fix k
    assume "k \<notin> (\<lambda>row. jb_job_id (pj_view row)) ` set (row # rows)"
    then show "target_outcomes K d' k = target_outcomes K d k"
      using IH recover_job_jobs(2) [OF "2.prems"(1) d1] by simp
  qed
qed simp

lemma recover_effect:
  assumes "codecs_ok K" and "recover_interrupted_publish_jobs P K now d = (d', Inr ())"
    and "encode (cd_status K) JsPublishing = Inr publishing"
  shows "\<forall>r \<in> set (db_jobs d'). jw_status r \<noteq> publishing"
    and "k \<notin> jw_job_id ` {r \<in> set (db_jobs d). jw_status r = publishing} \<Longrightarrow>
      target_outcomes K d' k = target_outcomes K d k"
    and "r \<in> set (db_jobs d') \<Longrightarrow> jw_job_id r \<notin> jw_job_id ` {r \<in> set (db_jobs d). jw_status r = publishing} \<Longrightarrow>
      r \<in> set (db_jobs d)"
proof -
  obtain rows where rows: "collect_results (job_from_row K) (filter (\<lambda>r. jw_status r = publishing) (db_jobs d)) = Inr rows"
    and rec: "recover_jobs P K now rows d = (d', Inr ())"
    using assms(2,3) by (auto simp: recover_interrupted_publish_jobs_def split: sum.splits)
  have l: "list_all2 (\<lambda>r row. jb_job_id (pj_view row) = jw_job_id r) (filter (\<lambda>r. jw_status r = publishing) (db_jobs d)) rows"
    using rows [unfolded collect_results_eq_Inr]
    by (rule list_all2_mono) (rule job_from_row_columns(3))
  then have "map (\<lambda>row. jb_job_id (pj_view row)) rows = map jw_job_id (filter (\<lambda>r. jw_status r = publishing) (db_jobs d))"
    by (induction rule: list_all2_induct) auto
  then have "set (map (\<lambda>row. jb_job_id (pj_view row)) rows) =
      set (map jw_job_id (filter (\<lambda>r. jw_status r = publishing) (db_jobs d)))"
    by (rule arg_cong)
  then have ids: "(\<lambda>row. jb_job_id (pj_view row)) ` set rows = jw_job_id ` {r \<in> set (db_jobs d). jw_status r = publishing}"
    by simp
  note eff = recover_jobs_effect [OF assms(1) rec, unfolded ids]
  show "\<forall>r \<in> set (db_jobs d'). jw_status r \<noteq> publishing"
  proof
    fix r
    assume r: "r \<in> set (db_jobs d')"
    show "jw_status r \<noteq> publishing"
    proof (cases "jw_job_id r \<in> jw_job_id ` {r \<in> set (db_jobs d). jw_status r = publishing}")
      case True
      with eff r obtain s where "s \<noteq> JsPublishing" "encode (cd_status K) s = Inr (jw_status r)" by blast
      then show ?thesis using encode_inject [OF codecs_okD(5) [OF assms(1)]] assms(3) by blast
    next
      case False
      with eff r show ?thesis by blast
    qed
  qed
  show "k \<notin> jw_job_id ` {r \<in> set (db_jobs d). jw_status r = publishing} \<Longrightarrow>
      target_outcomes K d' k = target_outcomes K d k"
    using eff by blast
  show "r \<in> set (db_jobs d') \<Longrightarrow> jw_job_id r \<notin> jw_job_id ` {r \<in> set (db_jobs d). jw_status r = publishing} \<Longrightarrow>
      r \<in> set (db_jobs d)"
    using eff by blast
qed

end
