(* ===== verification/Store_Properties.thy ===== *)
theory Store_Properties
  imports Publish_Store "HOL-Library.Countable"
begin

text \<open>
  The properties of the publish store: its constraints hold in every reachable state, requests are
  idempotent, what is written is read back, recovery leaves no job behind, and clients see only the
  jobs and principals they may.
\<close>

section \<open>A codec for concrete runs\<close>

instance job_status :: countable by countable_datatype
instance outcome_kind :: countable by countable_datatype
instance target_source :: countable by countable_datatype
instance nostr_target_source_policy :: countable by countable_datatype
instance target_policy_name :: countable by countable_datatype
instance delivery_policy :: countable by countable_datatype

instance publish_target_ext :: (countable) countable
proof (rule countable_classI)
  fix r s :: "'a publish_target_scheme"
  assume "to_nat (pt_transport_kind r, pt_endpoint_uri r, pt_target_scope r, pt_target_label r, publish_target.more r) =
    to_nat (pt_transport_kind s, pt_endpoint_uri s, pt_target_scope s, pt_target_label s, publish_target.more s)"
  then show "r = s" by (simp add: publish_target.equality)
qed

instance target_policy :: countable by countable_datatype

instance event_request_ext :: (countable) countable
proof (rule countable_classI)
  fix r s :: "'a event_request_scheme"
  assume "to_nat (er_raw_event_json r, er_target_policy r, er_delivery_policy r, er_idempotency_key r, er_timeout_ms r, event_request.more r) =
    to_nat (er_raw_event_json s, er_target_policy s, er_delivery_policy s, er_idempotency_key s, er_timeout_ms s, event_request.more s)"
  then show "r = s" by (simp add: event_request.equality)
qed

definition unary_codec :: "'a :: countable codec" where
  "unary_codec = \<lparr>to_json = (\<lambda>x. Inr (replicate (to_nat x) CHR ''1'')), from_json = (\<lambda>s. Inr (from_nat (length s)))\<rparr>"

lemma unary_codec_ok: "codec_ok unary_codec"
  by (simp add: codec_ok_def unary_codec_def)

definition sample_codecs :: codecs where
  "sample_codecs =
     \<lparr>cd_strings = unary_codec, cd_kinds = unary_codec, cd_policy_names = unary_codec,
      cd_source_policies = unary_codec, cd_status = unary_codec, cd_target_policy = unary_codec,
      cd_delivery_policy = unary_codec, cd_source = unary_codec, cd_outcome_kind = unary_codec,
      cd_request = unary_codec\<rparr>"

lemma sample_codecs_ok: "codecs_ok sample_codecs"
  by (simp add: codecs_ok_def sample_codecs_def unary_codec_ok)

section \<open>Reachable databases\<close>

text \<open>The states of the database after any sequence of calls.  The two crash rules are the states
  a process leaves that dies between the statements of \<open>complete_publish_job\<close> or of the recovery,
  which are not in a transaction.\<close>

inductive reachable_db :: "publish_crates \<Rightarrow> codecs \<Rightarrow> database \<Rightarrow> bool" for P K where
  fresh: "reachable_db P K empty_database"
| create: "reachable_db P K d \<Longrightarrow> reachable_db P K (fst (create_principal P K pid now i d))"
| record_job: "reachable_db P K d \<Longrightarrow> reachable_db P K (fst (record_publish_job P K jid now ji d))"
| insert_late: "reachable_db P K d \<Longrightarrow> ji_effective_target_count ji = length (ji_target_snapshots ji) \<Longrightarrow>
    reachable_db P K (fst (insert_publish_job P K jid now ji d))"
| complete: "reachable_db P K d \<Longrightarrow> reachable_db P K (fst (complete_publish_job K now jid status ts e d))"
| crash_updated: "reachable_db P K d \<Longrightarrow> encode (cd_status K) status = Inr s \<Longrightarrow> 0 \<le> n \<Longrightarrow>
    reachable_db P K (update_job jid (completed_row s now e n) d)"
| crash_results: "reachable_db P K d \<Longrightarrow> encode (cd_status K) status = Inr s \<Longrightarrow> 0 \<le> n \<Longrightarrow>
    reachable_db P K (fst (replace_target_outcomes K jid (take k ts) now (update_job jid (completed_row s now e n) d)))"
| cache: "reachable_db P K d \<Longrightarrow> cache_author_write_relays K now pk relays d = Inr d' \<Longrightarrow> reachable_db P K d'"
| recover: "reachable_db P K d \<Longrightarrow> reachable_db P K (fst (recover_interrupted_publish_jobs P K now d))"

lemma empty_database_ok: "database_ok empty_database"
  by (simp add: database_ok_def empty_database_def)

lemma reachable_database_ok: "reachable_db P K d \<Longrightarrow> database_ok d"
proof (induction rule: reachable_db.induct)
  case (cache d now pk relays d')
  from cache.hyps(2) cache.IH show ?case by (rule cache_ok)
qed (simp_all add: empty_database_ok create_principal_ok record_publish_job_ok insert_publish_job_ok
    complete_publish_job_ok completed_row_ok replace_target_outcomes_ok recover_ok)

subsection \<open>Every row can be read\<close>

definition snapshots_of :: "database \<Rightarrow> string \<Rightarrow> (nat \<times> target_row \<times> int) list" where
  "snapshots_of d k = filter (\<lambda>(_, r, _). tw_job_id r = k) (db_snapshots d)"

definition readable_job :: "codecs \<Rightarrow> job_row \<Rightarrow> bool" where
  "readable_job K r \<longleftrightarrow> is_ok (job_from_row K r) \<and> (\<exists>status. encode (cd_status K) status = Inr (jw_status r))"

definition readable_db :: "codecs \<Rightarrow> database \<Rightarrow> bool" where
  "readable_db K d \<longleftrightarrow>
     (\<forall>r \<in> set (db_jobs d). readable_job K r) \<and>
     (\<forall>(_, r, _) \<in> set (db_snapshots d). is_ok (target_outcome_from_row K r)) \<and>
     (\<forall>k. int (length (snapshots_of d k)) \<le> i64_max)"

lemma is_ok_iff: "is_ok r \<longleftrightarrow> (\<exists>x. r = Inr x)"
  by (cases r) auto

lemma readable_frame:
  "db_jobs d' = db_jobs d \<Longrightarrow> db_snapshots d' = db_snapshots d \<Longrightarrow> readable_db K d' \<longleftrightarrow> readable_db K d"
  by (simp add: readable_db_def snapshots_of_def)

lemma job_row_of_readable:
  assumes "codecs_ok K" and "job_row_of K job_id now rj rc (int n) i = Inr row"
  shows "readable_job K row"
proof -
  note ok = codecs_okD [OF assms(1)]
  from assms(2) encode_json_text [OF ok(5)] encode_json_text [OF ok(6)] encode_json_text [OF ok(7)]
  show ?thesis
    using uint_lt2p [of "em_kind (ji_event i)"]
    by (auto simp: readable_job_def job_row_of_def job_from_row_def result_eqs checked_event_kind_column_def
        checked_usize_column_def)
qed

text \<open>The view of a job after its columns were updated.\<close>

definition completed_view :: "job_status \<Rightarrow> int \<Rightarrow> string option \<Rightarrow> nat \<Rightarrow> job \<Rightarrow> job" where
  "completed_view status now e n v =
     v\<lparr>jb_status := status, jb_completed_at_ms := Some now, jb_last_error := e, jb_target_count := n\<rparr>"

lemma completed_row_view:
  assumes "codecs_ok K" and "encode (cd_status K) status = Inr s" and "job_from_row K r = Inr p"
  shows "job_from_row K (completed_row s now e (int n) r) = Inr (p\<lparr>pj_view := completed_view status now e n (pj_view p)\<rparr>)"
  using assms(3) encode_json_text [OF codecs_okD(5) [OF assms(1)] assms(2)]
  by (auto simp: job_from_row_def completed_row_def completed_view_def result_eqs checked_usize_column_def)

lemma update_readable:
  assumes "codecs_ok K" and "encode (cd_status K) status = Inr s" and "0 \<le> n" and "readable_db K d"
  shows "readable_db K (update_job jid (completed_row s now e n) d)"
proof -
  have "readable_job K (completed_row s now e n r)" if "readable_job K r" for r
    using that completed_row_view [OF assms(1,2), where n = "nat n"] assms(2,3)
    by (auto simp: is_ok_iff readable_job_def completed_row_def)
  then show ?thesis using assms(4) by (auto simp: readable_db_def snapshots_of_def update_job_def)
qed

lemma replace_target_outcomes_frame:
  "db_jobs (fst (replace_target_outcomes K jid ts now d)) = db_jobs d"
  "db_snapshots (fst (replace_target_outcomes K jid ts now d)) = db_snapshots d"
  by (simp_all add: replace_target_outcomes_def insert_results_jobs insert_results_snapshots delete_results_def)

lemma replace_readable: "readable_db K (fst (replace_target_outcomes K jid ts now d)) \<longleftrightarrow> readable_db K d"
  by (rule readable_frame) (rule replace_target_outcomes_frame)+

lemma storage_count_eq: "storage_count_i64 n f = Inr m \<longleftrightarrow> int n \<le> i64_max \<and> m = int n"
  by (auto simp: storage_count_i64_def)

lemma complete_readable:
  assumes "codecs_ok K" and "readable_db K d"
  shows "readable_db K (fst (complete_publish_job K now jid status ts e d))"
proof (cases "int (length ts) \<le> i64_max")
  case True
  obtain s where "encode (cd_status K) status = Inr s" using encode_total [OF codecs_okD(5) [OF assms(1)]] by blast
  then show ?thesis
    using True assms by (simp add: complete_publish_job_def storage_count_i64_def replace_readable update_readable)
qed (use assms in \<open>simp add: complete_publish_job_def storage_count_i64_def\<close>)

lemma recover_job_readable:
  assumes "codecs_ok K" and "readable_db K d"
  shows "readable_db K (fst (recover_job P K now row d))"
proof -
  have "readable_db K (fst (replace_target_outcomes K k ts now (update_job k (completed_row s now e (int n)) d)))"
    if "encode (cd_status K) status = Inr s" for k ts s e n status
    using update_readable [OF assms(1) that _ assms(2)] by (simp add: replace_readable)
  then show ?thesis
    using assms(2) by (auto simp: recover_job_def Let_def result_eqs storage_count_eq split: sum.split)
qed

lemma recover_readable:
  assumes "codecs_ok K" and "readable_db K d"
  shows "readable_db K (fst (recover_interrupted_publish_jobs P K now d))"
proof -
  have "readable_db K (fst (recover_jobs P K now rows d))" if "readable_db K d" for rows d
    using that
  proof (induction rows arbitrary: d)
    case (Cons row rows)
    then show ?case using recover_job_readable [OF assms(1) Cons.prems, of P now row]
      by (auto split: prod.split sum.split)
  qed simp
  then show ?thesis using assms(2) by (simp add: recover_interrupted_publish_jobs_def split: sum.split)
qed

lemma insert_snapshots_count:
  assumes "insert_target_snapshots K jid i ts now d = Inr d'" and "codecs_ok K"
  shows "snapshots_of d' k = (if k = jid then snapshots_of d k @ drop (length (db_snapshots d)) (db_snapshots d') else snapshots_of d k)"
    and "length (db_snapshots d') = length (db_snapshots d) + length ts"
    and "db_jobs d' = db_jobs d"
    and "\<forall>(_, r, _) \<in> set (drop (length (db_snapshots d)) (db_snapshots d')). is_ok (target_outcome_from_row K r)"
proof -
  obtain rows where rows: "list_all2 (\<lambda>t r. target_row_of K jid t = Inr r) ts rows"
    and d': "d' = d\<lparr>db_snapshots := db_snapshots d @ map (\<lambda>(j, r). (j, r, now)) (List.enumerate i rows)\<rparr>"
    using insert_target_snapshots_effect [OF assms(1)] by blast
  have each: "tw_job_id r = jid \<and> is_ok (target_outcome_from_row K r)" if "r \<in> set rows" for r
  proof -
    obtain n where n: "n < length rows" "r = rows ! n" using \<open>r \<in> set rows\<close> by (metis in_set_conv_nth)
    with rows have "target_row_of K jid (ts ! n) = Inr r" by (simp add: list_all2_conv_all_nth)
    then show ?thesis using target_row_roundtrip(1,2) [OF assms(2)] by (simp add: is_ok_iff)
  qed
  have new: "r \<in> set rows" if "(j, r, n) \<in> set (map (\<lambda>(j, r). (j, r, now)) (List.enumerate i rows))" for j r n
    using that by (auto dest: set_zip_rightD simp: enumerate_eq_zip)
  have "filter (\<lambda>(_, r, _). tw_job_id r = k) (map (\<lambda>(j, r). (j, r, now)) (List.enumerate i rows)) =
      (if k = jid then map (\<lambda>(j, r). (j, r, now)) (List.enumerate i rows) else [])"
    using new each by (fastforce simp: filter_empty_conv filter_id_conv)
  then show "snapshots_of d' k = (if k = jid then snapshots_of d k @ drop (length (db_snapshots d)) (db_snapshots d') else snapshots_of d k)"
    by (simp add: snapshots_of_def d')
  show "length (db_snapshots d') = length (db_snapshots d) + length ts" "db_jobs d' = db_jobs d"
    using list_all2_lengthD [OF rows] by (simp_all add: d')
  show "\<forall>(_, r, _) \<in> set (drop (length (db_snapshots d)) (db_snapshots d')). is_ok (target_outcome_from_row K r)"
    using new each by (fastforce simp: d')
qed

lemma no_snapshots_without_job:
  assumes "database_ok d" and "k \<notin> jw_job_id ` set (db_jobs d)"
  shows "snapshots_of d k = []"
  using assms by (force simp: database_ok_def snapshots_of_def filter_empty_conv)

lemma insert_readable:
  assumes "codecs_ok K" and "database_ok d" and "readable_db K d"
    and "ji_effective_target_count i = length (ji_target_snapshots i)"
  shows "readable_db K (fst (insert_publish_job P K jid now i d))"
proof -
  have "readable_db K d'" if t: "record_transaction K jid now rj rc (int (ji_effective_target_count i)) i d = Inr d'"
    and n: "int (ji_effective_target_count i) \<le> i64_max" for rj rc d'
  proof -
    from t obtain row d1 where row: "job_row_of K jid now rj rc (int (ji_effective_target_count i)) i = Inr row"
      and d1: "insert_job row d = Inr d1"
      and d': "insert_target_snapshots K jid 0 (ji_target_snapshots i) now d1 = Inr d'"
      by (rule record_transactionE)
    note snaps = insert_snapshots_count [OF d' assms(1)]
    have frame: "db_snapshots d1 = db_snapshots d" "db_jobs d1 = db_jobs d @ [row]"
      using d1 by (auto simp: insert_job_def split: if_splits)
    have old: "snapshots_of d1 = snapshots_of d" by (rule ext) (simp add: snapshots_of_def frame)
    have "snapshots_of d jid = []"
      using jobs.ins_fresh [OF d1] job_row_of_columns(1) [OF row] no_snapshots_without_job [OF assms(2)] by simp
    then have "int (length (snapshots_of d' k)) \<le> i64_max" for k
      using assms(3,4) n snaps(1) [of k] snaps(2) by (auto simp: old frame readable_db_def)
    moreover have "set (db_snapshots d') = set (db_snapshots d) \<union> set (drop (length (db_snapshots d1)) (db_snapshots d'))"
    proof -
      have "take (length (db_snapshots d1)) (db_snapshots d') = db_snapshots d1"
        using insert_target_snapshots_effect [OF d'] by auto
      then show ?thesis by (metis append_take_drop_id set_append frame(1))
    qed
    ultimately show ?thesis
      using assms(3) snaps(3,4) job_row_of_readable [OF assms(1) row] by (auto simp: readable_db_def frame)
  qed
  then show ?thesis
    using assms(3) by (auto simp: insert_publish_job_def result_eqs storage_count_eq split: sum.split)
qed

lemma record_readable:
  assumes "codecs_ok K" and "database_ok d" and "readable_db K d"
  shows "readable_db K (fst (record_publish_job P K jid now i d))"
  using assms(3) insert_readable [OF assms] by (simp add: record_publish_job_def split: sum.split option.split)

lemma create_principal_frame:
  "db_jobs (fst (create_principal P K pid now i d)) = db_jobs d"
  "db_snapshots (fst (create_principal P K pid now i d)) = db_snapshots d"
  by (auto simp: create_principal_def insert_principal_def result_eqs split: sum.split if_splits)

lemma reachable_readable:
  assumes "reachable_db P K d" and "codecs_ok K"
  shows "readable_db K d"
  using assms
proof (induction rule: reachable_db.induct)
  case fresh
  then show ?case by (simp add: readable_db_def empty_database_def snapshots_of_def i64_max_def)
next
  case (create d pid now i)
  then show ?case using readable_frame [OF create_principal_frame] by blast
next
  case (record_job d jid now ji)
  then show ?case using record_readable reachable_database_ok by blast
next
  case (insert_late d ji jid now)
  then show ?case using insert_readable reachable_database_ok by blast
next
  case (crash_results d status s n jid k ts now e)
  then show ?case by (simp add: replace_readable update_readable)
next
  case (cache d now pk relays d')
  then have "db_jobs d' = db_jobs d" "db_snapshots d' = db_snapshots d"
    by (auto simp: cache_author_write_relays_def upsert_cache_def result_eqs)
  with cache show ?case using readable_frame by blast
qed (simp_all add: complete_readable update_readable recover_readable)

section \<open>Reading jobs\<close>

lemma find_update_job:
  assumes "\<And>r. jw_job_id (f r) = jw_job_id r"
  shows "find (\<lambda>r. jw_job_id r = k) (db_jobs (update_job jid f d)) =
    map_option (\<lambda>r. if jw_job_id r = jid then f r else r) (find (\<lambda>r. jw_job_id r = k) (db_jobs d))"
proof -
  have "find (\<lambda>r. jw_job_id r = k) (map (\<lambda>r. if jw_job_id r = jid then f r else r) rows) =
    map_option (\<lambda>r. if jw_job_id r = jid then f r else r) (find (\<lambda>r. jw_job_id r = k) rows)" for rows
    by (induction rows) (auto simp: assms)
  then show ?thesis by (simp add: update_job_def)
qed

lemma find_update_job_other:
  assumes "\<And>r. jw_job_id (f r) = jw_job_id r" and "k \<noteq> jid"
  shows "find (\<lambda>r. jw_job_id r = k) (db_jobs (update_job jid f d)) = find (\<lambda>r. jw_job_id r = k) (db_jobs d)"
proof -
  have "jw_job_id r = k" if "find (\<lambda>r. jw_job_id r = k) (db_jobs d) = Some r" for r
    using that by (auto simp: find_Some_iff)
  then show ?thesis
    using assms(2) by (cases "find (\<lambda>r. jw_job_id r = k) (db_jobs d)") (simp_all add: find_update_job assms(1))
qed

lemma job_by_id_frame:
  assumes "find (\<lambda>r. jw_job_id r = k) (db_jobs d') = find (\<lambda>r. jw_job_id r = k) (db_jobs d)"
    and "target_outcomes K d' k = target_outcomes K d k"
  shows "job_by_id P K d' k = job_by_id P K d k"
proof (cases "find (\<lambda>r. jw_job_id r = k) (db_jobs d)")
  case (Some r)
  then have "jw_job_id r = k" by (auto simp: find_Some_iff)
  then have "finalize_job_row_for_egress P K d' p = finalize_job_row_for_egress P K d p"
    if "job_from_row K r = Inr p" for p
    using job_from_row_columns(3) [OF that] assms(2) by (simp add: finalize_job_row_for_egress_def)
  then show ?thesis using Some assms(1) by (cases "job_from_row K r") (simp_all add: job_by_id_def)
qed (use assms(1) in \<open>simp add: job_by_id_def\<close>)

lemma job_by_idE:
  assumes "job_by_id P K d k = Inr v"
  obtains r p targets where "find (\<lambda>r. jw_job_id r = k) (db_jobs d) = Some r" "job_from_row K r = Inr p"
    "target_outcomes K d k = Inr targets" "v = finalize_job_view P ((pj_view p)\<lparr>jb_targets := targets\<rparr>)"
proof (cases "find (\<lambda>r. jw_job_id r = k) (db_jobs d)")
  case (Some r)
  then have "jw_job_id r = k" by (auto simp: find_Some_iff)
  then show thesis
    using assms Some that job_from_row_columns(3) [of K r]
    by (cases "job_from_row K r") (auto simp: job_by_id_def finalize_job_row_for_egress_def Let_def result_eqs)
qed (use assms in \<open>simp add: job_by_id_def\<close>)

lemma find_distinct:
  assumes "distinct (map key rows)" and "r \<in> set rows"
  shows "find (\<lambda>s. key s = key r) rows = Some r"
  using assms by (induction rows) (auto simp: image_iff)

section \<open>Properties\<close>



text \<open>Publishing is idempotent: after a request with an idempotency key was recorded, a repeated
  request of the same principal with that key gets the recorded job back, marked as a duplicate,
  and changes nothing when its fingerprint is the same, and is refused as a conflict, changing
  nothing, when its fingerprint differs.\<close>

theorem publish_idempotent:
  assumes "record_publish_job P K job_id now i d = (d', Inr r)" and "ji_idempotency_key i = Some key"
    and "ji_idempotency_key i' = Some key" and "ji_principal_id i' = ji_principal_id i"
    and "ji_effective_target_count i' = length (ji_target_snapshots i')"
  shows "record_publish_job P K job_id' now' i' d' =
    (d', if ji_request_fingerprint i' = ji_request_fingerprint i
         then Inr \<lparr>rs_deduplicated = True, rs_job = rs_job r\<rparr>
         else Inl (TpIdempotencyConflict key))"
proof -
  obtain row where row: "lookup_idempotent P K d' i = Inr (Some row)"
    "pj_request_fingerprint row = ji_request_fingerprint i" "pj_view row = rs_job r"
    using record_publish_job_found [OF assms(1,2)] by blast
  have "lookup_idempotent P K d' i' = lookup_idempotent P K d' i"
    by (simp add: lookup_idempotent_def assms(2-4))
  with row assms(3,5) show ?thesis by (simp add: record_publish_job_def)
qed

definition sample_insert :: job_insert where
  "sample_insert =
     \<lparr>ji_principal_id = ''p1'', ji_idempotency_key = Some ''k1'', ji_event = from_signed_event sample_signed,
      ji_request = sample_request, ji_request_fingerprint = ''f1'', ji_effective_target_count = 1,
      ji_target_snapshots = [sample_outcome ''wss://a'' OkConnectionFailed]\<rparr>"

definition sample_principal_row :: principal_row where
  "sample_principal_row =
     \<lparr>pw_principal_id = ''p1'', pw_label = ''app'', pw_token_hash = ''sha256:00'', pw_allowed_pubkeys_json = [],
      pw_allowed_kinds_json = [], pw_allowed_target_policies_json = [],
      pw_allowed_explicit_transport_kinds_json = [], pw_allowed_nostr_source_policies_json = [],
      pw_allow_request_targets = False, pw_job_visibility = ''own'', pw_expires_at_unix = None,
      pw_revoked_at_unix = None, pw_created_at_unix = 0\<rparr>"

definition sample_database :: database where
  "sample_database = empty_database\<lparr>db_principals := [sample_principal_row]\<rparr>"

lemma sample_codec [simp]:
  "to_json unary_codec x = Inr (replicate (to_nat x) CHR ''1'')"
  "from_json unary_codec s = Inr (from_nat (length s))"
  by (simp_all add: unary_codec_def)

lemma sample_recorded:
  "\<exists>d' (r :: event_response). record_publish_job sample_publish sample_codecs ''j1'' 5 sample_insert sample_database = (d', Inr r) \<and>
     rs_deduplicated r = False \<and> jb_job_id (rs_job r) = ''j1''"
  by (simp add: record_publish_job_def sample_insert_def sample_database_def empty_database_def
      lookup_idempotent_def job_for_principal_id_and_key_def insert_publish_job_def encode_def
      sample_codecs_def storage_count_i64_def i64_max_def record_transaction_def job_row_of_def
      insert_job_def sample_principal_row_def target_row_of_def insert_snapshot_def job_by_id_def
      job_from_row_def json_text_def checked_event_kind_column_def checked_usize_column_def
      finalize_job_row_for_egress_def target_outcomes_def finalize_job_view_def sample_publish_def
      sample_request_def from_signed_event_def sample_signed_def)

theorem publish_idempotent_witness:
  "\<exists>d' (r :: event_response). record_publish_job sample_publish sample_codecs ''j2'' 9 sample_insert d' =
     (d', Inr \<lparr>rs_deduplicated = True, rs_job = rs_job r\<rparr>) \<and> jb_job_id (rs_job r) = ''j1''"
proof -
  obtain d' r where *: "record_publish_job sample_publish sample_codecs ''j1'' 5 sample_insert sample_database = (d', Inr r)"
    "jb_job_id (rs_job r) = ''j1''"
    using sample_recorded by blast
  have "record_publish_job sample_publish sample_codecs ''j2'' 9 sample_insert d' =
      (d', Inr \<lparr>rs_deduplicated = True, rs_job = rs_job r\<rparr>)"
    using publish_idempotent [OF *(1), of "''k1''" sample_insert "''j2''" 9] by (simp add: sample_insert_def)
  with *(2) show ?thesis by (intro exI conjI)
qed

text \<open>Two requests with the same key that both passed the check before either was inserted do
  not both publish: once one is inserted, inserting the other is refused as a conflict and the
  database is unchanged, even when the requests are the same.\<close>

theorem concurrent_duplicate_refused:
  assumes "insert_publish_job P K job_id now i d = (d', Inr r)" and "codecs_ok K"
    and "ji_idempotency_key i = Some key" and "ji_idempotency_key i' = Some key"
    and "ji_principal_id i' = ji_principal_id i"
    and "int (pc_request_target_count P (er_target_policy (ji_request i'))) \<le> i64_max"
    and "int (ji_effective_target_count i') \<le> i64_max"
  shows "insert_publish_job P K job_id' now' i' d' =
    (d', Inl (TpIdempotencyConflict ''idempotency key conflicts with an existing publish job''))"
proof -
  obtain rj rc ec where t: "record_transaction K job_id now rj rc ec i d = Inr d'"
    using assms(1) by (auto simp: insert_publish_job_def result_eqs split: sum.splits)
  then obtain row d1 where row: "job_row_of K job_id now rj rc ec i = Inr row"
    and d1: "insert_job row d = Inr d1"
    and d': "insert_target_snapshots K job_id 0 (ji_target_snapshots i) now d1 = Inr d'"
    by (rule record_transactionE)
  have "row \<in> set (db_jobs d')"
    using insert_target_snapshots_effect [OF d'] jobs.ins_rows [OF d1] by auto
  moreover have "same_idempotency row' row" if "job_row_of K job_id' now' rj' rc' ec' i' = Inr row'"
    for row' rj' rc' ec'
    using job_row_of_columns [OF that] job_row_of_columns [OF row] assms(3-5)
    by (simp add: same_idempotency_def)
  ultimately have conflict: "\<exists>e. insert_job row' d' = Inl e \<and> is_sqlite_constraint_error e"
    if "job_row_of K job_id' now' rj' rc' ec' i' = Inr row'" for row' rj' rc' ec'
    using that by (auto simp: insert_job_def list_ex_iff primary_key_violation_def unique_violation_def)
  obtain status tp dp rj2 where enc: "encode (cd_status K) JsPublishing = Inr status"
    "encode (cd_target_policy K) (er_target_policy (ji_request i')) = Inr tp"
    "encode (cd_delivery_policy K) (er_delivery_policy (ji_request i')) = Inr dp"
    "encode (cd_request K) (ji_request i') = Inr rj2"
    using encode_total codecs_okD [OF assms(2)] by metis
  then obtain row' where row': "job_row_of K job_id' now' rj2 (int (pc_request_target_count P (er_target_policy (ji_request i'))))
      (int (ji_effective_target_count i')) i' = Inr row'"
    by (simp add: job_row_of_def)
  with conflict obtain e where "insert_job row' d' = Inl e" "is_sqlite_constraint_error e" by blast
  with row' enc show ?thesis
    using assms(6,7) by (simp add: insert_publish_job_def record_transaction_def storage_count_i64_def)
qed

theorem concurrent_duplicate_refused_witness:
  "\<exists>d' r. insert_publish_job sample_publish sample_codecs ''j1'' 5 sample_insert sample_database = (d', Inr r) \<and>
     insert_publish_job sample_publish sample_codecs ''j2'' 5 sample_insert d' =
       (d', Inl (TpIdempotencyConflict ''idempotency key conflicts with an existing publish job''))"
proof -
  obtain d' r where "record_publish_job sample_publish sample_codecs ''j1'' 5 sample_insert sample_database = (d', Inr r)"
    using sample_recorded by blast
  then have *: "insert_publish_job sample_publish sample_codecs ''j1'' 5 sample_insert sample_database = (d', Inr r)"
    by (simp add: record_publish_job_def sample_insert_def lookup_idempotent_def
        job_for_principal_id_and_key_def sample_database_def empty_database_def)
  have "insert_publish_job sample_publish sample_codecs ''j2'' 5 sample_insert d' =
       (d', Inl (TpIdempotencyConflict ''idempotency key conflicts with an existing publish job''))"
    using sample_codecs_ok
    by (intro concurrent_duplicate_refused [OF *, of "''k1''"])
      (simp_all add: sample_insert_def sample_request_def sample_publish_def i64_max_def)
  with * show ?thesis by blast
qed

section \<open>Completing\<close>

lemma completed_outcomes_effect:
  assumes "codecs_ok K" and "job_by_id P K d jid = Inr before"
    and "distinct (map outcome_key ts)" and "list_all storable ts" and "encode (cd_status K) status = Inr s"
  shows "\<exists>d'. replace_target_outcomes K jid ts now (update_job jid (completed_row s now e (int n)) d) = (d', Inr ()) \<and>
    (let v = finalize_job_view P ((completed_view status now e n before)\<lparr>jb_targets := sort_key outcome_key ts\<rparr>)
     in job_by_id P K d' jid = map_ok (\<lambda>_. v) (map_err TpInvalidPublishJobState (pc_validate_job P v))) \<and>
    (\<forall>k. k \<noteq> jid \<longrightarrow> job_by_id P K d' k = job_by_id P K d k)"
proof -
  obtain r p targets where r: "find (\<lambda>r. jw_job_id r = jid) (db_jobs d) = Some r"
    and p: "job_from_row K r = Inr p"
    and before: "before = finalize_job_view P ((pj_view p)\<lparr>jb_targets := targets\<rparr>)"
    using job_by_idE [OF assms(2)] by metis
  let ?f = "completed_row s now e (int n)"
  let ?d1 = "update_job jid ?f d"
  have "r \<in> set (db_jobs d)" "jw_job_id r = jid" using r by (auto simp: find_Some_iff)
  have keep: "jw_job_id (?f r) = jw_job_id r" for r by (simp add: completed_row_def)
  have "jid \<in> jw_job_id ` set (db_jobs ?d1)"
    using update_job_ids [of ?f jid d, OF keep] \<open>r \<in> _\<close> \<open>jw_job_id r = jid\<close> by (metis image_eqI list.set_map)
  note eff = replace_target_outcomes_effect [OF assms(1) this assms(3), of now]
  let ?d' = "fst (replace_target_outcomes K jid ts now ?d1)"
  have run: "replace_target_outcomes K jid ts now ?d1 = (?d', Inr ())" by (simp add: eff)
  have targets: "target_outcomes K ?d' jid = Inr (sort_key outcome_key ts)"
  proof -
    have "target_outcomes K ?d' jid = Inr (map stored_form (sort_key outcome_key ts))"
      by (rule target_outcomes_stored [OF assms(1)]) (auto simp: eff)
    moreover have "map stored_form (sort_key outcome_key ts) = sort_key outcome_key ts"
      using assms(4) by (intro map_idI) (simp add: list_all_iff stored_form_storable)
    ultimately show ?thesis by simp
  qed
  have "job_from_row K (?f r) = Inr (p\<lparr>pj_view := completed_view status now e n (pj_view p)\<rparr>)"
    by (rule completed_row_view [OF assms(1,5) p])
  moreover have "jb_job_id (completed_view status now e n (pj_view p)) = jid"
    using job_from_row_columns(3) [OF p] \<open>jw_job_id r = jid\<close> by (simp add: completed_view_def)
  moreover have "find (\<lambda>r. jw_job_id r = jid) (db_jobs ?d') = Some (?f r)"
    by (simp add: replace_target_outcomes_frame find_update_job keep r \<open>jw_job_id r = jid\<close>)
  moreover define v where "v = finalize_job_view P ((completed_view status now e n before)\<lparr>jb_targets := sort_key outcome_key ts\<rparr>)"
  moreover have "finalize_job_view P ((completed_view status now e n (pj_view p))\<lparr>jb_targets := sort_key outcome_key ts\<rparr>) = v"
    by (simp add: v_def before finalize_job_view_def completed_view_def)
  ultimately have "job_by_id P K ?d' jid = map_ok (\<lambda>_. v) (map_err TpInvalidPublishJobState (pc_validate_job P v))"
    by (simp add: job_by_id_def finalize_job_row_for_egress_def targets Let_def)
      (cases "pc_validate_job P v"; simp)
  moreover have "job_by_id P K ?d' k = job_by_id P K d k" if "k \<noteq> jid" for k
  proof (rule job_by_id_frame)
    show "find (\<lambda>r. jw_job_id r = k) (db_jobs ?d') = find (\<lambda>r. jw_job_id r = k) (db_jobs d)"
      using that find_update_job_other [OF keep that] by (simp add: replace_target_outcomes_frame)
    show "target_outcomes K ?d' k = target_outcomes K d k"
      using replace_target_outcomes_others [OF assms(1) that, of ts now ?d1] by (simp add: target_outcomes_def)
  qed
  ultimately show ?thesis using run by (intro exI [of _ ?d']) (simp add: v_def)
qed

lemma complete_publish_job_effect:
  assumes "codecs_ok K" and "job_by_id P K d jid = Inr before"
    and "distinct (map outcome_key ts)" and "list_all storable ts" and "int (length ts) \<le> i64_max"
  shows "\<exists>d'. complete_publish_job K now jid status ts e d = (d', Inr ()) \<and>
    (let v = finalize_job_view P ((completed_view status now e (length ts) before)\<lparr>jb_targets := sort_key outcome_key ts\<rparr>)
     in job_by_id P K d' jid = map_ok (\<lambda>_. v) (map_err TpInvalidPublishJobState (pc_validate_job P v))) \<and>
    (\<forall>k. k \<noteq> jid \<longrightarrow> job_by_id P K d' k = job_by_id P K d k)"
proof -
  obtain s where s: "encode (cd_status K) status = Inr s" using encode_total [OF codecs_okD(5) [OF assms(1)]] by blast
  then have "complete_publish_job K now jid status ts e d =
      replace_target_outcomes K jid ts now (update_job jid (completed_row s now e (int (length ts))) d)"
    using assms(5) by (simp add: complete_publish_job_def storage_count_i64_def)
  with completed_outcomes_effect [OF assms(1-4) s, of now e "length ts"] show ?thesis by simp
qed



section \<open>Recovering\<close>

lemma collect_results_total:
  "\<forall>x \<in> set xs. is_ok (f x) \<Longrightarrow> \<exists>ys. collect_results f xs = Inr ys \<and> length ys = length xs"
  by (induction xs) (auto simp: is_ok_iff)

lemma collect_results_member:
  assumes "y \<in> set ys" and "collect_results f xs = Inr ys"
  obtains x where "x \<in> set xs" "f x = Inr y"
proof -
  have "\<exists>x \<in> set xs. f x = Inr y"
    using assms by (induction xs arbitrary: ys) (fastforce simp: and_then_eq_Inr)+
  then show thesis using that by blast
qed

lemma recover_job_total:
  assumes "codecs_ok K" and "readable_db K d" and "jb_job_id (pj_view row) \<in> jw_job_id ` set (db_jobs d)"
  shows "snd (recover_job P K now row d) = Inr ()"
proof -
  let ?id = "jb_job_id (pj_view row)"
  have sub: "set (snapshots_of d ?id) \<subseteq> set (db_snapshots d)" by (auto simp: snapshots_of_def)
  then have "\<forall>r \<in> set (map (\<lambda>(_, r, _). r) (sort_key fst (snapshots_of d ?id))). is_ok (target_outcome_from_row K r)"
    using assms(2) by (auto simp: readable_db_def)
  from collect_results_total [OF this] obtain ts where ts: "target_snapshot_outcomes K d ?id = Inr ts"
    "int (length ts) \<le> i64_max"
    using assms(2) by (auto simp: target_snapshot_outcomes_def snapshots_of_def readable_db_def)
  obtain s where s: "encode (cd_status K) (fst (recovered_status P (pj_view row) ts)) = Inr s"
    using encode_total [OF codecs_okD(5) [OF assms(1)]] by blast
  let ?f = "completed_row s now (snd (recovered_status P (pj_view row) ts)) (int (length ts))"
  have "?id \<in> jw_job_id ` set (db_jobs (delete_results ?id (update_job ?id ?f d)))"
    using assms(3) arg_cong [OF update_job_ids [of ?f ?id d], of set] by (simp add: delete_results_def completed_row_def)
  then show ?thesis
    using ts s insert_results_total [OF assms(1)]
    by (simp add: recover_job_def Let_def storage_count_i64_def replace_target_outcomes_def)
qed

lemma recover_job_ids:
  assumes "codecs_ok K"
  shows "jw_job_id ` set (db_jobs (fst (recover_job P K now row d))) = jw_job_id ` set (db_jobs d)"
proof -
  obtain f where "db_jobs (fst (recover_job P K now row d)) = db_jobs (update_job (jb_job_id (pj_view row)) f d)"
    "\<forall>r. jw_job_id (f r) = jw_job_id r"
    using recover_job_jobs(1) [OF assms, of P now row d "fst (recover_job P K now row d)" "snd (recover_job P K now row d)"]
    by auto
  then show ?thesis using update_job_ids [of f _ d] by (metis list.set_map)
qed

lemma recover_ids:
  assumes "codecs_ok K" and "recover_interrupted_publish_jobs P K now d = (d', r)"
  shows "jw_job_id ` set (db_jobs d') = jw_job_id ` set (db_jobs d)"
proof -
  have "jw_job_id ` set (db_jobs (fst (recover_jobs P K now rows d))) = jw_job_id ` set (db_jobs d)" for rows d
  proof (induction rows arbitrary: d)
    case (Cons row rows)
    then show ?case using recover_job_ids [OF assms(1), of P now row d]
      by (cases "recover_job P K now row d"; cases "snd (recover_job P K now row d)") simp_all
  qed simp
  moreover have "d' = d \<or> (\<exists>rows. d' = fst (recover_jobs P K now rows d))"
    using arg_cong [OF assms(2), of fst] by (auto simp: recover_interrupted_publish_jobs_def split: sum.splits)
  ultimately show ?thesis by blast
qed

lemma recover_jobs_total:
  assumes "codecs_ok K" and "readable_db K d"
    and "(\<lambda>row. jb_job_id (pj_view row)) ` set rows \<subseteq> jw_job_id ` set (db_jobs d)"
  shows "snd (recover_jobs P K now rows d) = Inr ()"
  using assms(2,3)
proof (induction rows arbitrary: d)
  case (Cons row rows)
  obtain d1 where d1: "recover_job P K now row d = (d1, Inr ())"
    using recover_job_total [OF assms(1) Cons.prems(1), of row P now] Cons.prems(2) by (metis (no_types) image_subset_iff list.set_intros(1) prod.collapse)
  have "readable_db K d1" "jw_job_id ` set (db_jobs d1) = jw_job_id ` set (db_jobs d)"
    using recover_job_readable [OF assms(1) Cons.prems(1), of P now row] recover_job_ids [OF assms(1), of P now row d] d1 by simp_all
  with Cons.IH [of d1] Cons.prems(2) d1 show ?case by simp
qed simp

lemma recover_total:
  assumes "codecs_ok K" and "readable_db K d"
  shows "snd (recover_interrupted_publish_jobs P K now d) = Inr ()"
proof -
  obtain publishing where pub: "encode (cd_status K) JsPublishing = Inr publishing"
    using encode_total [OF codecs_okD(5) [OF assms(1)]] by blast
  let ?rows = "filter (\<lambda>r. jw_status r = publishing) (db_jobs d)"
  have "\<forall>r \<in> set ?rows. is_ok (job_from_row K r)" using assms(2) by (simp add: readable_db_def readable_job_def)
  then obtain rows where rows: "collect_results (job_from_row K) ?rows = Inr rows"
    using collect_results_total by blast
  have "(\<lambda>row. jb_job_id (pj_view row)) ` set rows \<subseteq> jw_job_id ` set (db_jobs d)"
  proof (rule image_subsetI)
    fix row
    assume "row \<in> set rows"
    then obtain r where "r \<in> set ?rows" "job_from_row K r = Inr row"
      using rows by (rule collect_results_member)
    then show "jb_job_id (pj_view row) \<in> jw_job_id ` set (db_jobs d)"
      using job_from_row_columns(3) [of K r row] by auto
  qed
  then show ?thesis
    using recover_jobs_total [OF assms] by (simp add: recover_interrupted_publish_jobs_def pub rows)
qed

lemma recovery_clears:
  assumes "reachable_db P K d" and "codecs_ok K"
  shows "\<exists>d'. recover_interrupted_publish_jobs P K now d = (d', Inr ()) \<and>
    (\<forall>k v. job_by_id P K d' k = Inr v \<longrightarrow> jb_status v \<noteq> JsPublishing) \<and>
    (\<forall>k v. job_by_id P K d k = Inr v \<longrightarrow> jb_status v \<noteq> JsPublishing \<longrightarrow> job_by_id P K d' k = Inr v)"
proof -
  obtain d' where rec: "recover_interrupted_publish_jobs P K now d = (d', Inr ())"
    using recover_total [OF assms(2) reachable_readable [OF assms]] by (metis prod.collapse)
  obtain publishing where pub: "encode (cd_status K) JsPublishing = Inr publishing"
    using encode_total [OF codecs_okD(5) [OF assms(2)]] by blast
  note eff = recover_effect [OF assms(2) rec pub]
  have ok: "database_ok d" "database_ok d'"
    using reachable_database_ok [OF assms(1)] recover_ok [of d P K now] rec by simp_all
  have status: "jb_status (pj_view p) = JsPublishing \<longleftrightarrow> jw_status r = publishing"
    if "r \<in> set (db_jobs d) \<or> r \<in> set (db_jobs d')" "job_from_row K r = Inr p" for r p
  proof -
    have "readable_job K r"
      using that(1) reachable_readable [OF assms] recover_readable [OF assms(2), of d P now] rec
      by (auto simp: readable_db_def)
    then obtain st where st: "encode (cd_status K) st = Inr (jw_status r)" by (auto simp: readable_job_def)
    then have "jb_status (pj_view p) = st"
      using that(2) encode_json_text [OF codecs_okD(5) [OF assms(2)] st] by (auto simp: job_from_row_def result_eqs)
    then show ?thesis using st pub encode_inject [OF codecs_okD(5) [OF assms(2)]] by (metis sum.inject(2))
  qed
  have read: "\<exists>r p. r \<in> set (db_jobs e) \<and> jw_job_id r = k \<and> job_from_row K r = Inr p \<and> jb_status v = jb_status (pj_view p)"
    if v: "job_by_id P K e k = Inr v" for e k v
  proof -
    obtain r p ts where "find (\<lambda>r. jw_job_id r = k) (db_jobs e) = Some r" "job_from_row K r = Inr p"
      "v = finalize_job_view P ((pj_view p)\<lparr>jb_targets := ts\<rparr>)"
      using job_by_idE [OF v] by metis
    moreover from this(1) have "r \<in> set (db_jobs e) \<and> jw_job_id r = k" by (auto simp: find_Some_iff)
    ultimately show ?thesis by (intro exI [of _ r] exI [of _ p]) (simp add: finalize_job_view_def)
  qed
  have "jb_status v \<noteq> JsPublishing" if "job_by_id P K d' k = Inr v" for k v
    using read [OF that] status eff(1) by metis
  moreover have "job_by_id P K d' k = Inr v" if v: "job_by_id P K d k = Inr v" "jb_status v \<noteq> JsPublishing" for k v
  proof -
    obtain r where r: "r \<in> set (db_jobs d)" "jw_job_id r = k" "jw_status r \<noteq> publishing"
      using read [OF v(1)] status v(2) by metis
    have not_pub: "k \<notin> jw_job_id ` {r \<in> set (db_jobs d). jw_status r = publishing}"
      using r ok(1) by (auto simp: database_ok_def distinct_map dest: inj_onD)
    have "r \<in> set (db_jobs d')"
    proof -
      have "k \<in> jw_job_id ` set (db_jobs d')" using recover_ids [OF assms(2) rec] r by auto
      then obtain r' where "r' \<in> set (db_jobs d')" "jw_job_id r' = k" by auto
      then have "r' \<in> set (db_jobs d)" using eff(3) not_pub by metis
      then have "r' = r" using \<open>jw_job_id r' = k\<close> r ok(1) by (auto simp: database_ok_def distinct_map dest: inj_onD)
      then show ?thesis using \<open>r' \<in> set (db_jobs d')\<close> by simp
    qed
    then have "find (\<lambda>r. jw_job_id r = k) (db_jobs d') = find (\<lambda>r. jw_job_id r = k) (db_jobs d)"
      using find_distinct [of jw_job_id] r(1,2) ok by (metis database_ok_def)
    then have "job_by_id P K d' k = job_by_id P K d k"
      by (rule job_by_id_frame) (rule eff(2) [OF not_pub])
    then show ?thesis using v(1) by simp
  qed
  ultimately show ?thesis using rec by blast
qed

text \<open>C12. The daemon recovers from any interruption: from every state a run can leave, crashes
  between statements included, the recovery at the next start succeeds; then no job reads as
  being published, and every job that was not being published reads as before.\<close>

theorem recovery_clears_publishing:
  assumes "reachable_db P K d" and "codecs_ok K"
  shows "\<exists>d'. recover_interrupted_publish_jobs P K now d = (d', Inr ()) \<and>
    (\<forall>k v. job_by_id P K d' k = Inr v \<longrightarrow> jb_status v \<noteq> JsPublishing) \<and>
    (\<forall>k v. job_by_id P K d k = Inr v \<longrightarrow> jb_status v \<noteq> JsPublishing \<longrightarrow> job_by_id P K d' k = Inr v)"
  by (rule recovery_clears [OF assms])

definition sample_init :: principal_init where
  "sample_init =
     \<lparr>pi_label = ''app'', pi_token_hash = ''sha256:00'', pi_allowed_pubkeys = [replicate 64 CHR ''a''],
      pi_allowed_kinds = [1], pi_allowed_target_policies = [PolicyNostr],
      pi_allowed_explicit_transport_kinds = [], pi_allowed_nostr_source_policies = [DaemonDefaultOnly],
      pi_allow_request_targets = True, pi_job_visibility = Own, pi_expires_at_unix = Some 100\<rparr>"

theorem recovery_clears_publishing_witness:
  "\<exists>d'. recover_interrupted_publish_jobs sample_publish sample_codecs 9
      (fst (record_publish_job sample_publish sample_codecs ''j1'' 5 sample_insert
        (fst (create_principal sample_publish sample_codecs ''p1'' 0 sample_init empty_database)))) = (d', Inr ())"
  using recovery_clears_publishing [OF reachable_db.record_job [OF reachable_db.create [OF reachable_db.fresh]]
      sample_codecs_ok] by blast

section \<open>Listing\<close>

lemma list_all2_member: "list_all2 Q xs ys \<Longrightarrow> y \<in> set ys \<Longrightarrow> \<exists>x \<in> set xs. Q x y"
  by (induction rule: list_all2_induct) auto

lemma sorted_wrt_rev_sort_key:
  "sorted_wrt (\<lambda>a b. f b \<le> f a) (rev (sort_key f xs))"
  unfolding sorted_wrt_rev using sorted_sort_key [of f xs] by (simp add: sorted_map)

definition shown_as :: "publish_crates \<Rightarrow> codecs \<Rightarrow> database \<Rightarrow> job_row \<Rightarrow> job \<Rightarrow> bool" where
  "shown_as P K d r j \<longleftrightarrow> (\<exists>row row'. job_from_row K r = Inr row \<and>
     finalize_job_row_for_egress P K d row = Inr row' \<and> j = pj_view row')"

lemma shown_as_columns:
  "shown_as P K d r j \<Longrightarrow> (jb_requested_at_ms j, jb_job_id j) = (jw_requested_at_ms r, jw_job_id r)"
  by (auto simp: shown_as_def job_from_row_def finalize_job_row_for_egress_def Let_def finalize_job_view_def result_eqs)

lemma shown_as_read:
  assumes "shown_as P K d r j" and "r \<in> set (db_jobs d)" and "database_ok d" and "can_read_job p (jw_principal_id r)"
  shows "job_by_id_for_principal P K d (jb_job_id j) p = Inr (Some j)"
proof -
  obtain row row' where row: "job_from_row K r = Inr row" "finalize_job_row_for_egress P K d row = Inr row'" "j = pj_view row'"
    using assms(1) by (auto simp: shown_as_def)
  have "find (\<lambda>s. jw_job_id s = jw_job_id r) (db_jobs d) = Some r"
    using assms(2,3) by (intro find_distinct) (simp_all add: database_ok_def)
  then show ?thesis
    using row assms(4) shown_as_columns [OF assms(1)] job_from_row_columns(2) [OF row(1)]
    by (simp add: job_by_id_for_principal_def)
qed

lemma list_jobs_rows:
  assumes "list_jobs_for_principal P K d p limit = Inr js"
  shows "list_all2 (shown_as P K d) (take (clamp 1 200 limit) (rev (sort_key (\<lambda>r. (jw_requested_at_ms r, jw_job_id r))
      (filter (\<lambda>r. can_read_job p (jw_principal_id r)) (db_jobs d))))) js"
proof -
  have "(if pp_job_visibility p = Admin then db_jobs d
      else filter (\<lambda>r. jw_principal_id r = pp_principal_id p) (db_jobs d)) =
    filter (\<lambda>r. can_read_job p (jw_principal_id r)) (db_jobs d)"
    by (auto simp: can_read_job_def intro!: filter_cong)
  then show ?thesis
    using assms unfolding list_jobs_for_principal_def Let_def collect_results_eq_Inr and_then_eq_Inr
    by (auto simp: list_all2_conv_all_nth shown_as_def map_ok_eq_Inr)
qed

text \<open>C29. The list of jobs a principal gets has at most 200 jobs and at most the limit it asked
  for (at least one), newest first, and each of them is a job it may read, shown exactly as
  reading it by its identifier shows it; a job that is missing from a list that is not full is
  one it may not read.\<close>

theorem listing_is_scoped:
  assumes "database_ok d" and "list_jobs_for_principal P K d p limit = Inr js"
  shows "length js \<le> 200 \<and> length js \<le> max 1 limit \<and>
    sorted_wrt (\<lambda>a b. (jb_requested_at_ms b, jb_job_id b) \<le> (jb_requested_at_ms a, jb_job_id a)) js \<and>
    (\<forall>j \<in> set js. job_by_id_for_principal P K d (jb_job_id j) p = Inr (Some j)) \<and>
    (length js < min 200 (max 1 limit) \<longrightarrow>
      (\<forall>r \<in> set (db_jobs d). can_read_job p (jw_principal_id r) \<longrightarrow> jw_job_id r \<in> jb_job_id ` set js))"
proof -
  let ?all = "rev (sort_key (\<lambda>r. (jw_requested_at_ms r, jw_job_id r))
      (filter (\<lambda>r. can_read_job p (jw_principal_id r)) (db_jobs d)))"
  let ?page = "take (clamp 1 200 limit) ?all"
  have rows: "list_all2 (shown_as P K d) ?page js" by (rule list_jobs_rows [OF assms(2)])
  have keys: "map (\<lambda>j. (jb_requested_at_ms j, jb_job_id j)) js = map (\<lambda>r. (jw_requested_at_ms r, jw_job_id r)) ?page"
    using rows by (induction rule: list_all2_induct) (simp_all add: shown_as_columns del: prod.inject)
  have len: "length js = min (length ?all) (clamp 1 200 limit)"
    using list_all2_lengthD [OF rows] by simp
  have "sorted_wrt (\<lambda>a b. b \<le> a) (map (\<lambda>r. (jw_requested_at_ms r, jw_job_id r)) ?page)"
    unfolding sorted_wrt_map by (rule sorted_wrt_take [OF sorted_wrt_rev_sort_key])
  then have "sorted_wrt (\<lambda>a b. (jb_requested_at_ms b, jb_job_id b) \<le> (jb_requested_at_ms a, jb_job_id a)) js"
    unfolding keys [symmetric] by (simp add: sorted_wrt_map)
  moreover have "job_by_id_for_principal P K d (jb_job_id j) p = Inr (Some j)" if "j \<in> set js" for j
  proof -
    obtain r where r: "r \<in> set ?page" "shown_as P K d r j"
      using list_all2_member [OF rows \<open>j \<in> set js\<close>] by blast
    have "set ?page \<subseteq> set (db_jobs d) \<inter> {r. can_read_job p (jw_principal_id r)}"
      by (rule order_trans [OF set_take_subset]) auto
    with r show ?thesis using shown_as_read [OF r(2) _ assms(1)] by blast
  qed
  moreover have "jw_job_id r \<in> jb_job_id ` set js"
    if "length js < min 200 (max 1 limit)" "r \<in> set (db_jobs d)" "can_read_job p (jw_principal_id r)" for r
  proof -
    have "length ?all \<le> clamp 1 200 limit" using that(1) len by (simp add: clamp_def min_def max_def split: if_splits)
    then have "?page = ?all" by simp
    then have "r \<in> set ?page" using that(2,3) by simp
    moreover have "map jb_job_id js = map jw_job_id ?page"
      using arg_cong [OF keys, of "map snd"] by (simp add: comp_def)
    ultimately have "jw_job_id r \<in> set (map jb_job_id js)" by simp
    then show ?thesis by simp
  qed
  moreover have "length js \<le> 200" "length js \<le> max 1 limit"
    unfolding len clamp_def by linarith+
  ultimately show ?thesis by blast
qed

definition sample_reader :: "string \<Rightarrow> principal" where
  "sample_reader pid = \<lparr>pp_principal_id = pid, pp_label = ''app'', pp_allowed_pubkeys = [], pp_allowed_kinds = [],
     pp_allowed_target_policies = [], pp_allowed_explicit_transport_kinds = [], pp_allowed_nostr_source_policies = [],
     pp_allow_request_targets = False, pp_job_visibility = Own, pp_expires_at_unix = None\<rparr>"

lemma sample_listed:
  "\<exists>j. list_jobs_for_principal sample_publish sample_codecs
     (fst (record_publish_job sample_publish sample_codecs ''j1'' 5 sample_insert sample_database))
     (sample_reader ''p1'') 10 = Inr [j] \<and> jb_job_id j = ''j1''"
  by (simp add: record_publish_job_def sample_insert_def sample_database_def empty_database_def
      lookup_idempotent_def job_for_principal_id_and_key_def insert_publish_job_def encode_def
      sample_codecs_def storage_count_i64_def i64_max_def record_transaction_def job_row_of_def
      insert_job_def sample_principal_row_def target_row_of_def insert_snapshot_def job_by_id_def
      job_from_row_def json_text_def checked_event_kind_column_def checked_usize_column_def
      finalize_job_row_for_egress_def target_outcomes_def finalize_job_view_def sample_publish_def
      sample_request_def from_signed_event_def sample_signed_def list_jobs_for_principal_def sample_reader_def
      clamp_def)

lemma sample_database_ok: "database_ok sample_database"
  by (simp add: database_ok_def sample_database_def empty_database_def)

theorem listing_is_scoped_witness:
  "\<exists>j. job_by_id_for_principal sample_publish sample_codecs
     (fst (record_publish_job sample_publish sample_codecs ''j1'' 5 sample_insert sample_database))
     (jb_job_id j) (sample_reader ''p1'') = Inr (Some j)"
proof -
  let ?d = "fst (record_publish_job sample_publish sample_codecs ''j1'' 5 sample_insert sample_database)"
  obtain j where *: "list_jobs_for_principal sample_publish sample_codecs ?d (sample_reader ''p1'') 10 = Inr [j]"
    using sample_listed by blast
  have "database_ok ?d" by (rule record_publish_job_ok [OF sample_database_ok])
  from listing_is_scoped [OF this *] show ?thesis by auto
qed

section \<open>Tokens\<close>

lemma created_principal_lookup:
  assumes "codecs_ok K" and "create_principal P K pid now i d = (d', Inr p)"
  shows "principal_for_token_hash K t d' (pi_token_hash i) =
      Inr (case pi_expires_at_unix i of
             Some expiry \<Rightarrow> if t < expiry then Some p else None
           | None \<Rightarrow> Some p) \<and>
    pp_principal_id p = pid \<and> pp_allowed_pubkeys p = pi_allowed_pubkeys i \<and>
    pp_allowed_kinds p = pi_allowed_kinds i \<and> pp_job_visibility p = pi_job_visibility i \<and>
    pp_allow_request_targets p = pi_allow_request_targets i \<and>
    (\<forall>h. h \<noteq> pi_token_hash i \<longrightarrow> principal_for_token_hash K t d' h = principal_for_token_hash K t d h)"
proof -
  obtain row where row: "principal_row_of K pid now i = Inr row" and d': "insert_principal row d = Inr d'"
    and p: "principal_by_id K d' pid = Inr (Some p)"
    using assms(2) by (auto simp: create_principal_def result_eqs split: sum.splits)
  note cols = principal_row_roundtrip [OF assms(1) row]
  have found: "find (\<lambda>r. pw_principal_id r = pid) (db_principals d') = Some row"
    using principals.ins_lookup [OF d'] cols(2) by simp
  then have p': "principal_from_row K row = Inr p" using p by (simp add: principal_by_id_def map_ok_eq_Inr)
  let ?live = "\<lambda>h r. pw_token_hash r = h \<and> pw_revoked_at_unix r = None \<and>
      (case pw_expires_at_unix r of None \<Rightarrow> True | Some x \<Rightarrow> t < x)"
  have none: "find (?live (pi_token_hash i)) (db_principals d) = None"
    using tokens.ins_fresh [OF d'] cols(3) by (force simp: find_None_iff)
  have "find (?live h) (db_principals d') =
      (case find (?live h) (db_principals d) of None \<Rightarrow> if ?live h row then Some row else None | Some r \<Rightarrow> Some r)" for h
    unfolding principals.ins_rows [OF d'] find_append
    by (cases "find (?live h) (db_principals d)") (simp_all only: option.case find.simps)
  note live = this
  have "principal_for_token_hash K t d' (pi_token_hash i) =
      map_transpose (principal_from_row K) (if ?live (pi_token_hash i) row then Some row else None)"
    unfolding principal_for_token_hash_def live none by simp
  then have "principal_for_token_hash K t d' (pi_token_hash i) =
      Inr (case pi_expires_at_unix i of Some expiry \<Rightarrow> if t < expiry then Some p else None | None \<Rightarrow> Some p)"
    using cols(3-5) p' by (simp split: option.split)
  moreover have "principal_for_token_hash K t d' h = principal_for_token_hash K t d h" if "h \<noteq> pi_token_hash i" for h
    unfolding principal_for_token_hash_def live using that cols(3) by (simp split: option.split)
  ultimately show ?thesis using cols(1) p' by auto
qed

text \<open>A principal that was created is found by the hash of its token until it expires, with
  the scope it was given, and the principals found by other hashes are those found before.\<close>

theorem created_principal_authenticates:
  assumes "codecs_ok K" and "create_principal P K pid now i d = (d', Inr p)"
  shows "principal_for_token_hash K t d' (pi_token_hash i) =
      Inr (case pi_expires_at_unix i of
             Some expiry \<Rightarrow> if t < expiry then Some p else None
           | None \<Rightarrow> Some p) \<and>
    pp_principal_id p = pid \<and> pp_allowed_pubkeys p = pi_allowed_pubkeys i \<and>
    pp_allowed_kinds p = pi_allowed_kinds i \<and> pp_job_visibility p = pi_job_visibility i \<and>
    pp_allow_request_targets p = pi_allow_request_targets i \<and>
    (\<forall>h. h \<noteq> pi_token_hash i \<longrightarrow> principal_for_token_hash K t d' h = principal_for_token_hash K t d h)"
  using created_principal_lookup [OF assms, of t] by blast

lemma sample_created:
  "\<exists>d' p. create_principal sample_publish sample_codecs ''p1'' 0 sample_init empty_database = (d', Inr p)"
proof -
  have "trim ''app'' \<noteq> []" by code_simp
  then have "validate_principal_init sample_publish sample_init = Inr ()"
    by (simp add: validate_principal_init_def sample_init_def ensure_lower_hex_def sample_pubkey_hex)
  then show ?thesis
    by (simp add: create_principal_def principal_row_of_def encode_def sample_codecs_def insert_principal_def
        empty_database_def principal_by_id_def principal_from_row_def json_text_def sample_init_def visibility_from_str_def)
qed

theorem created_principal_authenticates_witness:
  "\<exists>d' p. create_principal sample_publish sample_codecs ''p1'' 0 sample_init empty_database = (d', Inr p) \<and>
     principal_for_token_hash sample_codecs 99 d' ''sha256:00'' = Inr (Some p) \<and>
     principal_for_token_hash sample_codecs 100 d' ''sha256:00'' = Inr None"
proof -
  obtain d' p where *: "create_principal sample_publish sample_codecs ''p1'' 0 sample_init empty_database = (d', Inr p)"
    using sample_created by blast
  from created_principal_authenticates [OF sample_codecs_ok *, of 99]
    created_principal_authenticates [OF sample_codecs_ok *, of 100] *
  show ?thesis by (simp add: sample_init_def)
qed

section \<open>The cache\<close>

text \<open>The relays cached for an author are what a lookup for that author then returns, whatever
  was cached before, and the lookups for other authors are not changed.\<close>

theorem cached_relays_read_back:
  assumes "codecs_ok K" and "reachable_db P K d"
  shows "\<exists>d'. cache_author_write_relays K now pubkey relays d = Inr d' \<and>
    cached_author_write_relays K d' pubkey = Inr relays \<and>
    (\<forall>other. other \<noteq> pubkey \<longrightarrow> cached_author_write_relays K d' other = cached_author_write_relays K d other)"
proof -
  obtain s where s: "encode (cd_strings K) relays = Inr s" using encode_total [OF codecs_okD(1) [OF assms(1)]] by blast
  let ?row = "\<lparr>cw_pubkey = pubkey, cw_relays_json = s, cw_updated_at_ms = now\<rparr>"
  have replace: "find (\<lambda>r. cw_pubkey r = k) (map (\<lambda>r. if cw_pubkey r = pubkey then ?row else r) rows) =
      (if k = pubkey then (if pubkey \<in> cw_pubkey ` set rows then Some ?row else None)
       else find (\<lambda>r. cw_pubkey r = k) rows)" for k rows
    by (induction rows) auto
  have absent: "find (\<lambda>r. cw_pubkey r = pubkey) rows = None" if "pubkey \<notin> cw_pubkey ` set rows" for rows
    using that by (auto simp: find_None_iff)
  have "find (\<lambda>r. cw_pubkey r = k) (db_cache (upsert_cache ?row d)) =
      (if k = pubkey then Some ?row else find (\<lambda>r. cw_pubkey r = k) (db_cache d))" for k
    using replace [of k "db_cache d"] absent [of "db_cache d"]
    by (auto simp: upsert_cache_def find_append split: option.split)
  then show ?thesis
    using encode_decode [OF codecs_okD(1) [OF assms(1)] s]
    by (simp add: cache_author_write_relays_def s cached_author_write_relays_def)
qed

theorem cached_relays_read_back_witness:
  "\<exists>d. cached_author_write_relays sample_codecs d ''a'' = Inr [''wss://a'']"
  using cached_relays_read_back [OF sample_codecs_ok reachable_db.fresh] by blast

section \<open>The types of the stored rows\<close>

text \<open>Principals, results and cached relays; jobs and snapshots are \<open>readable_db\<close>.\<close>

definition other_rows_ok :: "codecs \<Rightarrow> database \<Rightarrow> bool" where
  "other_rows_ok K d \<longleftrightarrow>
     (\<forall>r \<in> set (db_principals d). is_ok (principal_from_row K r)) \<and>
     (\<forall>(r, _) \<in> set (db_results d). is_ok (target_outcome_from_row K r)) \<and>
     (\<forall>r \<in> set (db_cache d). is_ok (from_json (cd_strings K) (cw_relays_json r)))"

lemma other_rows_frame:
  "db_principals d' = db_principals d \<Longrightarrow> db_results d' = db_results d \<Longrightarrow> db_cache d' = db_cache d \<Longrightarrow>
     other_rows_ok K d' \<longleftrightarrow> other_rows_ok K d"
  by (simp add: other_rows_ok_def)

lemma update_rows: "other_rows_ok K (update_job k f d) \<longleftrightarrow> other_rows_ok K d"
  by (rule other_rows_frame) (simp_all add: update_job_def)

lemma insert_results_rows:
  assumes "codecs_ok K"
  shows "other_rows_ok K d \<Longrightarrow> other_rows_ok K (fst (insert_results K k ts now d))"
proof (induction ts arbitrary: d)
  case (Cons t ts)
  obtain row where row: "target_row_of K k t = Inr row" using target_row_total [OF assms] by blast
  have "other_rows_ok K d'" if "replace_result row now d = Inr d'" for d'
    using that Cons.prems target_row_roundtrip(1) [OF assms row]
    by (auto simp: replace_result_def other_rows_ok_def split: if_splits)
  then show ?case using Cons by (simp add: row split: sum.split)
qed simp

lemma replace_rows:
  assumes "codecs_ok K" and "other_rows_ok K d"
  shows "other_rows_ok K (fst (replace_target_outcomes K k ts now d))"
  unfolding replace_target_outcomes_def
  by (rule insert_results_rows [OF assms(1)]) (use assms(2) in \<open>auto simp: other_rows_ok_def delete_results_def\<close>)

lemma insert_job_rows:
  assumes "other_rows_ok K d"
  shows "other_rows_ok K (fst (insert_publish_job P K jid now i d))"
proof -
  have "other_rows_ok K d'" if "record_transaction K jid now rj rc n i d = Inr d'" for rj rc n d'
  proof -
    from that obtain row d1 where d1: "insert_job row d = Inr d1"
      and "insert_target_snapshots K jid 0 (ji_target_snapshots i) now d1 = Inr d'"
      by (rule record_transactionE)
    then have "other_rows_ok K d' \<longleftrightarrow> other_rows_ok K d1"
      using insert_target_snapshots_effect by (intro other_rows_frame) fastforce+
    moreover have "other_rows_ok K d1 \<longleftrightarrow> other_rows_ok K d"
      using d1 by (intro other_rows_frame) (auto simp: insert_job_def split: if_splits)
    ultimately show ?thesis using assms by simp
  qed
  then show ?thesis using assms by (auto simp: insert_publish_job_def result_eqs split: sum.split)
qed

lemma recover_rows:
  assumes "codecs_ok K" and "other_rows_ok K d"
  shows "other_rows_ok K (fst (recover_interrupted_publish_jobs P K now d))"
proof -
  have one: "other_rows_ok K (fst (recover_job P K now row d))" if "other_rows_ok K d" for row d
    using that replace_rows [OF assms(1)] by (auto simp: recover_job_def Let_def update_rows split: sum.split)
  have "other_rows_ok K (fst (recover_jobs P K now rows d))" if "other_rows_ok K d" for rows d
    using that
  proof (induction rows arbitrary: d)
    case (Cons row rows)
    then show ?case using one [OF Cons.prems, of row] by (auto split: prod.split sum.split)
  qed simp
  then show ?thesis using assms(2) by (simp add: recover_interrupted_publish_jobs_def split: sum.split)
qed

lemma reachable_rows:
  assumes "reachable_db P K d" and "codecs_ok K"
  shows "other_rows_ok K d"
  using assms
proof (induction rule: reachable_db.induct)
  case fresh
  then show ?case by (simp add: other_rows_ok_def empty_database_def)
next
  case (create d pid now i)
  then have "other_rows_ok K d" by blast
  then show ?case
    using principal_row_roundtrip(1) [OF create.prems]
    by (auto simp: create_principal_def insert_principal_def result_eqs other_rows_ok_def split: sum.split if_splits)
next
  case (record_job d jid now ji)
  then show ?case using insert_job_rows by (simp add: record_publish_job_def split: sum.split option.split)
next
  case (insert_late d ji jid now)
  then show ?case by (simp add: insert_job_rows)
next
  case (complete d now jid status ts e)
  then have "other_rows_ok K d" by blast
  then show ?case
    using replace_rows [OF complete.prems] by (auto simp: complete_publish_job_def update_rows split: sum.split)
next
  case (cache d now pk relays d')
  then obtain json where json: "encode (cd_strings K) relays = Inr json"
    and d': "d' = upsert_cache \<lparr>cw_pubkey = pk, cw_relays_json = json, cw_updated_at_ms = now\<rparr> d"
    by (auto simp: cache_author_write_relays_def result_eqs)
  have "is_ok (from_json (cd_strings K) json)"
    using encode_json_text [OF codecs_okD(1) [OF cache.prems] json, of "''''"]
    by (auto simp: json_text_def is_ok_def split: sum.splits)
  then show ?case using cache by (auto simp: d' upsert_cache_def other_rows_ok_def split: if_splits)
next
  case (recover d now)
  then show ?case by (simp add: recover_rows)
qed (simp_all add: update_rows replace_rows)

text \<open>C20. Every row of the database has the type the daemon gives it: in every state a run can leave,
  crashes between statements included, each row of each of the five tables decodes, so that no
  principal, job, result, snapshot or cached list can make the daemon fail with a persisted value
  it cannot read.\<close>

theorem stored_rows_decode:
  assumes "reachable_db P K d" and "codecs_ok K"
  shows "(\<forall>r \<in> set (db_principals d). \<exists>p. principal_from_row K r = Inr p) \<and>
    (\<forall>r \<in> set (db_jobs d). \<exists>j. job_from_row K r = Inr j) \<and>
    (\<forall>(r, _) \<in> set (db_results d). \<exists>t. target_outcome_from_row K r = Inr t) \<and>
    (\<forall>(_, r, _) \<in> set (db_snapshots d). \<exists>t. target_outcome_from_row K r = Inr t) \<and>
    (\<forall>pubkey. \<exists>relays. cached_author_write_relays K d pubkey = Inr relays)"
proof (intro conjI)
  note rows = reachable_rows [OF assms] and readable = reachable_readable [OF assms]
  show "\<forall>r \<in> set (db_principals d). \<exists>p. principal_from_row K r = Inr p"
    and "\<forall>(r, _) \<in> set (db_results d). \<exists>t. target_outcome_from_row K r = Inr t"
    using rows by (simp_all add: other_rows_ok_def is_ok_iff)
  show "\<forall>r \<in> set (db_jobs d). \<exists>j. job_from_row K r = Inr j"
    and "\<forall>(_, r, _) \<in> set (db_snapshots d). \<exists>t. target_outcome_from_row K r = Inr t"
    using readable by (simp_all add: readable_db_def readable_job_def is_ok_iff)
  show "\<forall>pubkey. \<exists>relays. cached_author_write_relays K d pubkey = Inr relays"
  proof
    fix pubkey
    show "\<exists>relays. cached_author_write_relays K d pubkey = Inr relays"
    proof (cases "find (\<lambda>r. cw_pubkey r = pubkey) (db_cache d)")
      case (Some r)
      then have "is_ok (from_json (cd_strings K) (cw_relays_json r))"
        using rows by (auto simp: other_rows_ok_def find_Some_iff)
      then show ?thesis by (auto simp: cached_author_write_relays_def Some is_ok_iff)
    qed (simp add: cached_author_write_relays_def)
  qed
qed

theorem stored_rows_decode_witness:
  "\<exists>p. collect_results (principal_from_row sample_codecs)
      (db_principals (fst (create_principal sample_publish sample_codecs ''p1'' 0 sample_init empty_database))) = Inr [p]"
proof -
  let ?d = "fst (create_principal sample_publish sample_codecs ''p1'' 0 sample_init empty_database)"
  obtain p row where "principal_from_row sample_codecs row = Inr p" "db_principals ?d = [row]"
  proof -
    obtain d' p where made: "create_principal sample_publish sample_codecs ''p1'' 0 sample_init empty_database = (d', Inr p)"
      using sample_created by blast
    then obtain row where "db_principals d' = [row]"
      by (auto simp: create_principal_def result_eqs insert_principal_def empty_database_def split: sum.splits if_splits)
    then show thesis
      using that made stored_rows_decode [OF reachable_db.create [OF reachable_db.fresh] sample_codecs_ok,
          of sample_publish "''p1''" 0 sample_init] by auto
  qed
  then show ?thesis by simp
qed

end
