(* ===== verification/Store_Schema.thy ===== *)
theory Store_Schema
  imports Store_Properties
begin

text \<open>
  Opening the publish store (\<open>TransportPublishStore::from_connection\<close> and the schema validation of
  \<open>src/core/transport_publish.rs\<close>).  A database file is its catalog, as SQLite's \<open>PRAGMA\<close>
  statements and its \<open>sqlite_schema\<close> table show it, and the rows of \<open>Publish_Store\<close>.  A fresh file gets
  the daemon's tables, any other file must have exactly them, and then the jobs that were left
  publishing are recovered.
\<close>

section \<open>Ordered maps\<close>

text \<open>A \<open>BTreeMap\<close> is an association list in the order of its keys.  \<open>btree_entry k v f\<close> is
  \<open>f(m.entry(k).or_insert(v))\<close>.\<close>

fun btree_entry :: "'k::linorder \<Rightarrow> 'v \<Rightarrow> ('v \<Rightarrow> 'v) \<Rightarrow> ('k \<times> 'v) list \<Rightarrow> ('k \<times> 'v) list" where
  "btree_entry k v f [] = [(k, f v)]"
| "btree_entry k v f ((k', v') # m) =
     (if k < k' then (k, f v) # (k', v') # m
      else if k = k' then (k', f v') # m
      else (k', v') # btree_entry k v f m)"

definition btree_of :: "('k::linorder \<times> 'v) list \<Rightarrow> ('k \<times> 'v) list" where
  "btree_of rows = fold (\<lambda>(k, v). btree_entry k v (\<lambda>_. v)) rows []"

lemma btree_entry_keys: "fst ` set (btree_entry k v f m) = insert k (fst ` set m)"
proof (induction m)
  case (Cons p m)
  then show ?case by (cases p) (simp add: insert_commute)
qed simp

lemma btree_entry_sorted:
  "sorted_wrt (<) (map fst m) \<Longrightarrow> sorted_wrt (<) (map fst (btree_entry k v f m))"
proof (induction m)
  case (Cons p m)
  have "fst ` set (btree_entry k v f m) = insert k (fst ` set m)" by (rule btree_entry_keys)
  then have "\<forall>x \<in> set (map fst (btree_entry k v f m)). x = k \<or> x \<in> set (map fst m)" by auto
  then show ?case using Cons by (cases p) force
qed simp

lemma map_of_btree_entry:
  "sorted_wrt (<) (map fst m) \<Longrightarrow>
     map_of (btree_entry k v f m) = (map_of m)(k \<mapsto> f (case map_of m k of None \<Rightarrow> v | Some v' \<Rightarrow> v'))"
proof (induction m)
  case (Cons p m)
  obtain k' v' where p: "p = (k', v')" by force
  have "map_of m k = None" if "k < k'"
    using Cons.prems that by (auto simp: p map_of_eq_None_iff)
  then show ?case using Cons by (auto simp: p fun_eq_iff)
qed auto

lemma btree_of_props:
  "sorted_wrt (<) (map fst (btree_of rows)) \<and> map_of (btree_of rows) = map_of (rev rows)"
proof -
  have "sorted_wrt (<) (map fst m) \<Longrightarrow>
      sorted_wrt (<) (map fst (fold (\<lambda>(k, v). btree_entry k v (\<lambda>_. v)) rows m)) \<and>
      map_of (fold (\<lambda>(k, v). btree_entry k v (\<lambda>_. v)) rows m) = map_of m ++ map_of (rev rows)" for m
    by (induction rows arbitrary: m)
      (auto simp: btree_entry_sorted map_of_btree_entry split: option.split)
  from this [of "[]"] show ?thesis by (simp add: btree_of_def)
qed

lemma btree_distinct: "distinct (map fst (btree_of rows))"
  using btree_of_props [of rows] strict_sorted_iff by blast

lemma btree_set: "set (btree_of rows) = {(k, v). map_of (rev rows) k = Some v}"
  using btree_of_props [of rows] btree_distinct [of rows] map_of_eq_Some_iff by fastforce

lemma btree_set_distinct:
  assumes "distinct (map fst rows)"
  shows "set (btree_of rows) = set rows"
  using map_of_eq_Some_iff [of "rev rows"] assms by (auto simp: btree_set rev_map [symmetric])

section \<open>The catalog\<close>

record column_row =
  ci_name :: string
  ci_type :: string
  ci_not_null :: bool
  ci_pk :: nat

text \<open>The name of an indexed expression is NULL, and so is the SQL text of an automatic index.\<close>

record index_row =
  il_name :: string
  il_unique :: bool
  il_partial :: bool
  il_columns :: "(nat \<times> string option) list"
  il_sql :: "string option"

record fk_row =
  fk_id :: nat
  fk_seq :: nat
  fk_table :: string
  fk_from :: string
  fk_to :: "string option"

record table =
  tb_name :: string
  tb_columns :: "column_row list"
  tb_indexes :: "index_row list"
  tb_foreign_keys :: "fk_row list"

record catalog =
  ct_tables :: "table list"
  ct_user_version :: int
  ct_foreign_keys :: bool

text \<open>A \<open>PRAGMA\<close> finds a table by its name whatever its case, and shows nothing of a missing one.\<close>

definition table_named :: "string \<Rightarrow> catalog \<Rightarrow> table option" where
  "table_named t c = find (\<lambda>tb. to_ascii_lowercase (tb_name tb) = to_ascii_lowercase t) (ct_tables c)"

definition pragma :: "(table \<Rightarrow> 'r list) \<Rightarrow> string \<Rightarrow> catalog \<Rightarrow> 'r list" where
  "pragma rows t c = (case table_named t c of None \<Rightarrow> [] | Some tb \<Rightarrow> rows tb)"

text \<open>SQL's \<open>LIKE\<close>: \<open>%\<close> stands for any text, \<open>_\<close> for any character, and case does not matter.\<close>

fun sql_like :: "string \<Rightarrow> string \<Rightarrow> bool" where
  "sql_like [] s \<longleftrightarrow> s = []"
| "sql_like (p # ps) [] \<longleftrightarrow> p = CHR ''%'' \<and> sql_like ps []"
| "sql_like (p # ps) (c # s) \<longleftrightarrow>
     (if p = CHR ''%'' then sql_like ps (c # s) \<or> sql_like (p # ps) s
      else (p = CHR ''_'' \<or> to_ascii_lowercase [p] = to_ascii_lowercase [c]) \<and> sql_like ps s)"

definition to_ascii_uppercase :: "string \<Rightarrow> string" where
  "to_ascii_uppercase = map (\<lambda>c. if CHR ''a'' \<le> c \<and> c \<le> CHR ''z'' then char_of (of_char c - 32 :: nat) else c)"

fun join_str :: "string \<Rightarrow> string list \<Rightarrow> string" where
  "join_str sep [] = []"
| "join_str sep [x] = x"
| "join_str sep (x # y # xs) = x @ sep @ join_str sep (y # xs)"

text \<open>A NULL where a text is read.\<close>

definition text_column :: "nat \<Rightarrow> string option \<Rightarrow> tp_error + string" where
  "text_column index v = ok_or (TpSqlite (SqlxOther (''error occurred while decoding column '' @ show_nat index @
     '': unexpected null; try decoding as an `Option`''))) v"

section \<open>What the schema must be\<close>

record required_column =
  rc_name :: string
  rc_type :: string
  rc_not_null :: bool

definition text_not_null :: "string \<Rightarrow> required_column" where
  "text_not_null name = \<lparr>rc_name = name, rc_type = ''TEXT'', rc_not_null = True\<rparr>"

definition text_nullable :: "string \<Rightarrow> required_column" where
  "text_nullable name = \<lparr>rc_name = name, rc_type = ''TEXT'', rc_not_null = False\<rparr>"

definition integer_not_null :: "string \<Rightarrow> required_column" where
  "integer_not_null name = \<lparr>rc_name = name, rc_type = ''INTEGER'', rc_not_null = True\<rparr>"

definition integer_nullable :: "string \<Rightarrow> required_column" where
  "integer_nullable name = \<lparr>rc_name = name, rc_type = ''INTEGER'', rc_not_null = False\<rparr>"

text \<open>What the validation asks of one table: its columns, its primary key, its foreign keys and
  its unique indexes, in the order in which they are checked.\<close>

record required_table =
  rt_name :: string
  rt_columns :: "required_column list"
  rt_primary_key :: "string list"
  rt_foreign_keys :: "(string list \<times> string \<times> string list) list"
  rt_unique :: "(string list \<times> string option) list"

definition principals_table :: required_table where
  "principals_table =
     \<lparr>rt_name = ''transport_publish_principals'',
      rt_columns =
        [text_not_null ''principal_id'', text_not_null ''label'', text_not_null ''token_hash'',
         text_not_null ''allowed_pubkeys_json'', text_not_null ''allowed_kinds_json'',
         text_not_null ''allowed_target_policies_json'',
         text_not_null ''allowed_explicit_transport_kinds_json'',
         text_not_null ''allowed_nostr_source_policies_json'', integer_not_null ''allow_request_targets'',
         text_not_null ''job_visibility'', integer_nullable ''expires_at_unix'',
         integer_nullable ''revoked_at_unix'', integer_not_null ''created_at_unix''],
      rt_primary_key = [''principal_id''],
      rt_foreign_keys = [],
      rt_unique = [([''token_hash''], None)]\<rparr>"

definition jobs_table :: required_table where
  "jobs_table =
     \<lparr>rt_name = ''transport_publish_jobs'',
      rt_columns =
        [text_not_null ''job_id'', text_not_null ''principal_id'', text_nullable ''idempotency_key'',
         text_not_null ''request_fingerprint'', text_not_null ''status'', text_not_null ''event_id'',
         text_not_null ''event_pubkey'', integer_not_null ''event_kind'',
         text_not_null ''target_policy_json'', text_not_null ''delivery_policy_json'',
         integer_not_null ''requested_target_count'', integer_not_null ''effective_target_count'',
         text_not_null ''request_json'', integer_not_null ''requested_at_ms'',
         integer_not_null ''updated_at_ms'', integer_nullable ''completed_at_ms'',
         text_nullable ''last_error''],
      rt_primary_key = [''job_id''],
      rt_foreign_keys = [([''principal_id''], ''transport_publish_principals'', [''principal_id''])],
      rt_unique = [([''principal_id'', ''idempotency_key''], Some ''WHERE idempotency_key IS NOT NULL'')]\<rparr>"

definition results_table :: required_table where
  "results_table =
     \<lparr>rt_name = ''transport_publish_target_results'',
      rt_columns =
        [text_not_null ''job_id'', text_not_null ''transport_kind'', text_not_null ''endpoint_uri'',
         text_not_null ''target_scope'', text_nullable ''target_label'', text_not_null ''source'',
         integer_not_null ''attempted'', text_not_null ''outcome_kind'', text_nullable ''message'',
         integer_nullable ''latency_ms'', integer_not_null ''updated_at_ms''],
      rt_primary_key = [''job_id'', ''transport_kind'', ''endpoint_uri'', ''target_scope''],
      rt_foreign_keys = [([''job_id''], ''transport_publish_jobs'', [''job_id''])],
      rt_unique = []\<rparr>"

definition snapshots_table :: required_table where
  "snapshots_table =
     \<lparr>rt_name = ''transport_publish_target_snapshots'',
      rt_columns =
        [text_not_null ''job_id'', integer_not_null ''target_index'', text_not_null ''transport_kind'',
         text_not_null ''endpoint_uri'', text_not_null ''target_scope'', text_nullable ''target_label'',
         text_not_null ''source'', integer_not_null ''attempted'', text_not_null ''outcome_kind'',
         text_nullable ''message'', integer_nullable ''latency_ms'', integer_not_null ''created_at_ms''],
      rt_primary_key = [''job_id'', ''target_index''],
      rt_foreign_keys = [([''job_id''], ''transport_publish_jobs'', [''job_id''])],
      rt_unique = []\<rparr>"

definition author_cache_table :: required_table where
  "author_cache_table =
     \<lparr>rt_name = ''transport_publish_nostr_author_cache'',
      rt_columns = [text_not_null ''pubkey'', text_not_null ''relays_json'', integer_not_null ''updated_at_ms''],
      rt_primary_key = [''pubkey''],
      rt_foreign_keys = [],
      rt_unique = []\<rparr>"

definition required_tables :: "required_table list" where
  "required_tables = [principals_table, jobs_table, results_table, snapshots_table, author_cache_table]"

section \<open>Validation\<close>

record column_info =
  cl_type :: string
  cl_not_null :: bool
  cl_pk :: nat

definition table_columns :: "string \<Rightarrow> catalog \<Rightarrow> (string \<times> column_info) list" where
  "table_columns t c = btree_of (map (\<lambda>r. (ci_name r,
     \<lparr>cl_type = to_ascii_uppercase (ci_type r), cl_not_null = ci_not_null r, cl_pk = ci_pk r\<rparr>)) (pragma tb_columns t c))"

fun check_columns ::
  "string \<Rightarrow> (string \<times> column_info) list \<Rightarrow> required_column list \<Rightarrow> tp_error + unit" where
  "check_columns t columns [] = Inr ()"
| "check_columns t columns (r # rs) =
     (case map_of columns (rc_name r) of
        None \<Rightarrow> Inl (TpSchema t (''missing required column `'' @ rc_name r @ ''`''))
      | Some col \<Rightarrow>
          if cl_type col \<noteq> rc_type r then
            Inl (TpSchema t (''column `'' @ rc_name r @ ''` must have type '' @ rc_type r @ '', got '' @ cl_type col))
          else if cl_not_null col \<noteq> rc_not_null r then
            Inl (TpSchema t (''column `'' @ rc_name r @ ''` must be '' @
              (if rc_not_null r then ''NOT NULL'' else ''nullable'')))
          else check_columns t columns rs)"

definition validate_table_columns :: "catalog \<Rightarrow> string \<Rightarrow> required_column list \<Rightarrow> tp_error + unit" where
  "validate_table_columns c t required =
     (let columns = table_columns t c in
      if columns = [] then Inl (TpSchema t ''table is missing'')
      else and_then (check_columns t columns required) (\<lambda>_.
        if length columns \<noteq> length required then
          Inl (TpSchema t (''unexpected columns: '' @ join_str '', ''
            (filter (\<lambda>name. name \<notin> rc_name ` set required) (map fst columns))))
        else Inr ()))"

definition validate_primary_key :: "catalog \<Rightarrow> string \<Rightarrow> string list \<Rightarrow> tp_error + unit" where
  "validate_primary_key c t expected =
     (let primary_key = filter (\<lambda>(name, col). 0 < cl_pk col) (table_columns t c);
          actual = map fst (sort_key (\<lambda>(name, col). cl_pk col) primary_key)
      in if actual = expected then Inr ()
         else Inl (TpSchema t (''primary key must be ('' @ join_str '', '' expected @ '')'')))"

text \<open>\<open>columns_match\<close> compares the columns pair by pair.\<close>

definition columns_match :: "string list \<Rightarrow> string list \<Rightarrow> bool" where
  "columns_match actual expected \<longleftrightarrow>
     length actual = length expected \<and> list_all (\<lambda>(a, e). a = e) (zip actual expected)"

definition index_columns :: "index_row \<Rightarrow> tp_error + string list" where
  "index_columns ix =
     map_ok (\<lambda>columns. map snd (sort_key fst columns))
       (collect_results (\<lambda>(position, name). map_ok (Pair position) (text_column 2 name)) (il_columns ix))"

definition normalized_sql :: "string \<Rightarrow> string" where
  "normalized_sql sql = to_ascii_uppercase (join_with CHR '' '' (split_whitespace sql))"

text \<open>The SQL text is looked up by the exact name of the table.\<close>

definition index_sql_contains_where :: "catalog \<Rightarrow> string \<Rightarrow> index_row \<Rightarrow> string \<Rightarrow> bool" where
  "index_sql_contains_where c t ix required_where =
     contains_str (normalized_sql required_where)
       (normalized_sql (case il_sql ix of
          Some sql \<Rightarrow> (if list_ex (\<lambda>tb. tb_name tb = t \<and> ix \<in> set (tb_indexes tb)) (ct_tables c) then sql else [])
        | None \<Rightarrow> []))"

fun find_unique_index ::
  "catalog \<Rightarrow> string \<Rightarrow> string list \<Rightarrow> string option \<Rightarrow> index_row list \<Rightarrow> tp_error + bool" where
  "find_unique_index c t expected partial_where [] = Inr False"
| "find_unique_index c t expected partial_where (ix # ixs) =
     (if \<not> il_unique ix \<or> (partial_where \<noteq> None) \<noteq> il_partial ix
      then find_unique_index c t expected partial_where ixs
      else and_then (index_columns ix) (\<lambda>columns.
        if columns_match columns expected \<and>
           (case partial_where of None \<Rightarrow> True | Some w \<Rightarrow> index_sql_contains_where c t ix w)
        then Inr True
        else find_unique_index c t expected partial_where ixs))"

definition validate_unique_index ::
  "catalog \<Rightarrow> string \<Rightarrow> string list \<times> string option \<Rightarrow> tp_error + unit" where
  "validate_unique_index c t u =
     (case u of (expected, partial_where) \<Rightarrow>
       and_then (find_unique_index c t expected partial_where (pragma tb_indexes t c)) (\<lambda>found.
         if found then Inr ()
         else Inl (TpSchema t (''missing required unique index on ('' @ join_str '', '' expected @ '')''))))"

record foreign_key_entry =
  fe_target_table :: string
  fe_from_columns :: "string list"
  fe_to_columns :: "string list"

definition group_foreign_keys ::
  "(fk_row \<times> string) list \<Rightarrow> (nat \<times> string \<times> (nat \<times> string \<times> string) list) list" where
  "group_foreign_keys rows =
     fold (\<lambda>(r, to_column). btree_entry (fk_id r) (fk_table r, [])
       (\<lambda>(target, columns). (target, columns @ [(fk_seq r, fk_from r, to_column)]))) rows []"

definition foreign_keys :: "catalog \<Rightarrow> string \<Rightarrow> tp_error + foreign_key_entry list" where
  "foreign_keys c t =
     map_ok (\<lambda>rows. map (\<lambda>(_, target, columns).
         \<lparr>fe_target_table = target,
          fe_from_columns = map (\<lambda>(_, from, _). from) (sort_key fst columns),
          fe_to_columns = map (\<lambda>(_, _, to). to) (sort_key fst columns)\<rparr>) (group_foreign_keys rows))
       (collect_results (\<lambda>r. map_ok (Pair r) (text_column 4 (fk_to r))) (pragma tb_foreign_keys t c))"

definition validate_foreign_key ::
  "catalog \<Rightarrow> string \<Rightarrow> string list \<times> string \<times> string list \<Rightarrow> tp_error + unit" where
  "validate_foreign_key c t k =
     (case k of (from, target, to) \<Rightarrow>
       and_then (foreign_keys c t) (\<lambda>entries.
         if list_ex (\<lambda>e. fe_target_table e = target \<and> columns_match (fe_from_columns e) from \<and>
              columns_match (fe_to_columns e) to) entries
         then Inr ()
         else Inl (TpSchema t (''missing required foreign key ('' @ join_str '', '' from @ '') references '' @
           target @ ''('' @ join_str '', '' to @ '')''))))"

definition validate_foreign_keys_enabled :: "catalog \<Rightarrow> tp_error + unit" where
  "validate_foreign_keys_enabled c =
     (if ct_foreign_keys c then Inr ()
      else Inl (TpSchema ''transport_publish_schema'' ''foreign key enforcement must be enabled''))"

definition validate_table_present :: "catalog \<Rightarrow> string \<Rightarrow> tp_error + unit" where
  "validate_table_present c t =
     (if list_ex (\<lambda>tb. tb_name tb = t) (ct_tables c) then Inr () else Inl (TpSchema t ''table is missing''))"

fun check_all :: "('a \<Rightarrow> tp_error + unit) \<Rightarrow> 'a list \<Rightarrow> tp_error + unit" where
  "check_all f [] = Inr ()"
| "check_all f (x # xs) = and_then (f x) (\<lambda>_. check_all f xs)"

definition validate_table :: "catalog \<Rightarrow> required_table \<Rightarrow> tp_error + unit" where
  "validate_table c rt =
     and_then (validate_table_columns c (rt_name rt) (rt_columns rt)) (\<lambda>_.
     and_then (validate_primary_key c (rt_name rt) (rt_primary_key rt)) (\<lambda>_.
     and_then (check_all (validate_foreign_key c (rt_name rt)) (rt_foreign_keys rt)) (\<lambda>_.
       check_all (validate_unique_index c (rt_name rt)) (rt_unique rt))))"

definition validate_transport_publish_schema :: "catalog \<Rightarrow> tp_error + unit" where
  "validate_transport_publish_schema c =
     and_then (validate_foreign_keys_enabled c) (\<lambda>_.
     and_then (check_all (validate_table c) required_tables) (\<lambda>_.
       check_all (validate_table_present c) (map rt_name required_tables)))"

definition validate_transport_publish_schema_version :: "catalog \<Rightarrow> tp_error + unit" where
  "validate_transport_publish_schema_version c =
     (if ct_user_version c = 4 then Inr ()
      else Inl (TpSchema ''transport_publish_schema'' (''user_version must be 4, got '' @ show_int (ct_user_version c))))"

datatype schema_state = Fresh | Existing

definition transport_publish_schema_state :: "catalog \<Rightarrow> tp_error + schema_state" where
  "transport_publish_schema_state c =
     (if filter (sql_like ''transport_publish_%'') (map tb_name (ct_tables c)) = [] then
        (if ct_user_version c = 0 then Inr Fresh
         else Inl (TpSchema ''transport_publish_schema''
           (''fresh schema initialization requires user_version 0, got '' @ show_int (ct_user_version c))))
      else Inr Existing)"

section \<open>The schema\<close>

text \<open>The statements of \<open>TRANSPORT_PUBLISH_SCHEMA_SQL\<close>, and what SQLite records for them: a column
  of a primary key has its position in it, and every primary key and every \<open>UNIQUE\<close> column has an
  automatic unique index.\<close>

datatype column_attribute = Plain | NotNull | NotNullUnique | PrimaryKeyNotNull

datatype table_constraint = PrimaryKey "string list" | ForeignKey "string list" string "string list"

datatype statement =
    CreateTable string "(string \<times> string \<times> column_attribute) list" "table_constraint list"
  | CreateUniqueIndex string string "string list" string

fun position :: "string \<Rightarrow> string list \<Rightarrow> nat" where
  "position x [] = 0"
| "position x (y # ys) = (if x = y then 1 else case position x ys of 0 \<Rightarrow> 0 | Suc n \<Rightarrow> Suc (Suc n))"

definition declared_key :: "(string \<times> string \<times> column_attribute) list \<Rightarrow> table_constraint list \<Rightarrow> string list" where
  "declared_key columns constraints =
     concat (map (\<lambda>(n, _, a). if a = PrimaryKeyNotNull then [n] else []) columns) @
     concat (map (\<lambda>k. case k of PrimaryKey ns \<Rightarrow> ns | _ \<Rightarrow> []) constraints)"

definition automatic_index :: "string \<Rightarrow> nat \<Rightarrow> string list \<Rightarrow> index_row" where
  "automatic_index t n columns =
     \<lparr>il_name = ''sqlite_autoindex_'' @ t @ ''_'' @ show_nat n, il_unique = True, il_partial = False,
      il_columns = zip [0..<length columns] (map Some columns), il_sql = None\<rparr>"

definition created_table ::
  "string \<Rightarrow> (string \<times> string \<times> column_attribute) list \<Rightarrow> table_constraint list \<Rightarrow> table" where
  "created_table t columns constraints =
     (let key = declared_key columns constraints;
          unique = key # concat (map (\<lambda>(n, _, a). if a = NotNullUnique then [[n]] else []) columns);
          foreign = concat (map (\<lambda>k. case k of ForeignKey fs target ts \<Rightarrow> [(fs, target, ts)] | _ \<Rightarrow> []) constraints)
      in \<lparr>tb_name = t,
          tb_columns = map (\<lambda>(n, ty, a). \<lparr>ci_name = n, ci_type = ty, ci_not_null = (a \<noteq> Plain), ci_pk = position n key\<rparr>) columns,
          tb_indexes = rev (map (\<lambda>(i, u). automatic_index t (i + 1) u) (enumerate 0 unique)),
          tb_foreign_keys = concat (map (\<lambda>(i, fs, target, ts).
            map (\<lambda>(j, f, to). \<lparr>fk_id = i, fk_seq = j, fk_table = target, fk_from = f, fk_to = Some to\<rparr>)
              (enumerate 0 (zip fs ts))) (enumerate 0 foreign))\<rparr>)"

definition created_index :: "string \<Rightarrow> string \<Rightarrow> string list \<Rightarrow> string \<Rightarrow> index_row" where
  "created_index name t columns condition =
     \<lparr>il_name = name, il_unique = True, il_partial = True,
      il_columns = zip [0..<length columns] (map Some columns),
      il_sql = Some (''CREATE UNIQUE INDEX '' @ name @ [CHR 0x0A] @ ''    ON '' @ t @ ''('' @
        join_str '', '' columns @ '')'' @ [CHR 0x0A] @ ''    WHERE '' @ condition)\<rparr>"

text \<open>Every statement says \<open>IF NOT EXISTS\<close>.\<close>

fun execute_statement :: "statement \<Rightarrow> catalog \<Rightarrow> catalog" where
  "execute_statement (CreateTable t columns constraints) c =
     (if table_named t c \<noteq> None then c
      else c\<lparr>ct_tables := ct_tables c @ [created_table t columns constraints]\<rparr>)"
| "execute_statement (CreateUniqueIndex name t columns condition) c =
     (if list_ex (\<lambda>tb. list_ex (\<lambda>ix. il_name ix = name) (tb_indexes tb)) (ct_tables c) then c
      else c\<lparr>ct_tables := map (\<lambda>tb. if tb_name tb = t
        then tb\<lparr>tb_indexes := created_index name t columns condition # tb_indexes tb\<rparr> else tb) (ct_tables c)\<rparr>)"

definition principals_columns :: "(string \<times> string \<times> column_attribute) list" where
  "principals_columns =
     [(''principal_id'', ''TEXT'', PrimaryKeyNotNull), (''label'', ''TEXT'', NotNull),
      (''token_hash'', ''TEXT'', NotNullUnique), (''allowed_pubkeys_json'', ''TEXT'', NotNull),
      (''allowed_kinds_json'', ''TEXT'', NotNull), (''allowed_target_policies_json'', ''TEXT'', NotNull),
      (''allowed_explicit_transport_kinds_json'', ''TEXT'', NotNull),
      (''allowed_nostr_source_policies_json'', ''TEXT'', NotNull),
      (''allow_request_targets'', ''INTEGER'', NotNull), (''job_visibility'', ''TEXT'', NotNull),
      (''expires_at_unix'', ''INTEGER'', Plain), (''revoked_at_unix'', ''INTEGER'', Plain),
      (''created_at_unix'', ''INTEGER'', NotNull)]"

definition jobs_columns :: "(string \<times> string \<times> column_attribute) list" where
  "jobs_columns =
     [(''job_id'', ''TEXT'', PrimaryKeyNotNull), (''principal_id'', ''TEXT'', NotNull),
      (''idempotency_key'', ''TEXT'', Plain), (''request_fingerprint'', ''TEXT'', NotNull),
      (''status'', ''TEXT'', NotNull), (''event_id'', ''TEXT'', NotNull), (''event_pubkey'', ''TEXT'', NotNull),
      (''event_kind'', ''INTEGER'', NotNull), (''target_policy_json'', ''TEXT'', NotNull),
      (''delivery_policy_json'', ''TEXT'', NotNull), (''requested_target_count'', ''INTEGER'', NotNull),
      (''effective_target_count'', ''INTEGER'', NotNull), (''request_json'', ''TEXT'', NotNull),
      (''requested_at_ms'', ''INTEGER'', NotNull), (''updated_at_ms'', ''INTEGER'', NotNull),
      (''completed_at_ms'', ''INTEGER'', Plain), (''last_error'', ''TEXT'', Plain)]"

definition results_columns :: "(string \<times> string \<times> column_attribute) list" where
  "results_columns =
     [(''job_id'', ''TEXT'', NotNull), (''transport_kind'', ''TEXT'', NotNull), (''endpoint_uri'', ''TEXT'', NotNull),
      (''target_scope'', ''TEXT'', NotNull), (''target_label'', ''TEXT'', Plain), (''source'', ''TEXT'', NotNull),
      (''attempted'', ''INTEGER'', NotNull), (''outcome_kind'', ''TEXT'', NotNull), (''message'', ''TEXT'', Plain),
      (''latency_ms'', ''INTEGER'', Plain), (''updated_at_ms'', ''INTEGER'', NotNull)]"

definition snapshots_columns :: "(string \<times> string \<times> column_attribute) list" where
  "snapshots_columns =
     [(''job_id'', ''TEXT'', NotNull), (''target_index'', ''INTEGER'', NotNull), (''transport_kind'', ''TEXT'', NotNull),
      (''endpoint_uri'', ''TEXT'', NotNull), (''target_scope'', ''TEXT'', NotNull), (''target_label'', ''TEXT'', Plain),
      (''source'', ''TEXT'', NotNull), (''attempted'', ''INTEGER'', NotNull), (''outcome_kind'', ''TEXT'', NotNull),
      (''message'', ''TEXT'', Plain), (''latency_ms'', ''INTEGER'', Plain), (''created_at_ms'', ''INTEGER'', NotNull)]"

definition cache_columns :: "(string \<times> string \<times> column_attribute) list" where
  "cache_columns =
     [(''pubkey'', ''TEXT'', PrimaryKeyNotNull), (''relays_json'', ''TEXT'', NotNull),
      (''updated_at_ms'', ''INTEGER'', NotNull)]"

definition transport_publish_schema_sql :: "statement list" where
  "transport_publish_schema_sql =
     [CreateTable ''transport_publish_principals'' principals_columns [],
      CreateTable ''transport_publish_jobs'' jobs_columns
        [ForeignKey [''principal_id''] ''transport_publish_principals'' [''principal_id'']],
      CreateUniqueIndex ''transport_publish_jobs_principal_idempotency_idx'' ''transport_publish_jobs''
        [''principal_id'', ''idempotency_key''] ''idempotency_key IS NOT NULL'',
      CreateTable ''transport_publish_target_results'' results_columns
        [PrimaryKey [''job_id'', ''transport_kind'', ''endpoint_uri'', ''target_scope''],
         ForeignKey [''job_id''] ''transport_publish_jobs'' [''job_id'']],
      CreateTable ''transport_publish_target_snapshots'' snapshots_columns
        [PrimaryKey [''job_id'', ''target_index''],
         ForeignKey [''job_id''] ''transport_publish_jobs'' [''job_id'']],
      CreateTable ''transport_publish_nostr_author_cache'' cache_columns []]"

definition execute_schema :: "statement list \<Rightarrow> catalog \<Rightarrow> catalog" where
  "execute_schema statements c = fold execute_statement statements c"

section \<open>Opening\<close>

record store_file =
  sf_catalog :: catalog
  sf_data :: database

definition new_file :: store_file where
  "new_file = \<lparr>sf_catalog = \<lparr>ct_tables = [], ct_user_version = 0, ct_foreign_keys = False\<rparr>, sf_data = empty_database\<rparr>"

text \<open>The catalog after the schema was prepared, and whether the store may be used.\<close>

definition prepare_schema :: "catalog \<Rightarrow> catalog \<times> (tp_error + unit)" where
  "prepare_schema c0 =
     (let c = c0\<lparr>ct_foreign_keys := True\<rparr> in
      case transport_publish_schema_state c of
        Inl e \<Rightarrow> (c, Inl e)
      | Inr Fresh \<Rightarrow>
          (let c' = (execute_schema transport_publish_schema_sql c)\<lparr>ct_user_version := 4\<rparr>
           in (c', validate_transport_publish_schema c'))
      | Inr Existing \<Rightarrow>
          (c, and_then (validate_transport_publish_schema_version c) (\<lambda>_. validate_transport_publish_schema c)))"

definition from_connection ::
  "publish_crates \<Rightarrow> codecs \<Rightarrow> int \<Rightarrow> store_file \<Rightarrow> store_file \<times> (tp_error + unit)" where
  "from_connection P K now f =
     (case prepare_schema (sf_catalog f) of
        (c, Inl e) \<Rightarrow> (f\<lparr>sf_catalog := c\<rparr>, Inl e)
      | (c, Inr _) \<Rightarrow>
          (case recover_interrupted_publish_jobs P K now (sf_data f) of
             (d, r) \<Rightarrow> (\<lparr>sf_catalog = c, sf_data = d\<rparr>, r)))"

section \<open>Numbered rows\<close>

text \<open>SQLite numbers the columns of a key; sorting the rows by the number gives the key.\<close>

lemma enumerate_set_eq_iff: "set (enumerate m xs) = set (enumerate m ys) \<longleftrightarrow> xs = ys"
proof
  assume *: "set (enumerate m xs) = set (enumerate m ys)"
  then have "fst ` set (enumerate m xs) = fst ` set (enumerate m ys)" by simp
  then have "{m..<m + length xs} = {m..<m + length ys}"
    by (simp add: enumerate_eq_zip flip: set_map)
  then have n: "length xs = length ys"
    by (metis card_atLeastLessThan diff_add_inverse)
  have "xs ! i = ys ! i" if i: "i < length xs" for i
  proof -
    have "(m + i, xs ! i) \<in> set (enumerate m xs)"
      unfolding in_set_enumerate_eq using i by simp
    then have "(m + i, xs ! i) \<in> set (enumerate m ys)" by (simp add: *)
    then show ?thesis unfolding in_set_enumerate_eq by simp
  qed
  then show "xs = ys" using n by (simp add: nth_equalityI)
qed simp

lemma sorted_enumerated:
  assumes "distinct xs" and "inj_on k (set xs)" and "k ` set xs = {m..<m + length xs}"
  shows "map g (sort_key k xs) = ys \<longleftrightarrow> (\<lambda>x. (k x, g x)) ` set xs = set (enumerate m ys)"
proof -
  let ?s = "sort_key k xs"
  have "distinct (map k ?s)" using assms by (simp add: distinct_map)
  then have "map k ?s = [m..<m + length xs]"
    using assms(3) by (intro sorted_distinct_set_unique) auto
  moreover have "map (\<lambda>x. (k x, g x)) zs = zip (map k zs) (map g zs)" for zs
    by (induction zs) auto
  ultimately have "map (\<lambda>x. (k x, g x)) ?s = enumerate m (map g ?s)"
    by (simp add: enumerate_eq_zip)
  then have "(\<lambda>x. (k x, g x)) ` set xs = set (enumerate m (map g ?s))"
    by (metis set_map set_sort)
  then show ?thesis by (metis enumerate_set_eq_iff)
qed

lemma columns_match_eq: "columns_match actual expected \<longleftrightarrow> actual = expected"
  by (auto simp: columns_match_def list_eq_iff_zip_eq list_all_iff)

lemma check_all_ok: "check_all f xs = Inr () \<longleftrightarrow> (\<forall>x \<in> set xs. f x = Inr ())"
  by (induction xs) (auto simp: and_then_eq_Inr)

text \<open>Grouping the rows of the foreign keys gives, for every identifier, its rows in their order.\<close>

definition fk_rows :: "nat \<Rightarrow> (fk_row \<times> string) list \<Rightarrow> (fk_row \<times> string) list" where
  "fk_rows i rows = filter (\<lambda>(r, _). fk_id r = i) rows"

lemma group_foreign_keys_props:
  "sorted_wrt (<) (map fst (group_foreign_keys rows)) \<and>
   map_of (group_foreign_keys rows) i =
     (case fk_rows i rows of [] \<Rightarrow> None
      | (r, _) # _ \<Rightarrow> Some (fk_table r, map (\<lambda>(r, to). (fk_seq r, fk_from r, to)) (fk_rows i rows)))"
proof (induction rows rule: rev_induct)
  case Nil
  then show ?case by (simp add: group_foreign_keys_def fk_rows_def)
next
  case (snoc x rows)
  obtain r to where x: "x = (r, to)" by force
  have step: "group_foreign_keys (rows @ [x]) =
      btree_entry (fk_id r) (fk_table r, []) (\<lambda>(target, columns). (target, columns @ [(fk_seq r, fk_from r, to)]))
        (group_foreign_keys rows)"
    by (simp add: group_foreign_keys_def x)
  have rows: "fk_rows i (rows @ [(r, to)]) = fk_rows i rows @ (if fk_id r = i then [(r, to)] else [])" for i
    by (simp add: fk_rows_def x)
  let ?m = "group_foreign_keys rows"
  have sorted: "sorted_wrt (<) (map fst ?m)" using snoc by blast
  show ?case
  proof (cases "fk_id r = i")
    case True
    then show ?thesis
      using snoc unfolding step map_of_btree_entry [OF sorted]
      by (cases "fk_rows i rows") (simp_all add: btree_entry_sorted x rows split: prod.split)
  next
    case False
    then show ?thesis
      using snoc unfolding step map_of_btree_entry [OF sorted]
      by (cases "fk_rows i rows") (simp_all add: btree_entry_sorted x rows split: prod.split)
  qed
qed

section \<open>What a valid schema is\<close>

text \<open>What SQLite guarantees of a catalog, and that it has no index on an expression and no
  foreign key that leaves its target columns out: rows are numbered, and columns have one name
  each.\<close>

definition numbered :: "nat \<Rightarrow> (nat \<times> 'a) list \<Rightarrow> bool" where
  "numbered m rows \<longleftrightarrow> distinct rows \<and> inj_on fst (set rows) \<and> fst ` set rows = {m..<m + length rows}"

definition fk_of :: "nat \<Rightarrow> table \<Rightarrow> fk_row list" where
  "fk_of i tb = filter (\<lambda>r. fk_id r = i) (tb_foreign_keys tb)"

definition key_rows :: "table \<Rightarrow> (nat \<times> string) list" where
  "key_rows tb = map (\<lambda>r. (ci_pk r, ci_name r)) (filter (\<lambda>r. 0 < ci_pk r) (tb_columns tb))"

definition table_wf :: "table \<Rightarrow> bool" where
  "table_wf tb \<longleftrightarrow>
     distinct (map ci_name (tb_columns tb)) \<and> numbered 1 (key_rows tb) \<and>
     (\<forall>ix \<in> set (tb_indexes tb). numbered 0 (il_columns ix) \<and> None \<notin> snd ` set (il_columns ix)) \<and>
     (\<forall>r \<in> set (tb_foreign_keys tb). fk_to r \<noteq> None) \<and>
     (\<forall>r \<in> set (tb_foreign_keys tb). \<forall>s \<in> set (tb_foreign_keys tb). fk_id r = fk_id s \<longrightarrow> fk_table r = fk_table s) \<and>
     (\<forall>i. numbered 0 (map (\<lambda>r. (fk_seq r, r)) (fk_of i tb)))"

definition catalog_wf :: "catalog \<Rightarrow> bool" where
  "catalog_wf c \<longleftrightarrow> (\<forall>tb \<in> set (ct_tables c). table_wf tb) \<and>
     distinct (map (to_ascii_lowercase \<circ> tb_name) (ct_tables c))"

text \<open>The reference: what the tables must be, without the order in which they are read.\<close>

definition column_present :: "table \<Rightarrow> required_column \<Rightarrow> bool" where
  "column_present tb r \<longleftrightarrow> (\<exists>row \<in> set (tb_columns tb). ci_name row = rc_name r \<and>
     to_ascii_uppercase (ci_type row) = rc_type r \<and> ci_not_null row = rc_not_null r)"

definition foreign_key_present :: "table \<Rightarrow> string list \<times> string \<times> string list \<Rightarrow> bool" where
  "foreign_key_present tb k \<longleftrightarrow> (case k of (from, target, to) \<Rightarrow>
     \<exists>i. fk_of i tb \<noteq> [] \<and> (\<forall>r \<in> set (fk_of i tb). fk_table r = target) \<and>
       (\<lambda>r. (fk_seq r, fk_from r)) ` set (fk_of i tb) = set (enumerate 0 from) \<and>
       (\<lambda>r. (fk_seq r, fk_to r)) ` set (fk_of i tb) = set (enumerate 0 (map Some to)))"

definition unique_index_present :: "table \<Rightarrow> string list \<times> string option \<Rightarrow> bool" where
  "unique_index_present tb u \<longleftrightarrow> (case u of (columns, partial_where) \<Rightarrow>
     \<exists>ix \<in> set (tb_indexes tb). il_unique ix \<and> il_partial ix = (partial_where \<noteq> None) \<and>
       set (il_columns ix) = set (enumerate 0 (map Some columns)) \<and>
       (\<forall>w. partial_where = Some w \<longrightarrow> (\<exists>before after. normalized_sql (case il_sql ix of Some sql \<Rightarrow> sql | None \<Rightarrow> []) =
          before @ normalized_sql w @ after)))"

definition table_meets :: "table \<Rightarrow> required_table \<Rightarrow> bool" where
  "table_meets tb rt \<longleftrightarrow>
     ci_name ` set (tb_columns tb) = rc_name ` set (rt_columns rt) \<and>
     (\<forall>r \<in> set (rt_columns rt). column_present tb r) \<and>
     set (key_rows tb) = set (enumerate 1 (rt_primary_key rt)) \<and>
     (\<forall>k \<in> set (rt_foreign_keys rt). foreign_key_present tb k) \<and>
     (\<forall>u \<in> set (rt_unique rt). unique_index_present tb u)"

definition schema_ok :: "catalog \<Rightarrow> bool" where
  "schema_ok c \<longleftrightarrow> ct_foreign_keys c \<and>
     (\<forall>rt \<in> set required_tables. \<exists>tb \<in> set (ct_tables c). tb_name tb = rt_name rt \<and> table_meets tb rt)"

section \<open>Validation and reference agree\<close>

lemma table_named_iff:
  assumes "catalog_wf c"
  shows "table_named t c = Some tb \<longleftrightarrow> tb \<in> set (ct_tables c) \<and> to_ascii_lowercase (tb_name tb) = to_ascii_lowercase t"
proof -
  have "distinct (map (to_ascii_lowercase \<circ> tb_name) tbs) \<Longrightarrow>
      find (\<lambda>tb. to_ascii_lowercase (tb_name tb) = to_ascii_lowercase t) tbs = Some tb \<longleftrightarrow>
      tb \<in> set tbs \<and> to_ascii_lowercase (tb_name tb) = to_ascii_lowercase t" for tbs
    by (induction tbs) (auto simp: rev_image_eqI)
  then show ?thesis using assms by (simp add: table_named_def catalog_wf_def)
qed

lemma table_wf_named: "catalog_wf c \<Longrightarrow> table_named t c = Some tb \<Longrightarrow> table_wf tb"
  using table_named_iff [of c t tb] by (simp add: catalog_wf_def)

lemma columns_valid_iff:
  assumes "catalog_wf c" and "table_named t c = Some tb" and "distinct (map rc_name rs)" and "rs \<noteq> []"
  shows "validate_table_columns c t rs = Inr () \<longleftrightarrow>
    ci_name ` set (tb_columns tb) = rc_name ` set rs \<and> (\<forall>r \<in> set rs. column_present tb r)"
proof -
  let ?info = "\<lambda>r. (ci_name r, \<lparr>cl_type = to_ascii_uppercase (ci_type r), cl_not_null = ci_not_null r, cl_pk = ci_pk r\<rparr>)"
  let ?cols = "table_columns t c"
  have wf: "distinct (map ci_name (tb_columns tb))"
    using table_wf_named [OF assms(1,2)] by (simp add: table_wf_def)
  have cols: "?cols = btree_of (map ?info (tb_columns tb))" by (simp add: table_columns_def pragma_def assms(2))
  then have set: "set ?cols = ?info ` set (tb_columns tb)"
    using btree_set_distinct [of "map ?info (tb_columns tb)"] wf by (simp add: comp_def)
  have dist: "distinct (map fst ?cols)" unfolding cols by (rule btree_distinct)
  then have look: "map_of ?cols n = Some col \<longleftrightarrow> (n, col) \<in> set ?cols" for n col by simp
  have check: "check_columns t ?cols qs = Inr () \<longleftrightarrow> (\<forall>r \<in> set qs. column_present tb r)" for qs
  proof (induction qs)
    case (Cons q qs)
    have "column_present tb q \<longleftrightarrow> (\<exists>col. map_of ?cols (rc_name q) = Some col \<and> cl_type col = rc_type q \<and> cl_not_null col = rc_not_null q)"
      unfolding look set by (force simp: column_present_def)
    then show ?case using Cons by (auto split: option.split)
  qed simp
  have keys: "fst ` set ?cols = ci_name ` set (tb_columns tb)" by (simp add: set image_image)
  have "length ?cols = card (ci_name ` set (tb_columns tb))"
    using dist keys by (metis distinct_card length_map list.set_map)
  moreover have "length rs = card (rc_name ` set rs)" using assms(3) by (metis distinct_card length_map list.set_map)
  moreover have "rc_name ` set rs \<subseteq> ci_name ` set (tb_columns tb)" if "\<forall>r \<in> set rs. column_present tb r"
    using that by (force simp: column_present_def)
  ultimately have "(\<forall>r \<in> set rs. column_present tb r) \<Longrightarrow>
      length ?cols = length rs \<longleftrightarrow> ci_name ` set (tb_columns tb) = rc_name ` set rs"
    by (metis List.finite_set card_subset_eq finite_imageI)
  moreover have "?cols \<noteq> []" if "\<forall>r \<in> set rs. column_present tb r"
    using that assms(4) set by (cases rs) (auto simp: column_present_def)
  ultimately show ?thesis
    by (auto simp: validate_table_columns_def Let_def and_then_eq_Inr check)
qed

lemma numberedD: "numbered m rows \<Longrightarrow> map snd (sort_key fst rows) = ys \<longleftrightarrow> set rows = set (enumerate m ys)"
  using sorted_enumerated [of rows fst m snd ys] by (simp add: numbered_def)

lemma numbered_set:
  assumes "set rows = set rows'" and "distinct rows" and "numbered m rows'"
  shows "numbered m rows"
  using assms distinct_card [of rows] distinct_card [of rows'] by (auto simp: numbered_def)

lemma primary_key_valid_iff:
  assumes "catalog_wf c" and "table_named t c = Some tb"
  shows "validate_primary_key c t key = Inr () \<longleftrightarrow> set (key_rows tb) = set (enumerate 1 key)"
proof -
  let ?info = "\<lambda>r. (ci_name r, \<lparr>cl_type = to_ascii_uppercase (ci_type r), cl_not_null = ci_not_null r, cl_pk = ci_pk r\<rparr>)"
  let ?cols = "table_columns t c"
  let ?pk = "filter (\<lambda>(name, col). 0 < cl_pk col) ?cols"
  let ?swap = "\<lambda>(name, col). (cl_pk col, name)"
  have wf: "distinct (map ci_name (tb_columns tb))" "numbered 1 (key_rows tb)"
    using table_wf_named [OF assms(1,2)] by (simp_all add: table_wf_def)
  have cols: "?cols = btree_of (map ?info (tb_columns tb))" by (simp add: table_columns_def pragma_def assms(2))
  then have set: "set ?cols = ?info ` set (tb_columns tb)"
    using btree_set_distinct [of "map ?info (tb_columns tb)"] wf(1) by (simp add: comp_def)
  have names: "distinct (map fst ?pk)"
    using btree_distinct [of "map ?info (tb_columns tb)"] unfolding cols [symmetric] by (simp add: distinct_map_filter)
  have "set ?pk = ?info ` {r \<in> set (tb_columns tb). 0 < ci_pk r}" by (auto simp: set)
  then have "set (map ?swap ?pk) = set (key_rows tb)"
    by (simp add: key_rows_def image_image)
  moreover have "distinct (map ?swap ?pk)"
    using names by (auto simp: distinct_map inj_on_def)
  ultimately have num: "numbered 1 (map ?swap ?pk)" "set (map ?swap ?pk) = set (key_rows tb)"
    using numbered_set [OF _ _ wf(2)] by blast+
  have "map fst (sort_key (\<lambda>(name, col). cl_pk col) ?pk) = map snd (map ?swap (sort_key (\<lambda>x. fst (?swap x)) ?pk))"
    by (auto simp: comp_def case_prod_unfold)
  also have "\<dots> = map snd (sort_key fst (map ?swap ?pk))" by (simp only: sort_key_map)
  finally have "map fst (sort_key (\<lambda>(name, col). cl_pk col) ?pk) = key \<longleftrightarrow> set (key_rows tb) = set (enumerate 1 key)"
    using numberedD [OF num(1), of key] num(2) by simp
  then show ?thesis by (simp add: validate_primary_key_def Let_def)
qed

lemma collect_text_columns:
  "\<forall>r \<in> set rows. f r \<noteq> None \<Longrightarrow>
     collect_results (\<lambda>r. map_ok (g r) (text_column n (f r))) rows = Inr (map (\<lambda>r. g r (the (f r))) rows)"
  by (rule collect_results_map) (auto simp: text_column_def)

lemma map_the_eq_iff:
  assumes "\<forall>x \<in> set xs. f x \<noteq> None"
  shows "map (the \<circ> f) xs = ys \<longleftrightarrow> map f xs = map Some ys"
proof -
  have "map f xs = map Some (map (the \<circ> f) xs)" using assms by auto
  then show ?thesis by (simp only: inj_map_eq_map [OF inj_Some])
qed

lemma foreign_key_valid_iff:
  assumes "catalog_wf c" and "table_named t c = Some tb"
    and "from \<noteq> []" and "length from = length to"
  shows "validate_foreign_key c t (from, target, to) = Inr () \<longleftrightarrow> foreign_key_present tb (from, target, to)"
proof -
  have wf: "\<forall>r \<in> set (tb_foreign_keys tb). fk_to r \<noteq> None"
    "\<forall>r \<in> set (tb_foreign_keys tb). \<forall>s \<in> set (tb_foreign_keys tb). fk_id r = fk_id s \<longrightarrow> fk_table r = fk_table s"
    "\<And>i. numbered 0 (map (\<lambda>r. (fk_seq r, r)) (fk_of i tb))"
    using table_wf_named [OF assms(1,2)] unfolding table_wf_def by blast+
  let ?rows = "map (\<lambda>r. (r, the (fk_to r))) (tb_foreign_keys tb)"
  let ?groups = "group_foreign_keys ?rows"
  have rows: "fk_rows i ?rows = map (\<lambda>r. (r, the (fk_to r))) (fk_of i tb)" for i
    by (simp add: fk_rows_def fk_of_def filter_map comp_def)
  have dist: "distinct (map fst ?groups)"
    using group_foreign_keys_props [of ?rows] strict_sorted_iff by blast
  have mem: "(i, tg, cs) \<in> set ?groups \<longleftrightarrow> fk_of i tb \<noteq> [] \<and> (\<forall>r \<in> set (fk_of i tb). fk_table r = tg) \<and>
      cs = map (\<lambda>r. (fk_seq r, fk_from r, the (fk_to r))) (fk_of i tb)" for i tg cs
  proof -
    have look: "(i, tg, cs) \<in> set ?groups \<longleftrightarrow> map_of ?groups i = Some (tg, cs)" using dist by simp
    show ?thesis
    proof (cases "fk_of i tb")
      case Nil
      then have "map_of ?groups i = None" using group_foreign_keys_props [of ?rows i] unfolding rows by simp
      then show ?thesis by (simp add: look Nil)
    next
      case (Cons r rs)
      then have *: "map_of ?groups i = Some (fk_table r, map (\<lambda>r. (fk_seq r, fk_from r, the (fk_to r))) (fk_of i tb))"
        using group_foreign_keys_props [of ?rows i] unfolding rows by (simp add: comp_def)
      have "fk_table s = fk_table r" if "s \<in> set (fk_of i tb)" for s
      proof -
        have "r \<in> set (fk_of i tb)" by (simp add: Cons)
        then show ?thesis using that wf(2) by (auto simp: fk_of_def)
      qed
      moreover have "r \<in> set (fk_of i tb)" and ne: "fk_of i tb \<noteq> []" by (simp_all add: Cons)
      ultimately have target: "(\<forall>s \<in> set (fk_of i tb). fk_table s = tg) \<longleftrightarrow> fk_table r = tg" by blast
      show ?thesis unfolding look * target option.inject prod.inject using ne by blast
    qed
  qed
  let ?key = "\<lambda>r. (fk_seq r, fk_from r, the (fk_to r))"
  have "sort_key fst (map ?key xs) = map ?key (sort_key fk_seq xs)" for xs :: "fk_row list"
    using sort_key_map [of fst ?key xs] by simp
  then have keys: "map (\<lambda>(_, f, _). f) (sort_key fst (map ?key xs)) = map fk_from (sort_key fk_seq xs)"
    "map (\<lambda>(_, _, to). to) (sort_key fst (map ?key xs)) = map (the \<circ> fk_to) (sort_key fk_seq xs)" for xs :: "fk_row list"
    by (simp_all add: comp_def)
  have sorted: "map g (sort_key fk_seq (fk_of i tb)) = ys \<longleftrightarrow> (\<lambda>r. (fk_seq r, g r)) ` set (fk_of i tb) = set (enumerate 0 ys)"
    for g :: "fk_row \<Rightarrow> 'b" and i ys
  proof (rule sorted_enumerated)
    let ?ns = "map (\<lambda>r. (fk_seq r, r)) (fk_of i tb)"
    show "distinct (fk_of i tb)" using wf(3) [of i] by (simp add: numbered_def distinct_map)
    show "inj_on fk_seq (set (fk_of i tb))" using wf(3) [of i] by (auto simp: numbered_def inj_on_def)
    show "fk_seq ` set (fk_of i tb) = {0..<0 + length (fk_of i tb)}"
      using wf(3) [of i] by (simp add: numbered_def image_image)
  qed
  have to: "map (the \<circ> fk_to) (sort_key fk_seq (fk_of i tb)) = to \<longleftrightarrow>
      (\<lambda>r. (fk_seq r, fk_to r)) ` set (fk_of i tb) = set (enumerate 0 (map Some to))" for i
  proof -
    have *: "\<forall>r \<in> set (sort_key fk_seq (fk_of i tb)). fk_to r \<noteq> None" using wf(1) by (simp add: fk_of_def)
    show ?thesis unfolding map_the_eq_iff [OF *] by (rule sorted)
  qed
  have "foreign_keys c t = Inr (map (\<lambda>(_, target, columns).
       \<lparr>fe_target_table = target, fe_from_columns = map (\<lambda>(_, from, _). from) (sort_key fst columns),
        fe_to_columns = map (\<lambda>(_, _, to). to) (sort_key fst columns)\<rparr>) ?groups)"
    using collect_text_columns [of "tb_foreign_keys tb" fk_to Pair 4] wf(1)
    by (simp add: foreign_keys_def pragma_def assms(2))
  then have "validate_foreign_key c t (from, target, to) = Inr () \<longleftrightarrow>
      (\<exists>p \<in> set ?groups. fst (snd p) = target \<and> map (\<lambda>(_, f, _). f) (sort_key fst (snd (snd p))) = from \<and>
         map (\<lambda>(_, _, to). to) (sort_key fst (snd (snd p))) = to)"
    by (simp add: validate_foreign_key_def columns_match_eq list_ex_iff case_prod_unfold)
  also have "\<dots> \<longleftrightarrow> (\<exists>i tg cs. (i, tg, cs) \<in> set ?groups \<and> tg = target \<and>
      map (\<lambda>(_, f, _). f) (sort_key fst cs) = from \<and> map (\<lambda>(_, _, to). to) (sort_key fst cs) = to)"
    by (simp only: Bex_def split_paired_Ex fst_conv snd_conv)
  also have "\<dots> \<longleftrightarrow> (\<exists>i. fk_of i tb \<noteq> [] \<and> (\<forall>r \<in> set (fk_of i tb). fk_table r = target) \<and>
      map fk_from (sort_key fk_seq (fk_of i tb)) = from \<and> map (the \<circ> fk_to) (sort_key fk_seq (fk_of i tb)) = to)"
    by (auto simp: mem keys)
  finally show ?thesis unfolding to unfolding sorted foreign_key_present_def prod.case .
qed

lemma index_columns_eq_iff:
  assumes "numbered 0 (il_columns ix)" and "None \<notin> snd ` set (il_columns ix)"
  shows "\<exists>columns. index_columns ix = Inr columns \<and>
    (columns = expected \<longleftrightarrow> set (il_columns ix) = set (enumerate 0 (map Some expected)))"
proof -
  let ?cs = "sort_key fst (il_columns ix)"
  let ?the = "\<lambda>(p, n). (p, the n)"
  have some: "\<forall>r \<in> set (il_columns ix). snd r \<noteq> None" using assms(2) by force
  have "index_columns ix = Inr (map snd (sort_key fst (map ?the (il_columns ix))))"
    using collect_text_columns [of "il_columns ix" snd "\<lambda>r. Pair (fst r)" 2] some
    by (simp add: index_columns_def case_prod_unfold)
  also have "sort_key fst (map ?the (il_columns ix)) = map ?the ?cs"
    using sort_key_map [of fst ?the "il_columns ix"] by (simp add: case_prod_unfold)
  also have "map snd (map ?the ?cs) = map (the \<circ> snd) ?cs" by (simp add: comp_def case_prod_unfold)
  finally have columns: "index_columns ix = Inr (map (the \<circ> snd) ?cs)" .
  have *: "\<forall>r \<in> set ?cs. snd r \<noteq> None" using some by simp
  have "map (the \<circ> snd) ?cs = expected \<longleftrightarrow> set (il_columns ix) = set (enumerate 0 (map Some expected))"
    unfolding map_the_eq_iff [OF *] by (rule numberedD [OF assms(1)])
  with columns show ?thesis by blast
qed

lemma unique_index_valid_iff:
  assumes "catalog_wf c" and "tb \<in> set (ct_tables c)"
  shows "validate_unique_index c (tb_name tb) (expected, w) = Inr () \<longleftrightarrow> unique_index_present tb (expected, w)"
proof -
  have named: "table_named (tb_name tb) c = Some tb" using assms table_named_iff by blast
  have wf: "\<forall>ix \<in> set (tb_indexes tb). numbered 0 (il_columns ix) \<and> None \<notin> snd ` set (il_columns ix)"
    using assms by (simp add: catalog_wf_def table_wf_def)
  let ?fits = "\<lambda>ix. il_unique ix \<and> il_partial ix = (w \<noteq> None) \<and>
       set (il_columns ix) = set (enumerate 0 (map Some expected)) \<and>
       (\<forall>v. w = Some v \<longrightarrow> (\<exists>before after. normalized_sql (case il_sql ix of Some sql \<Rightarrow> sql | None \<Rightarrow> []) =
          before @ normalized_sql v @ after))"
  have "where": "index_sql_contains_where c (tb_name tb) ix v \<longleftrightarrow>
      (\<exists>before after. normalized_sql (case il_sql ix of Some sql \<Rightarrow> sql | None \<Rightarrow> []) = before @ normalized_sql v @ after)"
    if "ix \<in> set (tb_indexes tb)" for ix v
  proof -
    have "list_ex (\<lambda>tb'. tb_name tb' = tb_name tb \<and> ix \<in> set (tb_indexes tb')) (ct_tables c)"
      using assms(2) that by (auto simp: list_ex_iff)
    then have "(case il_sql ix of Some sql \<Rightarrow> (if list_ex (\<lambda>tb'. tb_name tb' = tb_name tb \<and> ix \<in> set (tb_indexes tb')) (ct_tables c) then sql else [])
        | None \<Rightarrow> []) = (case il_sql ix of Some sql \<Rightarrow> sql | None \<Rightarrow> [])"
      by (simp split: option.split)
    then show ?thesis by (simp only: index_sql_contains_where_def contains_str_iff sublist_def)
  qed
  have "set ixs \<subseteq> set (tb_indexes tb) \<Longrightarrow> find_unique_index c (tb_name tb) expected w ixs = Inr (\<exists>ix \<in> set ixs. ?fits ix)" for ixs
  proof (induction ixs)
    case (Cons ix ixs)
    then have ix: "ix \<in> set (tb_indexes tb)" by simp
    obtain columns where columns: "index_columns ix = Inr columns"
        "columns = expected \<longleftrightarrow> set (il_columns ix) = set (enumerate 0 (map Some expected))"
      using index_columns_eq_iff [of ix expected] wf ix by blast
    have fits: "(il_unique ix \<and> il_partial ix = (w \<noteq> None) \<and> columns_match columns expected \<and>
        (case w of None \<Rightarrow> True | Some v \<Rightarrow> index_sql_contains_where c (tb_name tb) ix v)) = ?fits ix"
      unfolding columns_match_eq columns(2) by (simp add: "where" [OF ix] split: option.split)
    have IH: "find_unique_index c (tb_name tb) expected w ixs = Inr (\<exists>ix \<in> set ixs. ?fits ix)"
      using Cons by simp
    have "find_unique_index c (tb_name tb) expected w (ix # ixs) =
        (if il_unique ix \<and> il_partial ix = (w \<noteq> None) \<and> columns_match columns expected \<and>
          (case w of None \<Rightarrow> True | Some v \<Rightarrow> index_sql_contains_where c (tb_name tb) ix v)
         then Inr True else find_unique_index c (tb_name tb) expected w ixs)"
      by (cases "il_unique ix"; cases "il_partial ix"; cases w) (simp_all add: columns(1))
    also have "\<dots> = (if ?fits ix then Inr True else Inr (\<exists>ix \<in> set ixs. ?fits ix))"
      by (simp only: fits IH)
    also have "\<dots> = Inr (\<exists>ix \<in> set (ix # ixs). ?fits ix)"
      by (simp only: list.set bex_simps split: if_split) blast
    finally show ?case .
  qed simp
  from this [of "tb_indexes tb"] show ?thesis
    by (simp add: validate_unique_index_def unique_index_present_def pragma_def named)
qed

text \<open>The requirements themselves are well formed.\<close>

lemma required_tables_ok:
  assumes "rt \<in> set required_tables"
  shows "distinct (map rc_name (rt_columns rt))" and "rt_columns rt \<noteq> []"
    and "\<forall>(from, _, to) \<in> set (rt_foreign_keys rt). from \<noteq> [] \<and> length from = length to"
  using assms
  by (auto simp: required_tables_def principals_table_def jobs_table_def results_table_def snapshots_table_def
      author_cache_table_def text_not_null_def text_nullable_def integer_not_null_def integer_nullable_def)

lemma validate_table_iff:
  assumes "catalog_wf c" and "rt \<in> set required_tables" and "tb \<in> set (ct_tables c)" and "tb_name tb = rt_name rt"
  shows "validate_table c rt = Inr () \<longleftrightarrow> table_meets tb rt"
proof -
  have named: "table_named (rt_name rt) c = Some tb" using assms table_named_iff by auto
  have "(\<forall>k \<in> set (rt_foreign_keys rt). validate_foreign_key c (rt_name rt) k = Inr ()) \<longleftrightarrow>
      (\<forall>k \<in> set (rt_foreign_keys rt). foreign_key_present tb k)"
    using foreign_key_valid_iff [OF assms(1) named] required_tables_ok(3) [OF assms(2)] by fastforce
  moreover have "(\<forall>u \<in> set (rt_unique rt). validate_unique_index c (rt_name rt) u = Inr ()) \<longleftrightarrow>
      (\<forall>u \<in> set (rt_unique rt). unique_index_present tb u)"
    using unique_index_valid_iff [OF assms(1,3)] assms(4) by (metis surj_pair)
  ultimately show ?thesis
    using columns_valid_iff [OF assms(1) named required_tables_ok(1,2) [OF assms(2)]]
      primary_key_valid_iff [OF assms(1) named]
    by (auto simp: validate_table_def table_meets_def and_then_eq_Inr check_all_ok)
qed

lemma schema_validation_iff:
  assumes "catalog_wf c"
  shows "validate_transport_publish_schema c = Inr () \<longleftrightarrow> schema_ok c"
proof -
  have present: "validate_table_present c t = Inr () \<longleftrightarrow> (\<exists>tb \<in> set (ct_tables c). tb_name tb = t)" for t
    by (auto simp: validate_table_present_def list_ex_iff)
  have "(validate_table c rt = Inr () \<and> validate_table_present c (rt_name rt) = Inr ()) \<longleftrightarrow>
      (\<exists>tb \<in> set (ct_tables c). tb_name tb = rt_name rt \<and> table_meets tb rt)"
    if "rt \<in> set required_tables" for rt
  proof -
    have "tb = tb'" if "tb \<in> set (ct_tables c)" "tb' \<in> set (ct_tables c)" "tb_name tb = tb_name tb'" for tb tb'
      using assms that by (auto simp: catalog_wf_def distinct_map inj_on_def)
    then show ?thesis
      unfolding present using validate_table_iff [OF assms that] by blast
  qed
  then show ?thesis
    by (auto simp: validate_transport_publish_schema_def validate_foreign_keys_enabled_def schema_ok_def
        and_then_eq_Inr check_all_ok)
qed

section \<open>The schema the daemon creates\<close>

lemma table_names_lower:
  "to_ascii_lowercase ''transport_publish_principals'' = ''transport_publish_principals''"
  "to_ascii_lowercase ''transport_publish_jobs'' = ''transport_publish_jobs''"
  "to_ascii_lowercase ''transport_publish_target_results'' = ''transport_publish_target_results''"
  "to_ascii_lowercase ''transport_publish_target_snapshots'' = ''transport_publish_target_snapshots''"
  "to_ascii_lowercase ''transport_publish_nostr_author_cache'' = ''transport_publish_nostr_author_cache''"
  by (simp_all add: to_ascii_lowercase_def)

lemma type_names_upper:
  "to_ascii_uppercase ''TEXT'' = ''TEXT''" "to_ascii_uppercase ''INTEGER'' = ''INTEGER''"
  by (simp_all add: to_ascii_uppercase_def)

lemma execute_simps:
  "execute_schema [] c = c"
  "execute_schema (st # sts) c = execute_schema sts (execute_statement st c)"
  by (simp_all add: execute_schema_def)

lemma created_table_name [simp]: "tb_name (created_table t columns constraints) = t"
  by (simp add: created_table_def Let_def)

lemma automatic_index_name:
  "ix \<in> set (tb_indexes (created_table t columns constraints)) \<Longrightarrow> \<exists>rest. il_name ix = ''sqlite_autoindex_'' @ rest"
  by (auto simp: created_table_def Let_def automatic_index_def)

definition fresh_catalog :: catalog where
  "fresh_catalog = \<lparr>ct_tables = [], ct_user_version = 0, ct_foreign_keys = True\<rparr>"

definition idempotency_index :: index_row where
  "idempotency_index = created_index ''transport_publish_jobs_principal_idempotency_idx'' ''transport_publish_jobs''
     [''principal_id'', ''idempotency_key''] ''idempotency_key IS NOT NULL''"

definition schema_tables :: "table list" where
  "schema_tables =
     [created_table ''transport_publish_principals'' principals_columns [],
      (let jobs = created_table ''transport_publish_jobs'' jobs_columns
         [ForeignKey [''principal_id''] ''transport_publish_principals'' [''principal_id'']]
       in jobs\<lparr>tb_indexes := idempotency_index # tb_indexes jobs\<rparr>),
      created_table ''transport_publish_target_results'' results_columns
        [PrimaryKey [''job_id'', ''transport_kind'', ''endpoint_uri'', ''target_scope''],
         ForeignKey [''job_id''] ''transport_publish_jobs'' [''job_id'']],
      created_table ''transport_publish_target_snapshots'' snapshots_columns
        [PrimaryKey [''job_id'', ''target_index''], ForeignKey [''job_id''] ''transport_publish_jobs'' [''job_id'']],
      created_table ''transport_publish_nostr_author_cache'' cache_columns []]"

lemma no_index_yet:
  "\<not> list_ex (\<lambda>ix. il_name ix = ''transport_publish_jobs_principal_idempotency_idx'')
     (tb_indexes (created_table t columns constraints))"
  by (auto simp: list_ex_iff dest!: automatic_index_name)

lemma schema_created:
  "execute_schema transport_publish_schema_sql fresh_catalog = fresh_catalog\<lparr>ct_tables := schema_tables\<rparr>"
  by (simp add: transport_publish_schema_sql_def fresh_catalog_def execute_simps table_named_def
      table_names_lower no_index_yet schema_tables_def idempotency_index_def Let_def)

lemmas created_defs = created_table_def Let_def declared_key_def automatic_index_def enumerate_eq_zip
  principals_columns_def jobs_columns_def results_columns_def snapshots_columns_def cache_columns_def

lemmas required_defs = principals_table_def jobs_table_def results_table_def snapshots_table_def
  author_cache_table_def text_not_null_def text_nullable_def integer_not_null_def integer_nullable_def

lemma principals_meets: "table_meets (created_table ''transport_publish_principals'' principals_columns []) principals_table"
  by (simp add: table_meets_def created_defs required_defs column_present_def type_names_upper key_rows_def
     unique_index_present_def)

lemma split_words:
  assumes "list_all (\<lambda>(w, gap). list_all plain_char w \<and> w \<noteq> [] \<and> list_all blank gap \<and> gap \<noteq> []) ws"
  shows "split_whitespace (concat (map (\<lambda>(w, gap). w @ gap) ws) @ s) = map fst ws @ split_whitespace s"
  using assms
proof (induction ws)
  case (Cons p ws)
  obtain w g gs where p: "p = (w, g # gs)" using Cons.prems by (cases p; cases "snd p") auto
  have gap: "list_all blank gs \<Longrightarrow> split_whitespace (gs @ t) = split_whitespace t" for gs t
    by (induction gs) (simp_all add: split_whitespace_blank)
  show ?case
    using Cons p by (simp add: split_whitespace_word gap)
qed simp

lemma index_sql_normalized:
  "normalized_sql ''WHERE idempotency_key IS NOT NULL'' = ''WHERE IDEMPOTENCY_KEY IS NOT NULL''"
  "\<exists>sql before. il_sql idempotency_index = Some sql \<and> normalized_sql sql = before @ ''WHERE IDEMPOTENCY_KEY IS NOT NULL''"
proof -
  have "split_whitespace (concat (map (\<lambda>(w, gap). w @ gap)
      [(''WHERE'', '' ''), (''idempotency_key'', '' ''), (''IS'', '' ''), (''NOT'', '' '')]) @ ''NULL'') =
      [''WHERE'', ''idempotency_key'', ''IS'', ''NOT''] @ split_whitespace ''NULL''"
    by (subst split_words) (simp_all add: plain_char_def blank_def)
  then show "normalized_sql ''WHERE idempotency_key IS NOT NULL'' = ''WHERE IDEMPOTENCY_KEY IS NOT NULL''"
    by (simp add: normalized_sql_def to_ascii_uppercase_def char_of_def bit_0 split_whitespace_plain plain_char_def)
  have "split_whitespace (concat (map (\<lambda>(w, gap). w @ gap)
      [(''CREATE'', '' ''), (''UNIQUE'', '' ''), (''INDEX'', '' ''),
       (''transport_publish_jobs_principal_idempotency_idx'', [CHR 0x0A] @ ''    ''), (''ON'', '' ''),
       (''transport_publish_jobs(principal_id,'', '' ''), (''idempotency_key)'', [CHR 0x0A] @ ''    ''),
       (''WHERE'', '' ''), (''idempotency_key'', '' ''), (''IS'', '' ''), (''NOT'', '' '')]) @ ''NULL'') =
      [''CREATE'', ''UNIQUE'', ''INDEX'', ''transport_publish_jobs_principal_idempotency_idx'', ''ON'',
       ''transport_publish_jobs(principal_id,'', ''idempotency_key)'', ''WHERE'', ''idempotency_key'', ''IS'', ''NOT''] @
       split_whitespace ''NULL''"
    by (subst split_words) (simp_all add: plain_char_def blank_def)
  then have "normalized_sql (the (il_sql idempotency_index)) =
    ''CREATE UNIQUE INDEX TRANSPORT_PUBLISH_JOBS_PRINCIPAL_IDEMPOTENCY_IDX ON TRANSPORT_PUBLISH_JOBS(PRINCIPAL_ID, IDEMPOTENCY_KEY) '' @
    ''WHERE IDEMPOTENCY_KEY IS NOT NULL''"
    by (simp add: normalized_sql_def to_ascii_uppercase_def char_of_def bit_0 split_whitespace_plain plain_char_def
        idempotency_index_def created_index_def)
  moreover have "\<exists>sql. il_sql idempotency_index = Some sql"
    by (simp add: idempotency_index_def created_index_def)
  ultimately show "\<exists>sql before. il_sql idempotency_index = Some sql \<and> normalized_sql sql = before @ ''WHERE IDEMPOTENCY_KEY IS NOT NULL''"
    by (metis option.sel)
qed

lemma jobs_meets:
  "table_meets (schema_tables ! 1) jobs_table"
proof -
  let ?jobs = "created_table ''transport_publish_jobs'' jobs_columns
         [ForeignKey [''principal_id''] ''transport_publish_principals'' [''principal_id'']]"
  have tb: "schema_tables ! 1 = ?jobs\<lparr>tb_indexes := idempotency_index # tb_indexes ?jobs\<rparr>"
    by (simp add: schema_tables_def Let_def)
  obtain sql before where sql: "il_sql idempotency_index = Some sql"
      "normalized_sql sql = before @ ''WHERE IDEMPOTENCY_KEY IS NOT NULL''"
    using index_sql_normalized(2) by blast
  have "unique_index_present (schema_tables ! 1) ([''principal_id'', ''idempotency_key''], Some ''WHERE idempotency_key IS NOT NULL'')"
    unfolding tb unique_index_present_def prod.case
  proof (rule bexI [of _ idempotency_index], intro conjI allI impI)
    fix v assume "Some ''WHERE idempotency_key IS NOT NULL'' = Some v"
    then have "normalized_sql v = ''WHERE IDEMPOTENCY_KEY IS NOT NULL''" using index_sql_normalized(1) by simp
    then show "\<exists>b a. normalized_sql (case il_sql idempotency_index of None \<Rightarrow> [] | Some sql \<Rightarrow> sql) = b @ normalized_sql v @ a"
      using sql by auto
  qed (simp_all add: idempotency_index_def created_index_def enumerate_eq_zip)
  moreover have "ci_name ` set (tb_columns (schema_tables ! 1)) = rc_name ` set (rt_columns jobs_table)"
    "\<forall>r \<in> set (rt_columns jobs_table). column_present (schema_tables ! 1) r"
    "set (key_rows (schema_tables ! 1)) = set (enumerate 1 (rt_primary_key jobs_table))"
    "foreign_key_present (schema_tables ! 1) ([''principal_id''], ''transport_publish_principals'', [''principal_id''])"
    unfolding tb by (simp_all add: created_defs required_defs column_present_def type_names_upper key_rows_def
       foreign_key_present_def fk_of_def)
  moreover have "rt_foreign_keys jobs_table = [([''principal_id''], ''transport_publish_principals'', [''principal_id''])]"
    "rt_unique jobs_table = [([''principal_id'', ''idempotency_key''], Some ''WHERE idempotency_key IS NOT NULL'')]"
    by (simp_all add: jobs_table_def)
  ultimately show ?thesis
    unfolding table_meets_def by (simp only: list.set ball_simps simp_thms)
qed

lemma results_meets:
  "table_meets (created_table ''transport_publish_target_results'' results_columns
        [PrimaryKey [''job_id'', ''transport_kind'', ''endpoint_uri'', ''target_scope''],
         ForeignKey [''job_id''] ''transport_publish_jobs'' [''job_id'']]) results_table"
  by (simp add: table_meets_def created_defs required_defs column_present_def type_names_upper key_rows_def
     foreign_key_present_def fk_of_def)

lemma snapshots_meets:
  "table_meets (created_table ''transport_publish_target_snapshots'' snapshots_columns
        [PrimaryKey [''job_id'', ''target_index''], ForeignKey [''job_id''] ''transport_publish_jobs'' [''job_id'']]) snapshots_table"
  by (simp add: table_meets_def created_defs required_defs column_present_def type_names_upper key_rows_def
     foreign_key_present_def fk_of_def)

lemma cache_meets: "table_meets (created_table ''transport_publish_nostr_author_cache'' cache_columns []) author_cache_table"
  by (simp add: table_meets_def created_defs required_defs column_present_def type_names_upper key_rows_def)

lemma numberedI: "map fst rows = [m..<m + length rows] \<Longrightarrow> numbered m rows"
  unfolding numbered_def by (metis distinct_map distinct_upt set_map set_upt)

lemma numbered_enumerate: "numbered m (enumerate m xs)"
  by (rule numberedI) simp

lemma created_index_numbered:
  assumes "ix \<in> set (tb_indexes (created_table t columns constraints))"
  shows "numbered 0 (il_columns ix) \<and> None \<notin> snd ` set (il_columns ix)"
proof -
  obtain u where "il_columns ix = enumerate 0 (map Some u)"
    using assms by (auto simp: created_table_def Let_def automatic_index_def enumerate_eq_zip)
  then show ?thesis by (auto simp: numbered_enumerate in_set_enumerate_eq)
qed

lemma idempotency_index_numbered:
  "numbered 0 (il_columns idempotency_index) \<and> None \<notin> snd ` set (il_columns idempotency_index)"
  using numbered_enumerate [of 0 "[Some ''principal_id'', Some ''idempotency_key'']"]
  by (simp add: idempotency_index_def created_index_def enumerate_eq_zip)

text \<open>A table with at most one foreign key of one column.\<close>

lemma created_table_wf:
  assumes "tb = created_table t columns constraints" and "distinct (map ci_name (tb_columns tb))"
    and "numbered 1 (key_rows tb)"
    and "tb_foreign_keys tb = [] \<or> (\<exists>target from to. tb_foreign_keys tb =
      [\<lparr>fk_id = 0, fk_seq = 0, fk_table = target, fk_from = from, fk_to = Some to\<rparr>])"
  shows "table_wf (tb\<lparr>tb_indexes := ixs @ tb_indexes tb\<rparr>) \<longleftrightarrow>
    (\<forall>ix \<in> set ixs. numbered 0 (il_columns ix) \<and> None \<notin> snd ` set (il_columns ix))"
proof -
  have "numbered 0 (map (\<lambda>r. (fk_seq r, r)) (fk_of i tb))" for i
    using assms(4) by (intro numberedI) (auto simp: fk_of_def)
  then show ?thesis
    using assms(2-4) created_index_numbered [of _ t columns constraints] unfolding assms(1) [symmetric]
    by (auto simp: table_wf_def key_rows_def fk_of_def)
qed

lemma schema_tables_wf:
  assumes "tb \<in> set schema_tables"
  shows "table_wf tb"
proof -
  note wf = created_table_wf [OF refl, where ixs = "[]", simplified]
  have "table_wf (created_table ''transport_publish_principals'' principals_columns [])"
    by (rule wf) (simp_all add: created_defs key_rows_def numberedI)
  moreover have "table_wf ((created_table ''transport_publish_jobs'' jobs_columns
         [ForeignKey [''principal_id''] ''transport_publish_principals'' [''principal_id'']])
      \<lparr>tb_indexes := [idempotency_index] @ tb_indexes (created_table ''transport_publish_jobs'' jobs_columns
         [ForeignKey [''principal_id''] ''transport_publish_principals'' [''principal_id'']])\<rparr>)"
    by (subst created_table_wf [OF refl])
      (simp_all add: created_defs key_rows_def numberedI idempotency_index_numbered)
  moreover have "table_wf (created_table ''transport_publish_target_results'' results_columns
        [PrimaryKey [''job_id'', ''transport_kind'', ''endpoint_uri'', ''target_scope''],
         ForeignKey [''job_id''] ''transport_publish_jobs'' [''job_id'']])"
    by (rule wf) (simp_all add: created_defs key_rows_def numberedI)
  moreover have "table_wf (created_table ''transport_publish_target_snapshots'' snapshots_columns
        [PrimaryKey [''job_id'', ''target_index''], ForeignKey [''job_id''] ''transport_publish_jobs'' [''job_id'']])"
    by (rule wf) (simp_all add: created_defs key_rows_def numberedI)
  moreover have "table_wf (created_table ''transport_publish_nostr_author_cache'' cache_columns [])"
    by (rule wf) (simp_all add: created_defs key_rows_def numberedI)
  ultimately show ?thesis using assms unfolding schema_tables_def Let_def by auto
qed

lemma schema_catalog_valid:
  assumes "ct_tables c = schema_tables" and "ct_foreign_keys c"
  shows "catalog_wf c" and "schema_ok c"
proof -
  show "catalog_wf c"
    using schema_tables_wf assms(1)
    by (simp add: catalog_wf_def) (simp add: schema_tables_def Let_def table_names_lower)
  have mem: "schema_tables ! i \<in> set schema_tables" if "i < 5" for i
    using that by (intro nth_mem) (simp add: schema_tables_def Let_def)
  have "table_meets (schema_tables ! 0) principals_table" "table_meets (schema_tables ! 1) jobs_table"
    "table_meets (schema_tables ! 2) results_table" "table_meets (schema_tables ! 3) snapshots_table"
    "table_meets (schema_tables ! 4) author_cache_table"
    using principals_meets jobs_meets results_meets snapshots_meets cache_meets
    by (simp_all add: schema_tables_def Let_def)
  moreover have "tb_name (schema_tables ! 0) = rt_name principals_table" "tb_name (schema_tables ! 1) = rt_name jobs_table"
    "tb_name (schema_tables ! 2) = rt_name results_table" "tb_name (schema_tables ! 3) = rt_name snapshots_table"
    "tb_name (schema_tables ! 4) = rt_name author_cache_table"
    by (simp_all add: schema_tables_def Let_def required_defs)
  ultimately show "schema_ok c"
    unfolding schema_ok_def required_tables_def assms(1) list.set ball_simps
    using mem [of 0] mem [of 1] mem [of 2] mem [of 3] mem [of 4] assms(2) by auto
qed



section \<open>Opening a store\<close>

lemma principals_like: "sql_like ''transport_publish_%'' ''transport_publish_principals''"
  by (simp add: to_ascii_lowercase_def)

lemma state_existing:
  assumes "''transport_publish_principals'' \<in> tb_name ` set (ct_tables c)"
  shows "transport_publish_schema_state c = Inr Existing"
proof -
  obtain tb where tb: "tb \<in> set (ct_tables c)" "tb_name tb = ''transport_publish_principals''"
    using assms by auto
  have "sql_like ''transport_publish_%'' (tb_name tb)" unfolding tb(2) by (rule principals_like)
  then have "filter (sql_like ''transport_publish_%'') (map tb_name (ct_tables c)) \<noteq> []"
    using tb(1) unfolding filter_empty_conv by auto
  then show ?thesis unfolding transport_publish_schema_state_def by simp
qed

definition daemon_catalog :: catalog where
  "daemon_catalog = \<lparr>ct_tables = schema_tables, ct_user_version = 4, ct_foreign_keys = True\<rparr>"

lemma daemon_catalog_valid: "validate_transport_publish_schema daemon_catalog = Inr ()"
  using schema_validation_iff [OF schema_catalog_valid(1)] schema_catalog_valid(2)
  by (simp add: daemon_catalog_def)

lemma prepare_new: "prepare_schema (sf_catalog new_file) = (daemon_catalog, Inr ())"
proof -
  have "execute_schema transport_publish_schema_sql fresh_catalog \<lparr>ct_user_version := 4\<rparr> = daemon_catalog"
    unfolding schema_created by (simp add: fresh_catalog_def daemon_catalog_def)
  moreover have "transport_publish_schema_state fresh_catalog = Inr Fresh"
    by (simp add: transport_publish_schema_state_def fresh_catalog_def)
  moreover have "(sf_catalog new_file)\<lparr>ct_foreign_keys := True\<rparr> = fresh_catalog"
    by (simp add: new_file_def fresh_catalog_def)
  ultimately show ?thesis
    unfolding prepare_schema_def Let_def by (simp add: daemon_catalog_valid)
qed

lemma prepare_again: "prepare_schema daemon_catalog = (daemon_catalog, Inr ())"
proof -
  have "''transport_publish_principals'' \<in> tb_name ` set (ct_tables daemon_catalog)"
    by (simp add: daemon_catalog_def schema_tables_def Let_def)
  moreover have "validate_transport_publish_schema_version daemon_catalog = Inr ()"
    and "daemon_catalog\<lparr>ct_foreign_keys := True\<rparr> = daemon_catalog"
    by (simp_all add: validate_transport_publish_schema_version_def daemon_catalog_def)
  ultimately show ?thesis
    by (simp add: prepare_schema_def state_existing daemon_catalog_valid)
qed

lemma from_connection_new:
  assumes "codecs_ok K"
  shows "from_connection P K now new_file = (\<lparr>sf_catalog = daemon_catalog, sf_data = empty_database\<rparr>, Inr ())"
proof -
  obtain publishing where "encode (cd_status K) JsPublishing = Inr publishing"
    using encode_total [OF codecs_okD(5) [OF assms]] by blast
  then have "recover_interrupted_publish_jobs P K now empty_database = (empty_database, Inr ())"
    by (simp add: recover_interrupted_publish_jobs_def empty_database_def)
  then show ?thesis by (simp add: from_connection_def prepare_new) (simp add: new_file_def)
qed

text \<open>C32. A store can always be opened again: the daemon creates its schema in a new file, its own
  validation accepts it, and whatever a run has then left in the file, interrupted between two
  statements or not, the next start accepts the schema unchanged and recovers the jobs.\<close>

theorem store_reopens:
  assumes "reachable_db P K d" and "codecs_ok K"
  shows "\<exists>c. from_connection P K now0 new_file = (\<lparr>sf_catalog = c, sf_data = empty_database\<rparr>, Inr ()) \<and>
    (\<exists>d'. from_connection P K now \<lparr>sf_catalog = c, sf_data = d\<rparr> = (\<lparr>sf_catalog = c, sf_data = d'\<rparr>, Inr ()) \<and>
       reachable_db P K d')"
proof -
  have "from_connection P K now0 new_file = (\<lparr>sf_catalog = daemon_catalog, sf_data = empty_database\<rparr>, Inr ())"
    by (rule from_connection_new [OF assms(2)])
  moreover obtain d' where d': "recover_interrupted_publish_jobs P K now d = (d', Inr ())"
    using recover_total [OF assms(2) reachable_readable [OF assms]] by (metis prod.collapse)
  then have "from_connection P K now \<lparr>sf_catalog = daemon_catalog, sf_data = d\<rparr> =
      (\<lparr>sf_catalog = daemon_catalog, sf_data = d'\<rparr>, Inr ())"
    by (simp add: from_connection_def prepare_again)
  moreover have "reachable_db P K d'" using reachable_db.recover [OF assms(1), of now] d' by simp
  ultimately show ?thesis by blast
qed

theorem store_reopens_witness:
  "\<exists>c d'. from_connection sample_publish sample_codecs 0 new_file = (\<lparr>sf_catalog = c, sf_data = empty_database\<rparr>, Inr ()) \<and>
    from_connection sample_publish sample_codecs 9 \<lparr>sf_catalog = c,
      sf_data = fst (create_principal sample_publish sample_codecs ''p1'' 0 sample_init empty_database)\<rparr> =
    (\<lparr>sf_catalog = c, sf_data = d'\<rparr>, Inr ())"
  using store_reopens [OF reachable_db.create [OF reachable_db.fresh] sample_codecs_ok] by blast

lemma execute_keeps_version: "ct_user_version (execute_schema sts c) = ct_user_version c"
proof -
  have "ct_user_version (execute_statement st c) = ct_user_version c" for st c by (cases st) simp_all
  then show ?thesis by (induction sts arbitrary: c) (simp_all add: execute_simps)
qed

lemma execute_keeps_tables: "tb_name ` set (ct_tables c) \<subseteq> tb_name ` set (ct_tables (execute_schema sts c))"
proof (induction sts arbitrary: c)
  case (Cons st sts)
  have "tb_name ` set (ct_tables c) \<subseteq> tb_name ` set (ct_tables (execute_statement st c))"
  proof (cases st)
    case (CreateUniqueIndex name t columns condition)
    have "tb_name ` (\<lambda>tb. if tb_name tb = t then tb\<lparr>tb_indexes := f tb\<rparr> else tb) ` A = tb_name ` A" for f and A :: "table set"
      unfolding image_image by (rule image_cong) simp_all
    then show ?thesis by (simp add: CreateUniqueIndex)
  qed auto
  then show ?case using Cons.IH [of "execute_statement st c"] by (simp add: execute_simps)
qed (simp add: execute_simps)

text \<open>C33. Creating the schema is not atomic: when the daemon is interrupted after the first table was
  created and before the version was written, the file has tables but version 0, so that this and
  every later start refuses it, and no start repairs it.\<close>

theorem interrupted_initialisation_unusable:
  assumes "0 < k"
  shows "let f = \<lparr>sf_catalog = execute_schema (take k transport_publish_schema_sql) fresh_catalog, sf_data = empty_database\<rparr>
    in from_connection P K now f =
      (f, Inl (TpSchema ''transport_publish_schema'' ''user_version must be 4, got 0''))"
proof -
  let ?c = "execute_schema (take k transport_publish_schema_sql) fresh_catalog"
  obtain j where k: "k = Suc j" using assms by (cases k) auto
  obtain rest where sql: "transport_publish_schema_sql =
      CreateTable ''transport_publish_principals'' principals_columns [] # rest"
    by (simp add: transport_publish_schema_sql_def)
  have "''transport_publish_principals'' \<in> tb_name ` set (ct_tables (execute_statement
      (CreateTable ''transport_publish_principals'' principals_columns []) fresh_catalog))"
    by (simp add: fresh_catalog_def table_named_def)
  then have "''transport_publish_principals'' \<in> tb_name ` set (ct_tables ?c)"
    using execute_keeps_tables unfolding k sql take_Suc_Cons execute_simps by blast
  then have "transport_publish_schema_state ?c = Inr Existing" by (rule state_existing)
  moreover have "ct_user_version ?c = 0" by (simp add: execute_keeps_version fresh_catalog_def)
  moreover have "ct_foreign_keys (execute_schema sts c) = ct_foreign_keys c" for sts c
  proof -
    have "ct_foreign_keys (execute_statement st c) = ct_foreign_keys c" for st c by (cases st) simp_all
    then show ?thesis by (induction sts arbitrary: c) (simp_all add: execute_simps)
  qed
  then have "?c\<lparr>ct_foreign_keys := True\<rparr> = ?c" by (simp add: fresh_catalog_def)
  moreover have "show_int 0 = ''0''"
    unfolding show_int_def by (subst show_nat.simps) simp
  ultimately show ?thesis
    by (simp add: Let_def from_connection_def prepare_schema_def validate_transport_publish_schema_version_def)
qed

theorem interrupted_initialisation_unusable_witness:
  "let f = \<lparr>sf_catalog = execute_schema (take 6 transport_publish_schema_sql) fresh_catalog, sf_data = empty_database\<rparr>
    in from_connection sample_publish sample_codecs 0 f =
      (f, Inl (TpSchema ''transport_publish_schema'' ''user_version must be 4, got 0''))"
  by (rule interrupted_initialisation_unusable) simp

end
