(* ===== verification/Daemon_Config.thy ===== *)
theory Daemon_Config
  imports Prelude
begin

text \<open>
  The daemon's configuration, \<open>src/app/config.rs\<close>: the records with their defaults, the derivation
  of the effective settings from the parsed file, and their validation.  Reading the file and
  parsing TOML belong to the standard library and to the \<open>toml\<close> crate and are not modelled.
\<close>

record nip46_config =
  n46_session_ttl_secs :: u64
  n46_perms :: "string list"
  n46_public_jsonrpc_enabled :: bool
  n46_nostrconnect_url :: "string option"

definition default_nip46_config :: nip46_config where
  "default_nip46_config =
     \<lparr>n46_session_ttl_secs = 900, n46_perms = [], n46_public_jsonrpc_enabled = False,
      n46_nostrconnect_url = None\<rparr>"

datatype nostr_relay_url_policy = ConfigPublic | ConfigLocalhost

record transport_publish_nostr_config =
  pn_relay_url_policy :: nostr_relay_url_policy
  pn_author_relay_discovery_relays :: "string list"
  pn_daemon_default_relays :: "string list"

definition default_nostr_config :: transport_publish_nostr_config where
  "default_nostr_config =
     \<lparr>pn_relay_url_policy = ConfigPublic, pn_author_relay_discovery_relays = [],
      pn_daemon_default_relays = []\<rparr>"

record transport_publish_config =
  tp_enabled :: bool
  tp_connect_timeout_secs :: u64
  tp_max_event_bytes :: nat
  tp_max_targets_per_request :: nat
  tp_job_list_limit :: nat
  tp_max_concurrent_publish_jobs :: nat
  tp_database_path :: string
  tp_nostr :: transport_publish_nostr_config

text \<open>The defaults; the database path comes from the runtime paths.\<close>

definition default_transport_publish_config :: "string \<Rightarrow> transport_publish_config" where
  "default_transport_publish_config database_path =
     \<lparr>tp_enabled = True, tp_connect_timeout_secs = 10, tp_max_event_bytes = 128 * 1024,
      tp_max_targets_per_request = 20, tp_job_list_limit = 100,
      tp_max_concurrent_publish_jobs = 8, tp_database_path = database_path,
      tp_nostr = default_nostr_config\<rparr>"

definition validate_transport_publish :: "transport_publish_config \<Rightarrow> string + unit" where
  "validate_transport_publish c =
     (if tp_max_event_bytes c = 0 then
        Inl ''transport_publish max_event_bytes must be greater than zero''
      else if tp_max_targets_per_request c = 0 then
        Inl ''transport_publish max_targets_per_request must be greater than zero''
      else if tp_job_list_limit c = 0 then
        Inl ''transport_publish job_list_limit must be greater than zero''
      else if tp_max_concurrent_publish_jobs c = 0 then
        Inl ''transport_publish max_concurrent_publish_jobs must be greater than zero''
      else if tp_connect_timeout_secs c = 0 then
        Inl ''transport_publish connect_timeout_secs must be greater than zero''
      else Inr ())"

lemma validate_transport_publish_iff:
  "validate_transport_publish c = Inr () \<longleftrightarrow>
     0 < tp_max_event_bytes c \<and> 0 < tp_max_targets_per_request c \<and> 0 < tp_job_list_limit c \<and>
     0 < tp_max_concurrent_publish_jobs c \<and> 0 < unat (tp_connect_timeout_secs c)"
  by (auto simp: validate_transport_publish_def unat_gt_0)

end
