(* ===== verification/Publish_Targets.thy ===== *)
theory Publish_Targets
  imports Store_Properties Daemon_Config
begin

text \<open>
  From a publish request to the relays it goes to (\<open>src/core/transport_publish.rs\<close>): explicit
  targets, the relays named in a request, the write relays of the author (cached, or discovered
  from the author's NIP-65 event) and the daemon's defaults.  Before a relay becomes a target
  under the public policy, its host is resolved and every address checked; what is refused is
  kept as an outcome of the job.

  The resolver and the discovery are traits in the code and arguments here; the daemon's
  own implementations of both are \<open>system_resolve\<close> and \<open>nostr_author_relay_discovery\<close>, over the calls
  of the \<open>url\<close>, \<open>tokio\<close> and \<open>nostr\<close> crates in \<open>discovery_crates\<close>.  A resolver answers every lookup
  of one request for one URL alike.
\<close>

section \<open>Building a resolution\<close>

type_synonym resolver = "relay_url \<Rightarrow> string + ip_addr list"

record target_metadata =
  tm_target_scope :: "string option"
  tm_target_label :: "string option"

definition default_metadata :: target_metadata where
  "default_metadata = \<lparr>tm_target_scope = None, tm_target_label = None\<rparr>"

definition from_target :: "publish_target \<Rightarrow> target_metadata" where
  "from_target t = \<lparr>tm_target_scope = pt_target_scope t, tm_target_label = pt_target_label t\<rparr>"

fun relay_url_policy_of :: "nostr_relay_url_policy \<Rightarrow> relay_url_policy" where
  "relay_url_policy_of ConfigPublic = Public"
| "relay_url_policy_of ConfigLocalhost = Localhost"

abbreviation configured_policy :: "transport_publish_config \<Rightarrow> relay_url_policy" where
  "configured_policy config \<equiv> relay_url_policy_of (pn_relay_url_policy (tp_nostr config))"

fun relay_publish_error_text :: "relay_publish_error \<Rightarrow> string" where
  "relay_publish_error_text (RelayPublishError m) = m"

definition push_resolved_relay ::
  "resolved_relay list \<Rightarrow> relay_url \<Rightarrow> target_source \<Rightarrow> target_metadata \<Rightarrow> resolved_relay list" where
  "push_resolved_relay targets url source metadata =
     (if list_ex (\<lambda>t. rv_url t = url \<and> rv_target_scope t = tm_target_scope metadata) targets then targets
      else targets @ [\<lparr>rv_url = url, rv_source = source, rv_target_scope = tm_target_scope metadata,
                       rv_target_label = tm_target_label metadata\<rparr>])"

text \<open>An outcome of a target that was not attempted.\<close>

definition unattempted ::
  "string \<Rightarrow> string \<Rightarrow> string option \<Rightarrow> string option \<Rightarrow> target_source \<Rightarrow> outcome_kind \<Rightarrow> string \<Rightarrow> target_outcome" where
  "unattempted kind uri scope label source outcome message =
     \<lparr>to_transport_kind = kind, to_endpoint_uri = uri, to_target_scope = scope, to_target_label = label,
      to_source = source, to_attempted = False, to_outcome_kind = outcome, to_message = Some message,
      to_latency_ms = None\<rparr>"

definition reticulum_unavailable_outcome :: "publish_crates \<Rightarrow> publish_target \<Rightarrow> target_outcome" where
  "reticulum_unavailable_outcome P t =
     unattempted ''reticulum'' (trim (pt_endpoint_uri t)) (pt_target_scope t) (pt_target_label t) TsReticulum
       OkDeferredUntilImplemented (pc_reticulum_unavailable_message P)"

definition unsupported_transport_outcome :: "publish_target \<Rightarrow> target_outcome" where
  "unsupported_transport_outcome t =
     unattempted (trim (pt_transport_kind t)) (trim (pt_endpoint_uri t)) (pt_target_scope t) (pt_target_label t)
       TsRequest OkUnsupported ''transport kind is not supported by radrootsd transport publish''"

definition relay_resolution_connection_failure ::
  "string \<Rightarrow> target_source \<Rightarrow> target_metadata \<Rightarrow> string \<Rightarrow> target_outcome" where
  "relay_resolution_connection_failure relay_url source metadata message =
     unattempted ''nostr'' relay_url (tm_target_scope metadata) (tm_target_label metadata) source
       OkConnectionFailed message"

definition add_outcome :: "target_outcome \<Rightarrow> resolution \<Rightarrow> resolution" where
  "add_outcome t r = r\<lparr>rl_outcomes := rl_outcomes r @ [t]\<rparr>"

definition add_target :: "relay_url \<Rightarrow> target_source \<Rightarrow> target_metadata \<Rightarrow> resolution \<Rightarrow> resolution" where
  "add_target url source metadata r = r\<lparr>rl_targets := push_resolved_relay (rl_targets r) url source metadata\<rparr>"

definition push_checked_relay_target ::
  "transport_nostr_crate \<Rightarrow> transport_publish_config \<Rightarrow> resolver \<Rightarrow> relay_url \<Rightarrow> target_source
     \<Rightarrow> target_metadata \<Rightarrow> resolution \<Rightarrow> resolution" where
  "push_checked_relay_target T config resolve url source metadata r =
     (if configured_policy config = Localhost then add_target url source metadata r
      else case resolve url of
             Inl e \<Rightarrow> add_outcome (relay_resolution_connection_failure (url_str T url) source metadata
                        (''dns lookup failed: '' @ e)) r
           | Inr addresses \<Rightarrow>
               if addresses = []
               then add_outcome (relay_resolution_connection_failure (url_str T url) source metadata
                      ''dns lookup returned no addresses'') r
               else case validate_public_resolved_ip_addrs T url addresses of
                      Inr _ \<Rightarrow> add_target url source metadata r
                    | Inl e \<Rightarrow> add_outcome (unattempted ''nostr'' (url_str T url) (tm_target_scope metadata)
                                (tm_target_label metadata) source OkTargetRejected (relay_publish_error_text e)) r)"

definition no_targets :: resolution where
  "no_targets = \<lparr>rl_targets = [], rl_outcomes = []\<rparr>"

section \<open>Sources of targets\<close>

definition resolve_request_target ::
  "transport_nostr_crate \<Rightarrow> transport_publish_config \<Rightarrow> resolver \<Rightarrow> publish_target \<Rightarrow> resolution \<Rightarrow> resolution" where
  "resolve_request_target T config resolve t r =
     (case parse_relay_url T (pt_endpoint_uri t) (configured_policy config) of
        Inr url \<Rightarrow> push_checked_relay_target T config resolve url TsRequest (from_target t) r
      | Inl e \<Rightarrow> add_outcome (unattempted ''nostr'' (pt_endpoint_uri t) (pt_target_scope t) (pt_target_label t)
                  TsRequest OkTargetRejected (relay_publish_error_text e)) r)"

fun explicit_targets_loop ::
  "publish_crates \<Rightarrow> transport_nostr_crate \<Rightarrow> transport_publish_config \<Rightarrow> resolver \<Rightarrow> nat \<Rightarrow> publish_target list
     \<Rightarrow> resolution \<Rightarrow> tp_error + resolution" where
  "explicit_targets_loop P T config resolve index [] r = Inr r"
| "explicit_targets_loop P T config resolve index (t # ts) r =
     and_then (map_err (\<lambda>e. TpInvalidSignedEvent (''transport target '' @ show_nat index @ '' kind is invalid: '' @ e))
       (pc_parse_canonical P (pt_transport_kind t))) (\<lambda>kind.
     explicit_targets_loop P T config resolve (Suc index) ts
       (case kind of
          TransportNostr \<Rightarrow> resolve_request_target T config resolve t r
        | TransportReticulum \<Rightarrow> add_outcome (reticulum_unavailable_outcome P t) r
        | _ \<Rightarrow> add_outcome (unsupported_transport_outcome t) r))"

definition resolve_explicit_targets ::
  "publish_crates \<Rightarrow> transport_nostr_crate \<Rightarrow> transport_publish_config \<Rightarrow> resolver \<Rightarrow> publish_target list
     \<Rightarrow> tp_error + resolution" where
  "resolve_explicit_targets P T config resolve targets =
     explicit_targets_loop P T config resolve 0 targets no_targets"

definition resolve_request_relay ::
  "transport_nostr_crate \<Rightarrow> transport_publish_config \<Rightarrow> resolver \<Rightarrow> string \<Rightarrow> resolution \<Rightarrow> resolution" where
  "resolve_request_relay T config resolve relay r =
     (case parse_relay_url T relay (configured_policy config) of
        Inr url \<Rightarrow> push_checked_relay_target T config resolve url TsRequest default_metadata r
      | Inl e \<Rightarrow> add_outcome (unattempted ''nostr'' relay None None TsRequest OkTargetRejected
                  (relay_publish_error_text e)) r)"

definition resolve_request_relays ::
  "transport_nostr_crate \<Rightarrow> transport_publish_config \<Rightarrow> resolver \<Rightarrow> string list \<Rightarrow> resolution" where
  "resolve_request_relays T config resolve relays =
     fold (resolve_request_relay T config resolve) relays no_targets"

text \<open>The relays of the configuration and of authors: one that does not parse is skipped.\<close>

definition resolve_known_relay ::
  "transport_nostr_crate \<Rightarrow> transport_publish_config \<Rightarrow> resolver \<Rightarrow> target_source \<Rightarrow> string \<Rightarrow> resolution \<Rightarrow> resolution" where
  "resolve_known_relay T config resolve source relay r =
     (case parse_relay_url T relay (configured_policy config) of
        Inr url \<Rightarrow> push_checked_relay_target T config resolve url source default_metadata r
      | Inl _ \<Rightarrow> r)"

definition resolve_config_relays ::
  "transport_nostr_crate \<Rightarrow> transport_publish_config \<Rightarrow> resolver \<Rightarrow> string list \<Rightarrow> target_source \<Rightarrow> resolution" where
  "resolve_config_relays T config resolve relays source =
     fold (resolve_known_relay T config resolve source) relays no_targets"

definition resolve_author_relay_inputs ::
  "transport_nostr_crate \<Rightarrow> transport_publish_config \<Rightarrow> resolver \<Rightarrow> string list \<Rightarrow> resolution" where
  "resolve_author_relay_inputs T config resolve relays =
     fold (resolve_known_relay T config resolve TsNostrAuthorWrite) relays no_targets"

definition resolve_daemon_default_relays ::
  "transport_nostr_crate \<Rightarrow> transport_publish_config \<Rightarrow> resolver \<Rightarrow> resolution" where
  "resolve_daemon_default_relays T config resolve =
     resolve_config_relays T config resolve (pn_daemon_default_relays (tp_nostr config)) TsDaemonDefault"

section \<open>The write relays of the author\<close>

text \<open>\<open>PublishAuthorRelayDiscovery\<close>: public key, discovery targets and connection timeout in seconds.\<close>

type_synonym discovery = "string \<Rightarrow> resolved_relay list \<Rightarrow> u64 \<Rightarrow> tp_error + string list"

record publish_service =
  sv_crates :: publish_crates
  sv_nostr :: transport_nostr_crate
  sv_codecs :: codecs
  sv_config :: transport_publish_config
  sv_resolver :: resolver
  sv_discovery :: discovery

definition append_outcomes :: "resolution \<Rightarrow> target_outcome list \<Rightarrow> resolution" where
  "append_outcomes r ts = r\<lparr>rl_outcomes := rl_outcomes r @ ts\<rparr>"

definition resolve_author_write_relays ::
  "publish_service \<Rightarrow> int \<Rightarrow> string \<Rightarrow> database \<Rightarrow> database \<times> (tp_error + resolution)" where
  "resolve_author_write_relays S now pubkey d =
     (let T = sv_nostr S; config = sv_config S; resolve = sv_resolver S in
      case cached_author_write_relays (sv_codecs S) d pubkey of
        Inl e \<Rightarrow> (d, Inl e)
      | Inr cached \<Rightarrow>
          let cached_resolution = resolve_author_relay_inputs T config resolve cached;
              discovery_relays = pn_author_relay_discovery_relays (tp_nostr config) in
          if rl_targets cached_resolution \<noteq> [] \<or> discovery_relays = [] then (d, Inr cached_resolution)
          else let discovery_targets = resolve_config_relays T config resolve discovery_relays TsDaemonDefault in
            if rl_targets discovery_targets = []
            then (d, Inr (append_outcomes discovery_targets (rl_outcomes cached_resolution)))
            else case sv_discovery S pubkey (rl_targets discovery_targets) (tp_connect_timeout_secs config) of
              Inl e \<Rightarrow> (d, Inl e)
            | Inr discovered \<Rightarrow>
                (case cache_author_write_relays (sv_codecs S) now pubkey discovered d of
                   Inl e \<Rightarrow> (d, Inl e)
                 | Inr d' \<Rightarrow>
                     (d', Inr (append_outcomes (resolve_author_relay_inputs T config resolve discovered)
                       (rl_outcomes cached_resolution @ rl_outcomes discovery_targets)))))"

definition resolve_author_or_default_relays ::
  "publish_service \<Rightarrow> int \<Rightarrow> string \<Rightarrow> database \<Rightarrow> database \<times> (tp_error + resolution)" where
  "resolve_author_or_default_relays S now pubkey d =
     (case resolve_author_write_relays S now pubkey d of
        (d', Inl e) \<Rightarrow> (d', Inl e)
      | (d', Inr author_relays) \<Rightarrow>
          (d', Inr (if rl_targets author_relays = []
             then append_outcomes (resolve_daemon_default_relays (sv_nostr S) (sv_config S) (sv_resolver S))
                    (rl_outcomes author_relays)
             else author_relays)))"

definition resolve_targets_for_request ::
  "publish_service \<Rightarrow> int \<Rightarrow> string \<Rightarrow> event_request \<Rightarrow> database \<Rightarrow> database \<times> (tp_error + resolution)" where
  "resolve_targets_for_request S now pubkey request d =
     (let T = sv_nostr S; config = sv_config S; resolve = sv_resolver S in
      case er_target_policy request of
        ExplicitTargets targets \<Rightarrow> (d, resolve_explicit_targets (sv_crates S) T config resolve targets)
      | NostrPolicy source_policy relay_urls \<Rightarrow>
          (case source_policy of
             ExplicitOnly \<Rightarrow> (d, Inr (resolve_request_relays T config resolve relay_urls))
           | RequestThenAuthorWriteThenDaemonDefault \<Rightarrow>
               if relay_urls \<noteq> [] then (d, Inr (resolve_request_relays T config resolve relay_urls))
               else resolve_author_or_default_relays S now pubkey d
           | AuthorWriteThenDaemonDefault \<Rightarrow> resolve_author_or_default_relays S now pubkey d
           | DaemonDefaultOnly \<Rightarrow> (d, Inr (resolve_daemon_default_relays T config resolve))))"

definition target_snapshots_from_resolution :: "transport_nostr_crate \<Rightarrow> resolution \<Rightarrow> target_outcome list" where
  "target_snapshots_from_resolution T r =
     rl_outcomes r @ map (\<lambda>t. \<lparr>to_transport_kind = ''nostr'', to_endpoint_uri = url_str T (rv_url t),
        to_target_scope = rv_target_scope t, to_target_label = rv_target_label t, to_source = rv_source t,
        to_attempted = True, to_outcome_kind = OkConnectionFailed,
        to_message = Some ''publish_attempt_interrupted'', to_latency_ms = None\<rparr>) (rl_targets r)"

section \<open>The daemon's resolver and discovery\<close>

record parsed_url =
  pu_host_str :: "string option"
  pu_port_or_known_default :: "u16 option"

record discovery_crates =
  dc_url_parse :: "string \<Rightarrow> string + parsed_url"
  dc_lookup_host :: "string \<Rightarrow> u16 \<Rightarrow> string + ip_addr list"
  dc_public_key_from_hex :: "string \<Rightarrow> public_key option"
  dc_add_read_relay :: "string \<Rightarrow> string + bool"
  dc_fetch_events :: "public_key \<Rightarrow> u16 \<Rightarrow> nat \<Rightarrow> u64 \<Rightarrow> string + event list"

definition relay_socket_target ::
  "discovery_crates \<Rightarrow> transport_nostr_crate \<Rightarrow> relay_url \<Rightarrow> string + string \<times> u16" where
  "relay_socket_target C T url =
     and_then (dc_url_parse C (url_str T url)) (\<lambda>parsed.
     and_then (case pu_host_str parsed of
                 None \<Rightarrow> Inl ''relay URL must include a DNS host''
               | Some host \<Rightarrow> if host = [] then Inl ''relay URL must include a DNS host'' else Inr host) (\<lambda>host.
     and_then (ok_or ''relay URL scheme must have a default port'' (pu_port_or_known_default parsed)) (\<lambda>port.
       Inr (host, port))))"

definition system_resolve :: "discovery_crates \<Rightarrow> transport_nostr_crate \<Rightarrow> resolver" where
  "system_resolve C T url =
     and_then (relay_socket_target C T url) (\<lambda>(host, port). dc_lookup_host C host port)"

definition nip65_write_relay :: "string list \<Rightarrow> string option" where
  "nip65_write_relay values =
     (case values of
        name # relay # rest \<Rightarrow>
          if name \<noteq> ''r'' \<or> trim relay = [] \<or> (case rest of marker # _ \<Rightarrow> marker = ''read'' | [] \<Rightarrow> False)
          then None else Some (trim relay)
      | _ \<Rightarrow> None)"

definition author_write_relays_from_nip65_event :: "event \<Rightarrow> string list" where
  "author_write_relays_from_nip65_event e = List.map_filter nip65_write_relay (ev_tags e)"

text \<open>\<open>max_by\<close> keeps the last of several greatest elements.\<close>

definition newer :: "event \<Rightarrow> event \<Rightarrow> event" where
  "newer best e =
     (if (uint (ev_created_at e), ev_id e) < (uint (ev_created_at best), ev_id best) then best else e)"

fun newest_event :: "event list \<Rightarrow> event option" where
  "newest_event [] = None"
| "newest_event (e # es) = Some (fold (\<lambda>x best. newer best x) es e)"

definition nostr_author_relay_discovery ::
  "discovery_crates \<Rightarrow> transport_nostr_crate \<Rightarrow> discovery" where
  "nostr_author_relay_discovery C T pubkey discovery_targets connect_timeout_secs =
     (case dc_public_key_from_hex C pubkey of
        None \<Rightarrow> Inr []
      | Some public_key \<Rightarrow>
          if list_ex (\<lambda>t. \<not> is_ok (dc_add_read_relay C (url_str T (rv_url t)))) discovery_targets then Inr []
          else case dc_fetch_events C public_key 10002 10 connect_timeout_secs of
                 Inl _ \<Rightarrow> Inr []
               | Inr events \<Rightarrow>
                   (case newest_event events of
                      None \<Rightarrow> Inr []
                    | Some e \<Rightarrow> Inr (author_write_relays_from_nip65_event e)))"

section \<open>Steps of a resolution\<close>

text \<open>What a resolution promises about its targets and about what it refused.\<close>

definition target_key :: "resolved_relay \<Rightarrow> relay_url \<times> string option" where
  "target_key t = (rv_url t, rv_target_scope t)"

definition admitted :: "transport_nostr_crate \<Rightarrow> transport_publish_config \<Rightarrow> resolver \<Rightarrow> relay_url \<Rightarrow> bool" where
  "admitted T config resolve url \<longleftrightarrow>
     (\<exists>value. parse_relay_url T value (configured_policy config) = Inr url) \<and>
     (configured_policy config = Public \<longrightarrow>
        (\<exists>addresses. resolve url = Inr addresses \<and> addresses \<noteq> [] \<and>
           validate_public_resolved_ip_addrs T url addresses = Inr ()))"

definition refused :: "target_outcome \<Rightarrow> bool" where
  "refused t \<longleftrightarrow> \<not> to_attempted t \<and>
     to_outcome_kind t \<in> {OkTargetRejected, OkConnectionFailed, OkDeferredUntilImplemented, OkUnsupported}"

definition safe_resolution ::
  "transport_nostr_crate \<Rightarrow> transport_publish_config \<Rightarrow> resolver \<Rightarrow> resolution \<Rightarrow> bool" where
  "safe_resolution T config resolve r \<longleftrightarrow>
     distinct (map target_key (rl_targets r)) \<and>
     (\<forall>t \<in> set (rl_targets r). admitted T config resolve (rv_url t)) \<and>
     (\<forall>t \<in> set (rl_outcomes r). refused t)"

lemma safe_no_targets: "safe_resolution T config resolve no_targets"
  by (simp add: safe_resolution_def no_targets_def)

lemma safe_add_outcome: "refused t \<Longrightarrow> safe_resolution T config resolve r \<Longrightarrow> safe_resolution T config resolve (add_outcome t r)"
  by (auto simp: safe_resolution_def add_outcome_def)

lemma safe_append_outcomes:
  "safe_resolution T config resolve r \<Longrightarrow> \<forall>t \<in> set ts. refused t \<Longrightarrow> safe_resolution T config resolve (append_outcomes r ts)"
  by (auto simp: safe_resolution_def append_outcomes_def)

lemma refused_unattempted [simp]:
  "refused (unattempted k u s l src out m) \<longleftrightarrow>
     out \<in> {OkTargetRejected, OkConnectionFailed, OkDeferredUntilImplemented, OkUnsupported}"
  by (simp add: refused_def unattempted_def)

lemma safe_add_target:
  assumes "admitted T config resolve url" and "safe_resolution T config resolve r"
  shows "safe_resolution T config resolve (add_target url source metadata r)"
  using assms by (auto simp: safe_resolution_def add_target_def push_resolved_relay_def target_key_def list_ex_iff)

lemma push_checked_safe:
  assumes "parse_relay_url T value (configured_policy config) = Inr url" and "safe_resolution T config resolve r"
  shows "safe_resolution T config resolve (push_checked_relay_target T config resolve url source metadata r)"
proof -
  have "admitted T config resolve url"
    if "configured_policy config = Localhost \<or> (\<exists>a u. resolve url = Inr a \<and> a \<noteq> [] \<and> validate_public_resolved_ip_addrs T url a = Inr u)"
    using that assms(1) by (auto simp: admitted_def)
  then show ?thesis
    using assms(2)
    by (auto simp: push_checked_relay_target_def relay_resolution_connection_failure_def
        intro!: safe_add_target safe_add_outcome split: sum.split)
qed

lemma push_checked_count:
  "target_count (push_checked_relay_target T config resolve url source metadata r) \<le> Suc (target_count r)"
  by (auto simp: push_checked_relay_target_def add_target_def push_resolved_relay_def add_outcome_def
      target_count_def split: sum.split)

text \<open>A step of a resolution adds at most one target or outcome, only ever one that may be added,
  and takes nothing away; so does every loop over such steps.\<close>

locale resolution_step =
  fixes step :: "transport_nostr_crate \<Rightarrow> transport_publish_config \<Rightarrow> resolver \<Rightarrow> 'a \<Rightarrow> resolution \<Rightarrow> resolution"
  assumes step_safe: "safe_resolution T config resolve r \<Longrightarrow> safe_resolution T config resolve (step T config resolve x r)"
    and step_count: "target_count (step T config resolve x r) \<le> Suc (target_count r)"
begin

lemma fold_safe:
  "safe_resolution T config resolve r \<Longrightarrow> safe_resolution T config resolve (fold (step T config resolve) xs r)"
  by (induction xs arbitrary: r) (auto intro: step_safe)

lemma fold_count: "target_count (fold (step T config resolve) xs r) \<le> length xs + target_count r"
proof (induction xs arbitrary: r)
  case (Cons x xs)
  have "target_count (fold (step T config resolve) xs (step T config resolve x r)) \<le>
      length xs + target_count (step T config resolve x r)" by (rule Cons)
  with step_count [of T config resolve x r] show ?case by simp
qed simp

lemma fold_safe_from_none: "safe_resolution T config resolve (fold (step T config resolve) xs no_targets)"
  by (rule fold_safe) (rule safe_no_targets)

end

interpretation request_target: resolution_step resolve_request_target
proof
  show "safe_resolution T config resolve r \<Longrightarrow> safe_resolution T config resolve (resolve_request_target T config resolve t r)"
    for T config resolve t r
    by (auto simp: resolve_request_target_def intro: push_checked_safe safe_add_outcome split: sum.split)
  show "target_count (resolve_request_target T config resolve t r) \<le> Suc (target_count r)" for T config resolve t r
    by (auto simp: resolve_request_target_def push_checked_count split: sum.split)
      (simp add: add_outcome_def target_count_def)
qed

interpretation request_relay: resolution_step resolve_request_relay
proof
  show "safe_resolution T config resolve r \<Longrightarrow> safe_resolution T config resolve (resolve_request_relay T config resolve t r)"
    for T config resolve t r
    by (auto simp: resolve_request_relay_def intro: push_checked_safe safe_add_outcome split: sum.split)
  show "target_count (resolve_request_relay T config resolve t r) \<le> Suc (target_count r)" for T config resolve t r
    by (auto simp: resolve_request_relay_def push_checked_count split: sum.split)
      (simp add: add_outcome_def target_count_def)
qed

interpretation known_relay: resolution_step "\<lambda>T config resolve. resolve_known_relay T config resolve source" for source
proof
  show "safe_resolution T config resolve r \<Longrightarrow> safe_resolution T config resolve (resolve_known_relay T config resolve source t r)"
    for T config resolve t r
    by (auto simp: resolve_known_relay_def intro: push_checked_safe split: sum.split)
  show "target_count (resolve_known_relay T config resolve source t r) \<le> Suc (target_count r)" for T config resolve t r
    by (auto simp: resolve_known_relay_def push_checked_count split: sum.split)
qed

definition explicit_step ::
  "publish_crates \<Rightarrow> transport_nostr_crate \<Rightarrow> transport_publish_config \<Rightarrow> resolver \<Rightarrow> publish_target \<times> transport_id
     \<Rightarrow> resolution \<Rightarrow> resolution" where
  "explicit_step P T config resolve x r =
     (case snd x of
        TransportNostr \<Rightarrow> resolve_request_target T config resolve (fst x) r
      | TransportReticulum \<Rightarrow> add_outcome (reticulum_unavailable_outcome P (fst x)) r
      | _ \<Rightarrow> add_outcome (unsupported_transport_outcome (fst x)) r)"

interpretation explicit_target: resolution_step "explicit_step P" for P
proof
  show "safe_resolution T config resolve r \<Longrightarrow> safe_resolution T config resolve (explicit_step P T config resolve x r)"
    for T config resolve x r
    by (auto simp: explicit_step_def reticulum_unavailable_outcome_def unsupported_transport_outcome_def
        intro: request_target.step_safe safe_add_outcome split: transport_id.split)
  show "target_count (explicit_step P T config resolve x r) \<le> Suc (target_count r)" for T config resolve x r
    using request_target.step_count [of T config resolve "fst x" r]
    by (auto simp: explicit_step_def add_outcome_def target_count_def split: transport_id.split)
qed

lemma explicit_targets_fold:
  "explicit_targets_loop P T config resolve i ts r = Inr r' \<longleftrightarrow>
     (\<exists>kinds. list_all2 (\<lambda>t k. pc_parse_canonical P (pt_transport_kind t) = Inr k) ts kinds \<and>
        r' = fold (explicit_step P T config resolve) (zip ts kinds) r)"
proof (induction ts arbitrary: i r)
  case (Cons t ts)
  have "explicit_targets_loop P T config resolve i (t # ts) r = Inr r' \<longleftrightarrow>
      (\<exists>k. pc_parse_canonical P (pt_transport_kind t) = Inr k \<and>
         explicit_targets_loop P T config resolve (Suc i) ts (explicit_step P T config resolve (t, k) r) = Inr r')"
    unfolding explicit_step_def fst_conv snd_conv by (simp add: and_then_eq_Inr)
  also have "\<dots> \<longleftrightarrow> (\<exists>k kinds. pc_parse_canonical P (pt_transport_kind t) = Inr k \<and>
      list_all2 (\<lambda>t k. pc_parse_canonical P (pt_transport_kind t) = Inr k) ts kinds \<and>
      r' = fold (explicit_step P T config resolve) (zip (t # ts) (k # kinds)) r)"
    unfolding Cons.IH by simp
  also have "\<dots> \<longleftrightarrow> (\<exists>kinds. list_all2 (\<lambda>t k. pc_parse_canonical P (pt_transport_kind t) = Inr k) (t # ts) kinds \<and>
      r' = fold (explicit_step P T config resolve) (zip (t # ts) kinds) r)"
    unfolding list_all2_Cons1 by blast
  finally show ?case .
qed auto

lemma resolve_explicit_safe:
  assumes "resolve_explicit_targets P T config resolve targets = Inr r"
  shows "safe_resolution T config resolve r" and "target_count r \<le> length targets"
proof -
  obtain kinds where k: "list_all2 (\<lambda>t k. pc_parse_canonical P (pt_transport_kind t) = Inr k) targets kinds"
    and r: "r = fold (explicit_step P T config resolve) (zip targets kinds) no_targets"
    using assms by (auto simp: resolve_explicit_targets_def explicit_targets_fold)
  show "safe_resolution T config resolve r" unfolding r by (rule explicit_target.fold_safe_from_none)
  show "target_count r \<le> length targets"
    using explicit_target.fold_count [of P T config resolve "zip targets kinds" no_targets] list_all2_lengthD [OF k]
    by (simp add: r no_targets_def target_count_def)
qed

lemma resolve_author_write_safe:
  assumes "resolve_author_write_relays S now pubkey d = (d', Inr r)"
  shows "safe_resolution (sv_nostr S) (sv_config S) (sv_resolver S) r"
proof -
  let ?safe = "safe_resolution (sv_nostr S) (sv_config S) (sv_resolver S)"
  have known: "?safe (resolve_author_relay_inputs (sv_nostr S) (sv_config S) (sv_resolver S) relays)"
    "?safe (resolve_config_relays (sv_nostr S) (sv_config S) (sv_resolver S) relays source)" for relays source
    unfolding resolve_author_relay_inputs_def resolve_config_relays_def
    by (rule known_relay.fold_safe_from_none)+
  have outs: "\<forall>t \<in> set (rl_outcomes r). refused t" if "?safe r" for r using that by (simp add: safe_resolution_def)
  show ?thesis
    using assms known outs [OF known(1)] outs [OF known(2)]
    by (auto simp: resolve_author_write_relays_def Let_def split: sum.splits if_splits intro!: safe_append_outcomes)
qed

lemma resolve_targets_safe:
  assumes "resolve_targets_for_request S now pubkey request d = (d', Inr r)"
  shows "safe_resolution (sv_nostr S) (sv_config S) (sv_resolver S) r"
proof -
  let ?safe = "safe_resolution (sv_nostr S) (sv_config S) (sv_resolver S)"
  have req: "?safe (resolve_request_relays (sv_nostr S) (sv_config S) (sv_resolver S) relays)" for relays
    unfolding resolve_request_relays_def by (rule request_relay.fold_safe_from_none)
  have def: "?safe (resolve_daemon_default_relays (sv_nostr S) (sv_config S) (sv_resolver S))"
    unfolding resolve_daemon_default_relays_def resolve_config_relays_def by (rule known_relay.fold_safe_from_none)
  have "?safe r" if ad: "resolve_author_or_default_relays S now pubkey d = (d', Inr r)"
  proof -
    obtain a where a: "resolve_author_write_relays S now pubkey d = (d', Inr a)"
      and r: "r = (if rl_targets a = [] then append_outcomes (resolve_daemon_default_relays (sv_nostr S) (sv_config S) (sv_resolver S)) (rl_outcomes a) else a)"
      using ad by (auto simp: resolve_author_or_default_relays_def split: prod.splits sum.splits)
    have "?safe a" by (rule resolve_author_write_safe [OF a])
    then have "\<forall>t \<in> set (rl_outcomes a). refused t" by (simp add: safe_resolution_def)
    then show ?thesis using \<open>?safe a\<close> safe_append_outcomes [OF def] by (simp add: r)
  qed
  then show ?thesis
    using assms req def resolve_explicit_safe(1)
    by (auto simp: resolve_targets_for_request_def Let_def split: target_policy.splits nostr_target_source_policy.splits if_splits)
qed

section \<open>Properties\<close>

text \<open>C25. Nothing is published to an address that was not checked: every target of a request,
  wherever its URL came from (the request, the author's relay list or the configuration), has a
  URL the policy accepts, and under the public policy its host resolved to at least one address
  and all of its addresses passed the check of the transport; no relay is a target twice in the
  same scope, and whatever was refused is recorded as not attempted with a failure.\<close>

theorem targets_are_checked:
  assumes "resolve_targets_for_request S now pubkey request d = (d', Inr r)"
  shows "(\<forall>t \<in> set (rl_targets r).
      (\<exists>value. parse_relay_url (sv_nostr S) value (configured_policy (sv_config S)) = Inr (rv_url t)) \<and>
      (configured_policy (sv_config S) = Public \<longrightarrow>
        (\<exists>addresses. sv_resolver S (rv_url t) = Inr addresses \<and> addresses \<noteq> [] \<and>
           validate_public_resolved_ip_addrs (sv_nostr S) (rv_url t) addresses = Inr ()))) \<and>
    distinct (map (\<lambda>t. (rv_url t, rv_target_scope t)) (rl_targets r)) \<and>
    (\<forall>t \<in> set (rl_outcomes r). \<not> to_attempted t \<and>
      to_outcome_kind t \<in> {OkTargetRejected, OkConnectionFailed, OkDeferredUntilImplemented, OkUnsupported})"
  using resolve_targets_safe [OF assms]
  by (simp add: safe_resolution_def admitted_def refused_def target_key_def [abs_def])

definition sample_nostr :: transport_nostr_crate where
  "sample_nostr = \<lparr>tn_parse = (\<lambda>u p. if u = [] then Inl ''empty url'' else Inr u), tn_as_str = id, tn_ord_key = id,
     tn_validate_resolved_addresses = (\<lambda>u p a. if ''127.0.0.1'' \<in> set a then Inl ''local address'' else Inr ())\<rparr>"

definition sample_config :: transport_publish_config where
  "sample_config = (default_transport_publish_config ''db'')\<lparr>tp_nostr :=
     \<lparr>pn_relay_url_policy = ConfigPublic, pn_author_relay_discovery_relays = [''wss://seed''],
      pn_daemon_default_relays = [''wss://a'', ''wss://evil'', ''wss://a'']\<rparr>\<rparr>"

definition sample_service :: publish_service where
  "sample_service =
     \<lparr>sv_crates = sample_publish, sv_nostr = sample_nostr, sv_codecs = sample_codecs, sv_config = sample_config,
      sv_resolver = (\<lambda>u. if ru_inner u = ''wss://evil'' then Inr [''127.0.0.1''] else if ru_inner u = ''wss://gone''
        then Inl ''not found'' else Inr [''93.184.216.34'']),
      sv_discovery = (\<lambda>k ts n. Inr [''wss://gone'', ''wss://gone''])\<rparr>"

lemmas resolution_defs = resolve_targets_for_request_def resolve_daemon_default_relays_def resolve_config_relays_def
  resolve_known_relay_def push_checked_relay_target_def add_target_def push_resolved_relay_def add_outcome_def
  parse_relay_url_def url_str_def validate_public_resolved_ip_addrs_def no_targets_def default_metadata_def
  relay_resolution_connection_failure_def unattempted_def

lemma sample_resolution:
  "resolve_targets_for_request sample_service 0 key sample_request d =
     (d, Inr
       \<lparr>rl_targets = [\<lparr>rv_url = \<lparr>ru_inner = ''wss://a'', ru_policy = Public\<rparr>, rv_source = TsDaemonDefault,
          rv_target_scope = None, rv_target_label = None\<rparr>],
        rl_outcomes = [unattempted ''nostr'' ''wss://evil'' None None TsDaemonDefault OkTargetRejected ''local address'']\<rparr>)"
  by (simp add: resolution_defs sample_service_def sample_nostr_def sample_config_def sample_request_def
      default_transport_publish_config_def)

theorem targets_are_checked_witness:
  "\<exists>r. resolve_targets_for_request sample_service 0 ''a'' sample_request empty_database = (empty_database, Inr r) \<and>
     rl_targets r \<noteq> [] \<and>
     (\<forall>t \<in> set (rl_targets r). \<exists>addresses. sv_resolver sample_service (rv_url t) = Inr addresses \<and> addresses \<noteq> [] \<and>
        validate_public_resolved_ip_addrs sample_nostr (rv_url t) addresses = Inr ())"
  using sample_resolution targets_are_checked [OF sample_resolution]
  by (simp add: sample_service_def sample_config_def)

definition accounted ::
  "transport_nostr_crate \<Rightarrow> transport_publish_config \<Rightarrow> resolution \<Rightarrow> publish_target \<Rightarrow> bool" where
  "accounted T config r t \<longleftrightarrow>
     (\<exists>x \<in> set (rl_targets r). parse_relay_url T (pt_endpoint_uri t) (configured_policy config) = Inr (rv_url x) \<and>
        rv_target_scope x = pt_target_scope t) \<or>
     (\<exists>x \<in> set (rl_outcomes r). to_target_scope x = pt_target_scope t \<and> to_target_label x = pt_target_label t \<and>
        \<not> to_attempted x \<and> to_message x \<noteq> None)"

lemma push_checked_mono:
  "set (rl_targets r) \<subseteq> set (rl_targets (push_checked_relay_target T config resolve url source metadata r))"
  "set (rl_outcomes r) \<subseteq> set (rl_outcomes (push_checked_relay_target T config resolve url source metadata r))"
  by (auto simp: push_checked_relay_target_def add_target_def push_resolved_relay_def add_outcome_def split: sum.split)

lemma explicit_step_mono:
  "set (rl_targets r) \<subseteq> set (rl_targets (explicit_step P T config resolve x r))"
  "set (rl_outcomes r) \<subseteq> set (rl_outcomes (explicit_step P T config resolve x r))"
  using push_checked_mono [of r T config resolve _ TsRequest "from_target (fst x)"]
  by (auto simp: explicit_step_def resolve_request_target_def add_outcome_def split: transport_id.split sum.split)

lemma accounted_mono:
  "accounted T config r t \<Longrightarrow> set (rl_targets r) \<subseteq> set (rl_targets r') \<Longrightarrow> set (rl_outcomes r) \<subseteq> set (rl_outcomes r') \<Longrightarrow>
     accounted T config r' t"
  unfolding accounted_def by blast

lemma push_checked_accounts:
  assumes "parse_relay_url T (pt_endpoint_uri t) (configured_policy config) = Inr url"
  shows "accounted T config (push_checked_relay_target T config resolve url source (from_target t) r) t"
  using assms
  by (auto simp: accounted_def push_checked_relay_target_def add_target_def push_resolved_relay_def add_outcome_def
      relay_resolution_connection_failure_def unattempted_def from_target_def list_ex_iff split: sum.split)

lemma explicit_step_accounts: "accounted T config (explicit_step P T config resolve (t, k) r) t"
  by (auto simp: explicit_step_def resolve_request_target_def push_checked_accounts split: transport_id.split sum.split)
    (auto simp: accounted_def add_outcome_def unattempted_def reticulum_unavailable_outcome_def unsupported_transport_outcome_def)

lemma fold_accounts:
  "(t \<in> fst ` set xs \<or> accounted T config r t) \<Longrightarrow> accounted T config (fold (explicit_step P T config resolve) xs r) t"
proof (induction xs arbitrary: r)
  case (Cons x xs)
  have "accounted T config (explicit_step P T config resolve x r) t \<or> t \<in> fst ` set xs"
    using Cons.prems explicit_step_accounts [of T config P resolve "fst x" "snd x" r]
      accounted_mono [OF _ explicit_step_mono [of r P T config resolve x]] by auto
  with Cons.IH show ?case by auto
qed simp

text \<open>No explicit target of a request is lost: each one either is a target of the resolution
  with its URL and scope or has an outcome that carries its scope, its label and a reason, and
  there are never more targets and outcomes than were asked for.\<close>

theorem explicit_targets_accounted:
  assumes "resolve_explicit_targets P T config resolve targets = Inr r"
  shows "(\<forall>t \<in> set targets. accounted T config r t) \<and> target_count r \<le> length targets"
proof -
  obtain kinds where k: "list_all2 (\<lambda>t k. pc_parse_canonical P (pt_transport_kind t) = Inr k) targets kinds"
    and r: "r = fold (explicit_step P T config resolve) (zip targets kinds) no_targets"
    using assms by (auto simp: resolve_explicit_targets_def explicit_targets_fold)
  have "fst ` set (zip targets kinds) = set targets"
    using list_all2_lengthD [OF k] by (metis list.set_map map_fst_zip)
  then show ?thesis using resolve_explicit_safe(2) [OF assms] fold_accounts by (auto simp: r)
qed

theorem explicit_targets_accounted_witness:
  "\<exists>r. resolve_explicit_targets sample_publish sample_nostr sample_config (sv_resolver sample_service)
      [\<lparr>pt_transport_kind = ''reticulum'', pt_endpoint_uri = ''r'', pt_target_scope = Some ''s'', pt_target_label = None\<rparr>] = Inr r \<and>
     accounted sample_nostr sample_config r
      \<lparr>pt_transport_kind = ''reticulum'', pt_endpoint_uri = ''r'', pt_target_scope = Some ''s'', pt_target_label = None\<rparr>"
proof -
  let ?t = "\<lparr>pt_transport_kind = ''reticulum'', pt_endpoint_uri = ''r'', pt_target_scope = Some ''s'', pt_target_label = None\<rparr>"
  have "resolve_explicit_targets sample_publish sample_nostr sample_config (sv_resolver sample_service) [?t] =
      Inr (add_outcome (reticulum_unavailable_outcome sample_publish ?t) no_targets)"
    by (simp add: resolve_explicit_targets_def sample_publish_def)
  with explicit_targets_accounted [OF this] show ?thesis by auto
qed

section \<open>Discovery\<close>

lemma newer_key: "(uint (ev_created_at a), ev_id a) \<le> (uint (ev_created_at (newer b a)), ev_id (newer b a)) \<and>
    (uint (ev_created_at b), ev_id b) \<le> (uint (ev_created_at (newer b a)), ev_id (newer b a)) \<and> newer b a \<in> {a, b}"
  unfolding newer_def by (simp only: not_less split: if_split) (auto simp: less_imp_le)

lemma fold_newer:
  "(\<forall>x \<in> set (b # es). (uint (ev_created_at x), ev_id x) \<le>
      (uint (ev_created_at (fold (\<lambda>x best. newer best x) es b)), ev_id (fold (\<lambda>x best. newer best x) es b))) \<and>
    fold (\<lambda>x best. newer best x) es b \<in> set (b # es)"
proof (induction es arbitrary: b)
  case (Cons a es)
  let ?k = "\<lambda>e. (uint (ev_created_at e), ev_id e)"
  let ?m = "fold (\<lambda>x best. newer best x) es (newer b a)"
  have IH: "\<forall>x \<in> set (newer b a # es). ?k x \<le> ?k ?m" "?m \<in> set (newer b a # es)" using Cons by blast+
  have "?k a \<le> ?k ?m" "?k b \<le> ?k ?m"
    using newer_key [of a b] IH(1) by (meson list.set_intros(1) order_trans)+
  moreover have "?m \<in> set (b # a # es)" using IH(2) newer_key [of a b] by auto
  ultimately show ?case using IH(1) by simp
qed simp

lemma nip65_write_relay_iff:
  "nip65_write_relay tag = Some relay \<longleftrightarrow>
     (\<exists>value rest. tag = ''r'' # value # rest \<and> relay = trim value \<and> relay \<noteq> [] \<and> (rest = [] \<or> hd rest \<noteq> ''read''))"
  by (auto simp: nip65_write_relay_def split: list.splits)

text \<open>The relays discovered for an author are those of the newest relay list the discovery
  relays returned (the greatest identifier among equally new ones), and exactly the ones that list
  does not mark as read-only.\<close>

theorem discovery_uses_newest_list:
  assumes "nostr_author_relay_discovery C T pubkey targets secs = Inr relays" and "relays \<noteq> []"
  shows "\<exists>key events e. dc_public_key_from_hex C pubkey = Some key \<and> dc_fetch_events C key 10002 10 secs = Inr events \<and>
    e \<in> set events \<and>
    (\<forall>x \<in> set events. uint (ev_created_at x) < uint (ev_created_at e) \<or>
       uint (ev_created_at x) = uint (ev_created_at e) \<and> ev_id x \<le> ev_id e) \<and>
    (\<forall>relay. relay \<in> set relays \<longleftrightarrow> (\<exists>value rest. ''r'' # value # rest \<in> set (ev_tags e) \<and>
       relay = trim value \<and> relay \<noteq> [] \<and> (rest = [] \<or> hd rest \<noteq> ''read'')))"
proof -
  obtain key events e where k: "dc_public_key_from_hex C pubkey = Some key" "dc_fetch_events C key 10002 10 secs = Inr events"
    and e: "newest_event events = Some e" and relays: "relays = author_write_relays_from_nip65_event e"
    using assms by (auto simp: nostr_author_relay_discovery_def split: option.splits if_splits sum.splits)
  obtain b es where events: "events = b # es" and eq: "e = fold (\<lambda>x best. newer best x) es b"
    using e by (cases events) auto
  have "e \<in> set events" "\<forall>x \<in> set events. (uint (ev_created_at x), ev_id x) \<le> (uint (ev_created_at e), ev_id e)"
    using fold_newer [of b es] unfolding events eq by blast+
  moreover from this(2) have "\<forall>x \<in> set events. uint (ev_created_at x) < uint (ev_created_at e) \<or>
       uint (ev_created_at x) = uint (ev_created_at e) \<and> ev_id x \<le> ev_id e" by (fastforce simp: less_eq_prod_def)
  moreover have "\<forall>relay. relay \<in> set relays \<longleftrightarrow> (\<exists>value rest. ''r'' # value # rest \<in> set (ev_tags e) \<and>
       relay = trim value \<and> relay \<noteq> [] \<and> (rest = [] \<or> hd rest \<noteq> ''read''))"
    unfolding relays author_write_relays_from_nip65_event_def set_map_filter_iff nip65_write_relay_iff by blast
  ultimately show ?thesis using k by blast
qed

definition sample_list_event :: "u64 \<Rightarrow> string \<Rightarrow> string list list \<Rightarrow> event" where
  "sample_list_event t i tags = \<lparr>ev_id = i, ev_pubkey = ''a'', ev_created_at = t, ev_kind = 10002, ev_tags = tags,
     ev_content = [], ev_sig = []\<rparr>"

definition sample_discovery :: discovery_crates where
  "sample_discovery = \<lparr>dc_url_parse = (\<lambda>u. Inl ''unused''), dc_lookup_host = (\<lambda>h p. Inl ''unused''),
     dc_public_key_from_hex = Some, dc_add_read_relay = (\<lambda>u. Inr True),
     dc_fetch_events = (\<lambda>k kind n secs. Inr [sample_list_event 5 ''b'' [[''r'', ''wss://new''], [''r'', ''wss://in'', ''read'']],
       sample_list_event 4 ''c'' [[''r'', ''wss://old'']]])\<rparr>"

lemma sample_discovered:
  "nostr_author_relay_discovery sample_discovery sample_nostr ''a'' [] 10 = Inr [''wss://new'']"
proof -
  have t: "trim ''wss://new'' = ''wss://new''" by code_simp
  have "nip65_write_relay [''r'', ''wss://new''] = Some ''wss://new''"
    "nip65_write_relay [''r'', ''wss://in'', ''read''] = None"
    by (simp_all add: nip65_write_relay_def t)
  then have tags: "List.map_filter nip65_write_relay [[''r'', ''wss://new''], [''r'', ''wss://in'', ''read'']] = [''wss://new'']"
    by (simp add: List.map_filter_simps)
  have newest: "newest_event [sample_list_event 5 ''b'' x, sample_list_event 4 ''c'' y] = Some (sample_list_event 5 ''b'' x)" for x y
    by (simp add: newer_def sample_list_event_def)
  show ?thesis
    unfolding nostr_author_relay_discovery_def sample_discovery_def discovery_crates.simps option.case sum.case
      list_ex_Nil_iff if_False newest author_write_relays_from_nip65_event_def
    unfolding sample_list_event_def event.simps tags ..
qed

theorem discovery_uses_newest_list_witness:
  "\<exists>key events e. dc_public_key_from_hex sample_discovery ''a'' = Some key \<and>
    dc_fetch_events sample_discovery key 10002 10 10 = Inr events \<and> e \<in> set events \<and>
    (\<forall>x \<in> set events. uint (ev_created_at x) < uint (ev_created_at e) \<or>
       uint (ev_created_at x) = uint (ev_created_at e) \<and> ev_id x \<le> ev_id e) \<and>
    (\<forall>relay. relay \<in> set [''wss://new''] \<longleftrightarrow> (\<exists>value rest. ''r'' # value # rest \<in> set (ev_tags e) \<and>
       relay = trim value \<and> relay \<noteq> [] \<and> (rest = [] \<or> hd rest \<noteq> ''read'')))"
  by (rule discovery_uses_newest_list [OF sample_discovered list.distinct(2)])

end
