(* ===== verification/Publish_Engine.thy ===== *)
theory Publish_Engine
  imports Publish_Targets
begin

text \<open>
  Publishing an event (\<open>TransportPublish\<close> of \<open>src/core/transport_publish.rs\<close>): the checks of a
  request, the limit on jobs that run at once, the job's record, the attempt to publish with its
  time limit, and the job's completion.  The clock and the fresh job identifier are arguments, and
  so is what the attempt gives: the receipts of the adapter, or none when the time limit passed
  first.
\<close>

section \<open>Requests\<close>

definition signed_event_from_raw_json :: "publish_crates \<Rightarrow> string \<Rightarrow> tp_error + signed_event" where
  "signed_event_from_raw_json P raw_json =
     and_then (map_err TpEventWire (pc_parse_event_wire P raw_json)) (\<lambda>wire.
     and_then (map_err TpSignedEvent (pc_from_wire_verified_id P wire raw_json)) (\<lambda>e.
       if pc_verify_signature P e then Inr e
       else Inl (TpInvalidSignedEvent ''signature verification failed'')))"

text \<open>What the fingerprint of a request covers; \<open>serde_json\<close>'s text of it is a parameter.\<close>

record fingerprint_input =
  fi_principal_id :: string
  fi_canonical_event_json :: string
  fi_target_policy :: target_policy
  fi_delivery_policy :: delivery_policy
  fi_effective_timeout_ms :: u64

definition request_intent_fingerprint ::
  "publish_crates \<Rightarrow> (fingerprint_input \<Rightarrow> string + string) \<Rightarrow> string \<Rightarrow> string \<Rightarrow> event_request \<Rightarrow> u64 \<Rightarrow> tp_error + string" where
  "request_intent_fingerprint P to_vec principal_id canonical_event_json request effective_timeout_ms =
     map_ok (\<lambda>bytes. hex_encode (pc_sha256 P bytes))
       (map_err TpJson (to_vec
         \<lparr>fi_principal_id = principal_id, fi_canonical_event_json = canonical_event_json,
          fi_target_policy = er_target_policy request, fi_delivery_policy = er_delivery_policy request,
          fi_effective_timeout_ms = effective_timeout_ms\<rparr>))"

definition effective_publish_timeout_ms :: "transport_publish_config \<Rightarrow> u64 option \<Rightarrow> tp_error + u64" where
  "effective_publish_timeout_ms config timeout_ms =
     (let max_timeout_ms = saturating_mul (tp_connect_timeout_secs config) 1000 in
      case timeout_ms of
        Some ms \<Rightarrow>
          if ms = 0 then Inl (TpInvalidSignedEvent ''timeout_ms must be greater than zero'')
          else if max_timeout_ms < ms
          then Inl (TpInvalidSignedEvent (''timeout_ms must be at most '' @ show_nat (unat max_timeout_ms)))
          else Inr ms
      | None \<Rightarrow> Inr max_timeout_ms)"

section \<open>Receipts\<close>

fun publish_outcome_kind :: "relay_outcome_kind \<Rightarrow> outcome_kind" where
  "publish_outcome_kind RkAccepted = OkAccepted"
| "publish_outcome_kind RkDuplicateAccepted = OkDuplicateAccepted"
| "publish_outcome_kind RkBlocked = OkBlocked"
| "publish_outcome_kind RkRateLimited = OkRateLimited"
| "publish_outcome_kind RkInvalid = OkInvalid"
| "publish_outcome_kind RkPowRequired = OkPowRequired"
| "publish_outcome_kind RkRestricted = OkRestricted"
| "publish_outcome_kind RkAuthRequired = OkAuthRequired"
| "publish_outcome_kind RkMuted = OkMuted"
| "publish_outcome_kind RkUnsupported = OkUnsupported"
| "publish_outcome_kind RkPaymentRequired = OkPaymentRequired"
| "publish_outcome_kind RkError = OkError"
| "publish_outcome_kind RkTimeout = OkTimeout"
| "publish_outcome_kind RkConnectionFailed = OkConnectionFailed"
| "publish_outcome_kind RkUnknown = OkUnknown"

definition receipt_outcome :: "relay_publish_receipt \<Rightarrow> u64 option \<Rightarrow> resolved_relay \<Rightarrow> target_outcome" where
  "receipt_outcome receipt latency_ms t =
     \<lparr>to_transport_kind = ''nostr'', to_endpoint_uri = rr_relay_url receipt,
      to_target_scope = rv_target_scope t, to_target_label = rv_target_label t, to_source = rv_source t,
      to_attempted = rr_attempted receipt, to_outcome_kind = publish_outcome_kind (ro_kind (rr_outcome receipt)),
      to_message = ro_message (rr_outcome receipt), to_latency_ms = latency_ms\<rparr>"

definition publish_outcomes_from_receipt ::
  "transport_nostr_crate \<Rightarrow> resolved_relay list \<Rightarrow> u64 option \<Rightarrow> relay_publish_receipt \<Rightarrow> target_outcome list" where
  "publish_outcomes_from_receipt T targets latency_ms receipt =
     map (receipt_outcome receipt latency_ms)
       (filter (\<lambda>t. url_str T (rv_url t) = rr_relay_url receipt) targets)"

definition timeout_receipts :: "transport_nostr_crate \<Rightarrow> relay_url list \<Rightarrow> relay_publish_receipt list" where
  "timeout_receipts T targets =
     map (\<lambda>t. receipt_attempted (url_str T t) (outcome_timeout ''timeout: publish attempt exceeded daemon bound'')) targets"

definition transport_error_receipts ::
  "transport_nostr_crate \<Rightarrow> relay_url list \<Rightarrow> tp_error \<Rightarrow> relay_publish_receipt list" where
  "transport_error_receipts T targets error =
     map (\<lambda>t. receipt_attempted (url_str T t) (outcome_connection_failed (''error: '' @ tp_error_text error))) targets"

section \<open>Running a job\<close>

text \<open>The publishing adapter is a trait: its answer to a request, or None when it has not answered
  within the time limit.\<close>

type_synonym adapter = "publish_request \<Rightarrow> u64 \<Rightarrow> (relay_publish_error + relay_publish_receipt list) option"

definition job_receipts ::
  "transport_nostr_crate \<Rightarrow> adapter \<Rightarrow> publish_request \<Rightarrow> u64 \<Rightarrow> relay_publish_receipt list" where
  "job_receipts T adapter request timeout_ms =
     (case adapter request timeout_ms of
        Some (Inr receipts) \<Rightarrow> receipts
      | Some (Inl error) \<Rightarrow>
          transport_error_receipts T (rp_targets request) (TpRelay (relay_publish_error_text error))
      | None \<Rightarrow> timeout_receipts T (rp_targets request))"

text \<open>The clocks of an execution: the time when the request is built, the milliseconds the attempt
  took, and the time of completion.\<close>

record clocks =
  ck_request_ms :: int
  ck_latency_ms :: nat
  ck_completed_ms :: int

definition latency_u64 :: "nat \<Rightarrow> u64" where
  "latency_u64 n = (if n < 2 ^ 64 then of_nat n else - 1)"

definition finish_job ::
  "publish_service \<Rightarrow> int \<Rightarrow> string \<Rightarrow> job_status \<Rightarrow> target_outcome list \<Rightarrow> string option \<Rightarrow> database
     \<Rightarrow> database \<times> (tp_error + job)" where
  "finish_job S now job_id status outcomes last_error d =
     (case complete_publish_job (sv_codecs S) now job_id status outcomes last_error d of
        (d', Inl e) \<Rightarrow> (d', Inl e)
      | (d', Inr _) \<Rightarrow> (d', job_by_id (sv_crates S) (sv_codecs S) d' job_id))"

definition complete_job_execution ::
  "publish_service \<Rightarrow> adapter \<Rightarrow> clocks \<Rightarrow> string \<Rightarrow> signed_event \<Rightarrow> delivery_policy \<Rightarrow> u64 \<Rightarrow> resolution
     \<Rightarrow> database \<Rightarrow> database \<times> (tp_error + job)" where
  "complete_job_execution S adapter ck job_id e policy timeout_ms r d =
     (let P = sv_crates S; T = sv_nostr S; n = target_count r in
      if rl_targets r = [] then
        let status = (if rl_outcomes r = [] then JsRejected else delivery_status P policy n (rl_outcomes r))
        in finish_job S (ck_completed_ms ck) job_id status (rl_outcomes r) (last_error_for_status status) d
      else if n < pc_required_target_count P policy n then
        finish_job S (ck_completed_ms ck) job_id JsRejected (rl_outcomes r)
          (Some ''delivery_quorum_exceeds_target_count'') d
      else case map_err (\<lambda>e. TpRelay (relay_publish_error_text e)) (from_urls T (map rv_url (rl_targets r))) of
             Inl error \<Rightarrow> (d, Inl error)
           | Inr target_set \<Rightarrow>
               let request = \<lparr>rp_signed_event = e, rp_targets = target_set, rp_now_ms = ck_request_ms ck\<rparr>;
                   receipts = job_receipts T adapter request timeout_ms;
                   latency_ms = latency_u64 (ck_latency_ms ck);
                   outcomes = rl_outcomes r @
                     concat (map (publish_outcomes_from_receipt T (rl_targets r) (Some latency_ms)) receipts);
                   status = delivery_status P policy n outcomes
               in finish_job S (ck_completed_ms ck) job_id status outcomes (last_error_for_status status) d)"

section \<open>Publishing an event\<close>

definition acquire_publish_permit :: "nat \<Rightarrow> tp_error + nat" where
  "acquire_publish_permit available =
     (if available = 0 then Inl TpConcurrencyLimit else Inr (available - 1))"

text \<open>What is checked before a permit is taken.\<close>

definition check_request ::
  "publish_service \<Rightarrow> principal \<Rightarrow> event_request \<Rightarrow> tp_error + signed_event \<times> u64" where
  "check_request S p request =
     and_then (map_err (\<lambda>e. TpInvalidSignedEvent (''publish request validation failed: '' @ e))
       (pc_validate_request (sv_crates S) request (tp_max_targets_per_request (sv_config S)))) (\<lambda>_.
     if tp_max_event_bytes (sv_config S) < length (er_raw_event_json request)
     then Inl (TpInvalidSignedEvent ''signed event exceeds transport_publish max_event_bytes'')
     else and_then (signed_event_from_raw_json (sv_crates S) (er_raw_event_json request)) (\<lambda>e.
       and_then (allows_event (sv_crates S) p e request) (\<lambda>_.
       and_then (effective_publish_timeout_ms (sv_config S) (er_timeout_ms request)) (\<lambda>timeout_ms.
         Inr (e, timeout_ms)))))"

text \<open>The request after its permit was taken, up to the job's record.\<close>

record publish_inputs =
  in_to_vec :: "fingerprint_input \<Rightarrow> string + string"
  in_job_id :: string
  in_cache_ms :: int
  in_record_ms :: int
  in_clocks :: clocks

definition job_insert_of ::
  "publish_service \<Rightarrow> principal \<Rightarrow> event_request \<Rightarrow> signed_event \<Rightarrow> string \<Rightarrow> resolution \<Rightarrow> job_insert" where
  "job_insert_of S p request e fingerprint r =
     \<lparr>ji_principal_id = pp_principal_id p, ji_idempotency_key = er_idempotency_key request,
      ji_event = from_signed_event e, ji_request = request, ji_request_fingerprint = fingerprint,
      ji_effective_target_count = target_count r,
      ji_target_snapshots = target_snapshots_from_resolution (sv_nostr S) r\<rparr>"

definition record_request ::
  "publish_service \<Rightarrow> publish_inputs \<Rightarrow> principal \<Rightarrow> event_request \<Rightarrow> signed_event \<Rightarrow> u64 \<Rightarrow> database
     \<Rightarrow> database \<times> (tp_error + resolution \<times> event_response)" where
  "record_request S I p request e timeout_ms d =
     (case request_intent_fingerprint (sv_crates S) (in_to_vec I) (pp_principal_id p) (se_raw_json e) request timeout_ms of
        Inl error \<Rightarrow> (d, Inl error)
      | Inr fingerprint \<Rightarrow>
          (case resolve_targets_for_request S (in_cache_ms I) (se_pubkey e) request d of
             (d1, Inl error) \<Rightarrow> (d1, Inl error)
           | (d1, Inr r) \<Rightarrow>
               (case validate_delivery_policy_for_resolution (sv_crates S) (sv_nostr S) (er_delivery_policy request) r of
                  Inl error \<Rightarrow> (d1, Inl error)
                | Inr _ \<Rightarrow>
                    (case record_publish_job (sv_crates S) (sv_codecs S) (in_job_id I) (in_record_ms I)
                        (job_insert_of S p request e fingerprint r) d1 of
                       (d2, Inl error) \<Rightarrow> (d2, Inl error)
                     | (d2, Inr response) \<Rightarrow> (d2, Inr (r, response))))))"

definition publish_event ::
  "publish_service \<Rightarrow> adapter \<Rightarrow> publish_inputs \<Rightarrow> nat \<Rightarrow> principal \<Rightarrow> event_request \<Rightarrow> database
     \<Rightarrow> database \<times> (tp_error + event_response)" where
  "publish_event S adapter I available p request d =
     (case and_then (check_request S p request) (\<lambda>checked.
           and_then (acquire_publish_permit available) (\<lambda>_. Inr checked)) of
        Inl error \<Rightarrow> (d, Inl error)
      | Inr (e, timeout_ms) \<Rightarrow>
          (case record_request S I p request e timeout_ms d of
             (d1, Inl error) \<Rightarrow> (d1, Inl error)
           | (d1, Inr (r, response)) \<Rightarrow>
               if rs_deduplicated response then (d1, Inr response)
               else case complete_job_execution S adapter (in_clocks I) (jb_job_id (rs_job response)) e
                      (er_delivery_policy request) timeout_ms r d1 of
                      (d2, Inl error) \<Rightarrow> (d2, Inl error)
                    | (d2, Inr completed) \<Rightarrow> (d2, Inr \<lparr>rs_deduplicated = False, rs_job = completed\<rparr>)))"

section \<open>Sources of receipts\<close>

text \<open>Whatever answers for an attempt has one receipt per target, in the order of the targets.\<close>

locale receipt_source =
  fixes receipts :: "transport_nostr_crate \<Rightarrow> relay_url list \<Rightarrow> relay_publish_receipt list"
  assumes receipt_urls: "map rr_relay_url (receipts T ts) = map (url_str T) ts"
begin

lemma receipts_length: "length (receipts T ts) = length ts"
  using receipt_urls [of T ts] by (metis length_map)

lemma receipts_distinct: "distinct (map (url_str T) ts) \<Longrightarrow> distinct (map rr_relay_url (receipts T ts))"
  by (simp add: receipt_urls)

end

interpretation timeouts: receipt_source timeout_receipts
  by unfold_locales (simp add: timeout_receipts_def receipt_attempted_def)

interpretation errors: receipt_source "\<lambda>T ts. transport_error_receipts T ts error" for error
  by unfold_locales (simp add: transport_error_receipts_def receipt_attempted_def)

interpretation live: receipt_source
  "\<lambda>T ts. map (\<lambda>t. receipt_attempted (url_str T t) (attempt_outcome C e (url_str T t))) ts" for C e
  by unfold_locales (simp add: receipt_attempted_def)

text \<open>The contract of the adapter: a successful answer has one receipt per target.\<close>

definition adapter_ok :: "transport_nostr_crate \<Rightarrow> adapter \<Rightarrow> bool" where
  "adapter_ok T adapter \<longleftrightarrow> (\<forall>request ms receipts.
     adapter request ms = Some (Inr receipts) \<longrightarrow> map rr_relay_url receipts = map (url_str T) (rp_targets request))"

text \<open>The daemon's own adapter, cut off after the time limit when \<open>slow\<close> says so.\<close>

definition live_adapter :: "transport_nostr_crate \<Rightarrow> relay_client \<Rightarrow> (publish_request \<Rightarrow> u64 \<Rightarrow> bool) \<Rightarrow> adapter" where
  "live_adapter T C slow request ms = (if slow request ms then None else Some (publish T C request))"

lemma live_adapter_ok: "adapter_ok T (live_adapter T C slow)"
  by (auto simp: adapter_ok_def live_adapter_def publish_def live.receipt_urls receipt_attempted_def
      split: if_splits sum.splits)

lemma job_receipt_urls:
  assumes "adapter_ok T adapter"
  shows "map rr_relay_url (job_receipts T adapter request ms) = map (url_str T) (rp_targets request)"
proof (cases "adapter request ms")
  case (Some answer)
  with assms show ?thesis
    by (cases answer) (auto simp: job_receipts_def adapter_ok_def errors.receipt_urls)
qed (simp add: job_receipts_def timeouts.receipt_urls)

section \<open>One outcome per target\<close>

text \<open>URLs of one policy are told apart by their text.\<close>

definition texts_ok :: "transport_nostr_crate \<Rightarrow> bool" where
  "texts_ok T \<longleftrightarrow> inj (tn_as_str T) \<and> ordered_urls T"

definition one_policy :: "resolved_relay list \<Rightarrow> bool" where
  "one_policy targets \<longleftrightarrow> (\<exists>p. \<forall>t \<in> set targets. ru_policy (rv_url t) = p)"

lemma url_str_inj:
  "texts_ok T \<Longrightarrow> ru_policy u = ru_policy v \<Longrightarrow> url_str T u = url_str T v \<longleftrightarrow> u = v"
  by (cases u; cases v) (auto simp: texts_ok_def url_str_def dest: injD)

lemma one_policyD: "one_policy ts \<Longrightarrow> s \<in> set ts \<Longrightarrow> t \<in> set ts \<Longrightarrow> ru_policy (rv_url s) = ru_policy (rv_url t)"
  by (auto simp: one_policy_def)

text \<open>Sorting the targets by the receipt that answers for them loses none and doubles none.\<close>

lemma partition_by_key:
  assumes "distinct ks" and "f ` set xs \<subseteq> set ks"
  shows "mset (concat (map (\<lambda>k. filter (\<lambda>x. f x = k) xs) ks)) = mset xs"
  using assms
proof (induction ks arbitrary: xs)
  case (Cons k ks)
  let ?rest = "filter (\<lambda>x. f x \<noteq> k) xs"
  have "map (\<lambda>j. filter (\<lambda>x. f x = j) xs) ks = map (\<lambda>j. filter (\<lambda>x. f x = j) ?rest) ks"
    using Cons.prems(1) by (auto intro!: filter_cong)
  moreover have "mset (concat (map (\<lambda>j. filter (\<lambda>x. f x = j) ?rest) ks)) = mset ?rest"
    using Cons.prems by (intro Cons.IH) auto
  ultimately have "mset (concat (map (\<lambda>j. filter (\<lambda>x. f x = j) xs) (k # ks))) =
      mset (filter (\<lambda>x. f x = k) xs) + mset ?rest"
    by (simp only: list.map concat.simps mset_append)
  also have "\<dots> = mset xs"
    unfolding mset_filter by (rule multiset_partition [symmetric])
  finally show ?case .
qed simp

lemma outcomes_of_receipts:
  assumes "map rr_relay_url receipts = map (url_str T) urls" and "distinct (map (url_str T) urls)"
    and "rv_url ` set targets \<subseteq> set urls"
  shows "mset (map outcome_key (concat (map (publish_outcomes_from_receipt T targets latency) receipts))) =
    mset (map (\<lambda>t. (''nostr'', url_str T (rv_url t), storage_target_scope (rv_target_scope t))) targets)"
proof -
  let ?key = "\<lambda>t. (''nostr'', url_str T (rv_url t), storage_target_scope (rv_target_scope t))"
  have one: "map outcome_key (publish_outcomes_from_receipt T targets latency r) =
      map ?key (filter (\<lambda>t. url_str T (rv_url t) = rr_relay_url r) targets)" for r
    by (auto simp: publish_outcomes_from_receipt_def receipt_outcome_def outcome_key_def)
  have "map outcome_key (concat (map (publish_outcomes_from_receipt T targets latency) receipts)) =
      map ?key (concat (map (\<lambda>u. filter (\<lambda>t. url_str T (rv_url t) = u) targets) (map rr_relay_url receipts)))"
    by (simp add: map_concat comp_def one)
  moreover have "mset (concat (map (\<lambda>u. filter (\<lambda>t. url_str T (rv_url t) = u) targets) (map rr_relay_url receipts))) = mset targets"
    using assms by (intro partition_by_key) (auto simp: assms(1))
  ultimately show ?thesis by simp
qed

lemma resolution_one_policy: "safe_resolution T config resolve r \<Longrightarrow> one_policy (rl_targets r)"
  by (force simp: safe_resolution_def admitted_def parse_relay_url_def one_policy_def map_ok_eq_Inr)

lemma target_set_texts:
  assumes "from_urls T (map rv_url targets) = Inr urls" and "texts_ok T" and "one_policy targets"
  shows "distinct (map (url_str T) urls)" and "set urls = rv_url ` set targets"
proof -
  note f = from_urls_ok [OF _ assms(1)]
  show "set urls = rv_url ` set targets" using f(2) assms(2) by (simp add: texts_ok_def)
  then have "ru_policy u = ru_policy v" if "u \<in> set urls" "v \<in> set urls" for u v
    using that assms(3) by (auto dest: one_policyD)
  then have "inj_on (url_str T) (set urls)"
    using url_str_inj [OF assms(2)] by (auto intro!: inj_onI)
  then show "distinct (map (url_str T) urls)"
    using f(1) assms(2) by (simp add: distinct_map texts_ok_def)
qed

lemma snapshot_keys:
  "map outcome_key (target_snapshots_from_resolution T r) = map outcome_key (rl_outcomes r) @
     map (\<lambda>t. (''nostr'', url_str T (rv_url t), storage_target_scope (rv_target_scope t))) (rl_targets r)"
  by (simp add: target_snapshots_from_resolution_def outcome_key_def)

lemma length_snapshots: "length (target_snapshots_from_resolution T r) = target_count r"
  by (simp add: target_snapshots_from_resolution_def target_count_def)

lemma storable_receipt_outcomes:
  assumes "list_all storable (target_snapshots_from_resolution T r)" and "uint latency \<le> i64_max"
  shows "list_all storable (concat (map (publish_outcomes_from_receipt T (rl_targets r) (Some latency)) receipts))"
proof -
  have "rv_target_scope t \<noteq> Some []" if "t \<in> set (rl_targets r)" for t
    using that assms(1) by (simp add: target_snapshots_from_resolution_def list.pred_map)
      (simp add: list_all_iff storable_def)
  then show ?thesis
    using assms(2) by (auto simp: list_all_iff storable_def publish_outcomes_from_receipt_def receipt_outcome_def)
qed

lemma latency_u64_small: "int n \<le> i64_max \<Longrightarrow> uint (latency_u64 n) \<le> i64_max"
  by (simp add: latency_u64_def i64_max_def uint_nat unsigned_of_nat take_bit_nat_eq_self)

lemma finish_job_effect:
  assumes "codecs_ok (sv_codecs S)" and "job_by_id (sv_crates S) (sv_codecs S) d jid = Inr before"
    and "distinct (map outcome_key ts)" and "list_all storable ts" and "int (length ts) \<le> i64_max"
  shows "\<exists>d' v. finish_job S now jid status ts e d =
      (d', map_ok (\<lambda>_. v) (map_err TpInvalidPublishJobState (pc_validate_job (sv_crates S) v))) \<and>
    jb_status v = status \<and> jb_targets v = sort_key outcome_key ts \<and> jb_target_count v = length ts \<and>
    jb_last_error v = e \<and> jb_completed_at_ms v = Some now \<and> jb_job_id v = jb_job_id before"
proof -
  let ?v = "finalize_job_view (sv_crates S) ((completed_view status now e (length ts) before)\<lparr>jb_targets := sort_key outcome_key ts\<rparr>)"
  obtain d' where "complete_publish_job (sv_codecs S) now jid status ts e d = (d', Inr ())"
    "job_by_id (sv_crates S) (sv_codecs S) d' jid = map_ok (\<lambda>_. ?v) (map_err TpInvalidPublishJobState (pc_validate_job (sv_crates S) ?v))"
    using complete_publish_job_effect [OF assms, of now status e] unfolding Let_def by blast
  then have "finish_job S now jid status ts e d =
      (d', map_ok (\<lambda>_. ?v) (map_err TpInvalidPublishJobState (pc_validate_job (sv_crates S) ?v)))"
    by (simp add: finish_job_def)
  then show ?thesis
    by (intro exI [of _ d'] exI [of _ ?v]) (simp add: finalize_job_view_def completed_view_def)
qed

section \<open>Properties\<close>

text \<open>C3. Every target of a published event gets exactly one outcome: whether the adapter answers,
  fails or is cut off by the time limit, the completed job shows for each relay of the resolution
  and for each target refused before it one outcome and no others, counts exactly them, and has
  the status its delivery policy gives for them; it is never left publishing.  The targets must
  be told apart by transport, endpoint and scope, as the table of results requires.\<close>

theorem every_target_answered:
  assumes "resolve_targets_for_request S now pubkey request d0 = (d, Inr r)"
    and "texts_ok (sv_nostr S)" and "adapter_ok (sv_nostr S) adapter" and "codecs_ok (sv_codecs S)"
    and "job_by_id (sv_crates S) (sv_codecs S) d jid = Inr before"
    and "distinct (map outcome_key (target_snapshots_from_resolution (sv_nostr S) r))"
    and "list_all storable (target_snapshots_from_resolution (sv_nostr S) r)"
    and "int (target_count r) \<le> i64_max" and "int (ck_latency_ms ck) \<le> i64_max"
    and "rl_targets r \<noteq> []" and "pc_required_target_count (sv_crates S) policy (target_count r) \<le> target_count r"
  shows "\<exists>d' v outcomes. complete_job_execution S adapter ck jid e policy timeout_ms r d =
      (d', map_ok (\<lambda>_. v) (map_err TpInvalidPublishJobState (pc_validate_job (sv_crates S) v))) \<and>
    mset (map outcome_key (jb_targets v)) = mset (map outcome_key (target_snapshots_from_resolution (sv_nostr S) r)) \<and>
    jb_target_count v = target_count r \<and> mset outcomes = mset (jb_targets v) \<and>
    jb_status v = delivery_status (sv_crates S) policy (target_count r) outcomes \<and> jb_status v \<noteq> JsPublishing"
proof -
  let ?T = "sv_nostr S"
  have one: "one_policy (rl_targets r)" using resolve_targets_safe [OF assms(1)] by (rule resolution_one_policy)
  obtain urls where urls: "from_urls ?T (map rv_url (rl_targets r)) = Inr urls"
    using assms(10) by (simp add: from_urls_def)
  note texts = target_set_texts [OF urls assms(2) one]
  let ?request = "\<lparr>rp_signed_event = e, rp_targets = urls, rp_now_ms = ck_request_ms ck\<rparr>"
  let ?receipts = "job_receipts ?T adapter ?request timeout_ms"
  let ?new = "concat (map (publish_outcomes_from_receipt ?T (rl_targets r) (Some (latency_u64 (ck_latency_ms ck)))) ?receipts)"
  let ?outcomes = "rl_outcomes r @ ?new"
  let ?status = "delivery_status (sv_crates S) policy (target_count r) ?outcomes"
  have "map rr_relay_url ?receipts = map (url_str ?T) urls"
    using job_receipt_urls [OF assms(3), of ?request timeout_ms] by simp
  then have "mset (map outcome_key ?new) =
      mset (map (\<lambda>t. (''nostr'', url_str ?T (rv_url t), storage_target_scope (rv_target_scope t))) (rl_targets r))"
    by (rule outcomes_of_receipts [OF _ texts(1)]) (rule equalityD2 [OF texts(2)])
  then have keys: "mset (map outcome_key ?outcomes) = mset (map outcome_key (target_snapshots_from_resolution ?T r))"
    unfolding snapshot_keys map_append mset_append by (rule arg_cong)
  then have "distinct (map outcome_key ?outcomes)" using assms(6) by (metis mset_eq_imp_distinct_iff)
  moreover have len: "length ?outcomes = target_count r"
    using mset_eq_length [OF keys] by (simp only: length_map length_snapshots)
  moreover have "list_all storable ?outcomes"
  proof -
    have "list_all storable (rl_outcomes r)" using assms(7) by (simp add: target_snapshots_from_resolution_def)
    then show ?thesis
      using storable_receipt_outcomes [OF assms(7) latency_u64_small [OF assms(9)]] by simp
  qed
  moreover have "int (length ?outcomes) \<le> i64_max" unfolding len by (rule assms(8))
  ultimately obtain d' v where fin: "finish_job S (ck_completed_ms ck) jid ?status ?outcomes (last_error_for_status ?status) d =
      (d', map_ok (\<lambda>_. v) (map_err TpInvalidPublishJobState (pc_validate_job (sv_crates S) v)))"
    and v: "jb_status v = ?status" "jb_targets v = sort_key outcome_key ?outcomes" "jb_target_count v = target_count r"
    using finish_job_effect [OF assms(4,5), of ?outcomes "ck_completed_ms ck" ?status "last_error_for_status ?status"]
    unfolding len by blast
  have "complete_job_execution S adapter ck jid e policy timeout_ms r d =
      finish_job S (ck_completed_ms ck) jid ?status ?outcomes (last_error_for_status ?status) d"
    using assms(10,11) by (simp add: complete_job_execution_def Let_def urls not_less)
  moreover have "mset (map outcome_key (jb_targets v)) = mset (map outcome_key (target_snapshots_from_resolution ?T r))"
    using keys unfolding v(2) mset_map mset_sort .
  moreover have "mset ?outcomes = mset (jb_targets v)" unfolding v(2) mset_sort ..
  moreover have "?status \<noteq> JsPublishing"
    by (simp add: delivery_status_def split: prod.split)
  ultimately show ?thesis
    using fin v(1,3) by (intro exI [of _ d'] exI [of _ v] exI [of _ ?outcomes]) (simp only: simp_thms)
qed

lemma sample_texts_ok: "texts_ok sample_nostr"
  by (simp add: texts_ok_def ordered_urls_def sample_nostr_def)

lemma sample_job_recorded:
  "\<exists>d (r :: event_response). job_by_id sample_publish sample_codecs d ''j1'' = Inr (rs_job r) \<and>
     record_publish_job sample_publish sample_codecs ''j1'' 5 sample_insert sample_database = (d, Inr r)"
proof -
  obtain d r where rec: "record_publish_job sample_publish sample_codecs ''j1'' 5 sample_insert sample_database = (d, Inr r)"
    using sample_recorded by blast
  then have "job_by_id sample_publish sample_codecs d ''j1'' = Inr (rs_job r)"
    by (auto simp: record_publish_job_def sample_insert_def lookup_idempotent_def
        job_for_principal_id_and_key_def sample_database_def empty_database_def insert_publish_job_def
        result_eqs split: sum.splits)
  with rec show ?thesis by blast
qed

theorem every_target_answered_witness:
  "\<exists>d r v outcomes d'. complete_job_execution sample_service (\<lambda>_ _. None)
       \<lparr>ck_request_ms = 1, ck_latency_ms = 2, ck_completed_ms = 3\<rparr> ''j1'' sample_signed DeliverAny 10 r d =
      (d', map_ok (\<lambda>_. v) (map_err TpInvalidPublishJobState (pc_validate_job sample_publish v))) \<and>
    jb_target_count v = 2 \<and> mset outcomes = mset (jb_targets v) \<and> jb_status v \<noteq> JsPublishing"
proof -
  obtain d and r0 :: event_response where job: "job_by_id sample_publish sample_codecs d ''j1'' = Inr (rs_job r0)"
    using sample_job_recorded by blast
  let ?r = "\<lparr>rl_targets = [\<lparr>rv_url = \<lparr>ru_inner = ''wss://a'', ru_policy = Public\<rparr>, rv_source = TsDaemonDefault,
          rv_target_scope = None, rv_target_label = None\<rparr>],
        rl_outcomes = [unattempted ''nostr'' ''wss://evil'' None None TsDaemonDefault OkTargetRejected ''local address'']\<rparr>"
  let ?ck = "\<lparr>ck_request_ms = 1, ck_latency_ms = 2, ck_completed_ms = 3\<rparr>"
  have parts: "sv_nostr sample_service = sample_nostr" "sv_codecs sample_service = sample_codecs" "sv_crates sample_service = sample_publish"
    by (simp_all add: sample_service_def)
  have snaps: "distinct (map outcome_key (target_snapshots_from_resolution sample_nostr ?r))"
    "list_all storable (target_snapshots_from_resolution sample_nostr ?r)"
    by (simp_all add: target_snapshots_from_resolution_def outcome_key_def unattempted_def url_str_def sample_nostr_def
        storage_target_scope_def storable_def)
  have bounds: "int (target_count ?r) \<le> i64_max" "int (ck_latency_ms ?ck) \<le> i64_max" "rl_targets ?r \<noteq> []"
    "pc_required_target_count sample_publish DeliverAny (target_count ?r) \<le> target_count ?r"
    by (simp_all add: target_count_def i64_max_def sample_publish_def)
  have "adapter_ok sample_nostr (\<lambda>_ _. None)" by (simp add: adapter_ok_def)
  from every_target_answered [OF sample_resolution, unfolded parts, OF sample_texts_ok this sample_codecs_ok job snaps bounds,
      of sample_signed 10]
  obtain d' v outcomes where "complete_job_execution sample_service (\<lambda>_ _. None) ?ck ''j1'' sample_signed DeliverAny 10 ?r d =
      (d', map_ok (\<lambda>_. v) (map_err TpInvalidPublishJobState (pc_validate_job sample_publish v)))"
    "jb_target_count v = target_count ?r" "mset outcomes = mset (jb_targets v)" "jb_status v \<noteq> JsPublishing" by blast
  moreover have "target_count ?r = 2" by (simp add: target_count_def)
  ultimately show ?thesis by (intro exI conjI) (assumption | simp)+
qed

text \<open>The time a publish may take is bounded: an accepted time limit is at most the
  configured connection timeout in milliseconds, whatever the multiplication overflows to, and it is
  the one asked for; with a valid configuration it is never zero.\<close>

theorem publish_timeout_bounded:
  assumes "effective_publish_timeout_ms config timeout_ms = Inr ms"
  shows "unat ms \<le> unat (tp_connect_timeout_secs config) * 1000 \<and>
    (\<forall>asked. timeout_ms = Some asked \<longrightarrow> ms = asked) \<and>
    (timeout_ms = None \<longrightarrow> unat ms = min (unat (tp_connect_timeout_secs config) * 1000) (2 ^ 64 - 1)) \<and>
    (validate_transport_publish config = Inr () \<longrightarrow> 0 < unat ms)"
proof -
  let ?max = "saturating_mul (tp_connect_timeout_secs config) 1000"
  have max: "unat ?max = min (unat (tp_connect_timeout_secs config) * 1000) (2 ^ 64 - 1)"
    by (simp add: unat_saturating_mul)
  have "unat ms \<le> unat ?max"
    using assms by (auto simp: effective_publish_timeout_ms_def Let_def word_le_nat_alt not_less split: option.splits if_splits)
  moreover have "0 < unat ms" if "validate_transport_publish config = Inr ()"
  proof -
    have "0 < unat ?max" unfolding max using that by (simp add: validate_transport_publish_iff)
    then show ?thesis
      using assms by (auto simp: effective_publish_timeout_ms_def Let_def unat_gt_0 split: option.splits if_splits)
  qed
  moreover have "(\<forall>asked. timeout_ms = Some asked \<longrightarrow> ms = asked) \<and> (timeout_ms = None \<longrightarrow> ms = ?max)"
    using assms by (auto simp: effective_publish_timeout_ms_def Let_def split: if_splits)
  ultimately show ?thesis using max by auto
qed

theorem publish_timeout_bounded_witness:
  "effective_publish_timeout_ms sample_config None = Inr 10000 \<and> unat (10000 :: u64) \<le> 10 * 1000"
proof -
  have "effective_publish_timeout_ms sample_config None = Inr 10000"
    by (simp add: effective_publish_timeout_ms_def sample_config_def default_transport_publish_config_def saturating_mul_def)
  with publish_timeout_bounded [OF this] show ?thesis
    by (simp add: sample_config_def default_transport_publish_config_def)
qed

section \<open>Who may publish\<close>

text \<open>C1. Only what a principal may publish is published: either the request is within the size
  limit, its event is authentic and in the principal's scope, its time limit is acceptable and a
  permit is free, or the call fails with the database as it was, so that no relay is looked up
  and nothing is recorded.\<close>

theorem only_authorised_events_published:
  "(\<exists>e. signed_event_from_raw_json (sv_crates S) (er_raw_event_json request) = Inr e \<and>
      pc_verify_signature (sv_crates S) e \<and> se_pubkey e \<in> set (pp_allowed_pubkeys p) \<and>
      se_kind e \<in> set (pp_allowed_kinds p) \<and> allows_event (sv_crates S) p e request = Inr () \<and>
      length (er_raw_event_json request) \<le> tp_max_event_bytes (sv_config S) \<and>
      is_ok (effective_publish_timeout_ms (sv_config S) (er_timeout_ms request)) \<and> 0 < available) \<or>
   (\<exists>error. publish_event S adapter I available p request d = (d, Inl error))"
proof (cases "and_then (check_request S p request) (\<lambda>checked. and_then (acquire_publish_permit available) (\<lambda>_. Inr checked))")
  case (Inl error)
  then show ?thesis by (simp add: publish_event_def)
next
  case (Inr checked)
  then obtain e ms where "check_request S p request = Inr (e, ms)" and n: "0 < available"
    by (cases checked) (auto simp: and_then_eq_Inr acquire_publish_permit_def split: if_splits)
  then have e: "signed_event_from_raw_json (sv_crates S) (er_raw_event_json request) = Inr e"
      "allows_event (sv_crates S) p e request = Inr ()"
      "length (er_raw_event_json request) \<le> tp_max_event_bytes (sv_config S)"
      "effective_publish_timeout_ms (sv_config S) (er_timeout_ms request) = Inr ms"
    by (auto simp: check_request_def and_then_eq_Inr not_less split: if_splits)
  have "pc_verify_signature (sv_crates S) e"
    using e(1) by (auto simp: signed_event_from_raw_json_def and_then_eq_Inr split: if_splits)
  moreover have "se_pubkey e \<in> set (pp_allowed_pubkeys p)" "se_kind e \<in> set (pp_allowed_kinds p)"
    using e(2) by (auto simp: allows_event_def and_then_eq_Inr split: if_splits)
  ultimately show ?thesis using e n by auto
qed

section \<open>Publishing once\<close>

definition keyed_job :: "database \<Rightarrow> string \<Rightarrow> string \<Rightarrow> string \<Rightarrow> bool" where
  "keyed_job d pid key jid \<longleftrightarrow>
     (\<exists>row. find (\<lambda>r. jw_principal_id r = pid \<and> jw_idempotency_key r = Some key) (db_jobs d) = Some row \<and> jw_job_id row = jid)"

lemma lookup_keyed:
  assumes "lookup_idempotent P K d i = Inr (Some row)" and "ji_idempotency_key i = Some key"
  shows "keyed_job d (ji_principal_id i) key (jb_job_id (pj_view row))"
proof -
  let ?found = "find (\<lambda>r. jw_principal_id r = ji_principal_id i \<and> jw_idempotency_key r = Some key) (db_jobs d)"
  obtain r0 row0 where r0: "?found = Some r0" "job_from_row K r0 = Inr row0"
      "finalize_job_row_for_egress P K d row0 = Inr row"
    using assms by (cases ?found) (auto simp: lookup_idempotent_def job_for_principal_id_and_key_def and_then_eq_Inr map_ok_eq_Inr)
  have "jb_job_id (pj_view row) = jb_job_id (pj_view row0)"
    using r0(3) by (auto simp: finalize_job_row_for_egress_def Let_def and_then_eq_Inr finalize_job_view_def)
  then show ?thesis using r0 job_from_row_columns(3) [OF r0(2)] by (simp add: keyed_job_def)
qed

lemma record_keyed:
  "record_publish_job P K job_id now i d = (d', Inr r) \<Longrightarrow> ji_idempotency_key i = Some key \<Longrightarrow>
     keyed_job d' (ji_principal_id i) key (jb_job_id (rs_job r))"
  using record_publish_job_found [of P K job_id now i d d' r key] lookup_keyed [of P K d' i _ key] by metis

lemma record_on_keyed:
  assumes "keyed_job d (ji_principal_id i) key jid" and "ji_idempotency_key i = Some key"
    and "record_publish_job P K job_id now i d = (d', Inr r)"
  shows "rs_deduplicated r \<and> jb_job_id (rs_job r) = jid \<and> d' = d"
proof (cases "lookup_idempotent P K d i")
  case (Inr found)
  then obtain row where row: "found = Some row"
    using assms(1,2) by (cases found)
      (auto simp: keyed_job_def lookup_idempotent_def job_for_principal_id_and_key_def and_then_eq_Inr map_ok_eq_Inr)
  have "keyed_job d (ji_principal_id i) key (jb_job_id (pj_view row))"
    using lookup_keyed [OF _ assms(2)] Inr row by blast
  then have "jb_job_id (pj_view row) = jid" using assms(1) by (auto simp: keyed_job_def)
  moreover have "rs_deduplicated r \<and> rs_job r = pj_view row \<and> d' = d"
    using assms(3) Inr row by (auto simp: record_publish_job_def split: if_splits)
  ultimately show ?thesis by simp
qed (use assms(3) in \<open>simp add: record_publish_job_def split: if_splits\<close>)

lemma keyed_jobs_cong: "db_jobs d' = db_jobs d \<Longrightarrow> keyed_job d' pid key jid \<longleftrightarrow> keyed_job d pid key jid"
  by (simp add: keyed_job_def)

lemma keyed_update:
  assumes "keyed_job d pid key jid"
  shows "keyed_job (update_job k (completed_row s now e n) d) pid key jid"
proof -
  let ?u = "\<lambda>r. if jw_job_id r = k then completed_row s now e n r else r"
  have "find (\<lambda>r. jw_principal_id r = pid \<and> jw_idempotency_key r = Some key) (map ?u rows) =
      map_option ?u (find (\<lambda>r. jw_principal_id r = pid \<and> jw_idempotency_key r = Some key) rows)" for rows
    by (induction rows) (auto simp: completed_row_def)
  then have "find (\<lambda>r. jw_principal_id r = pid \<and> jw_idempotency_key r = Some key) (db_jobs (update_job k (completed_row s now e n) d)) =
      map_option ?u (find (\<lambda>r. jw_principal_id r = pid \<and> jw_idempotency_key r = Some key) (db_jobs d))"
    by (simp add: update_job_def)
  moreover have "jw_job_id (?u r) = jw_job_id r" for r by (simp add: completed_row_def)
  ultimately show ?thesis using assms unfolding keyed_job_def by fastforce
qed

lemma keyed_complete:
  assumes "keyed_job d pid key jid"
  shows "keyed_job (fst (complete_publish_job K now k status ts e d)) pid key jid"
proof -
  have "keyed_job (fst (replace_target_outcomes K k ts now (update_job k (completed_row s now e n) d))) pid key jid" for s n
    using keyed_update [OF assms] keyed_jobs_cong [OF replace_target_outcomes_frame(1)] by blast
  then show ?thesis using assms by (simp add: complete_publish_job_def split: sum.split)
qed

lemma keyed_execution:
  assumes "keyed_job d pid key jid"
  shows "keyed_job (fst (complete_job_execution S adapter ck k e policy ms r d)) pid key jid"
proof -
  have fin: "keyed_job (fst (finish_job S now k status ts err d)) pid key jid" for now status ts err
    using keyed_complete [OF assms, of "sv_codecs S" now k status ts err]
    by (auto simp: finish_job_def split: prod.splits sum.splits)
  show ?thesis
    using assms fin by (simp add: complete_job_execution_def Let_def split: sum.split)
qed

lemma cache_jobs: "cache_author_write_relays K now pk relays d = Inr d' \<Longrightarrow> db_jobs d' = db_jobs d"
  by (auto simp: cache_author_write_relays_def upsert_cache_def map_ok_eq_Inr)

lemma resolve_author_jobs: "db_jobs (fst (resolve_author_write_relays S now pubkey d)) = db_jobs d"
  by (auto simp: resolve_author_write_relays_def Let_def cache_jobs split: sum.split)

lemma resolve_targets_jobs: "db_jobs (fst (resolve_targets_for_request S now pubkey request d)) = db_jobs d"
proof -
  have "db_jobs (fst (resolve_author_or_default_relays S now pubkey d)) = db_jobs d"
    using resolve_author_jobs [of S now pubkey d]
    by (auto simp: resolve_author_or_default_relays_def split: prod.splits sum.splits)
  then show ?thesis
    by (simp add: resolve_targets_for_request_def Let_def split: target_policy.split nostr_target_source_policy.split)
qed

lemma record_request_keyed:
  assumes "record_request S I p request e ms d = (d', Inr (res, response))" and "er_idempotency_key request = Some key"
  shows "keyed_job d' (pp_principal_id p) key (jb_job_id (rs_job response))"
proof -
  obtain fp d1 where "record_publish_job (sv_crates S) (sv_codecs S) (in_job_id I) (in_record_ms I) (job_insert_of S p request e fp res) d1 = (d', Inr response)"
    using assms(1) by (auto simp: record_request_def split: sum.splits prod.splits)
  from record_keyed [OF this] assms(2) show ?thesis by (simp add: job_insert_of_def)
qed

lemma record_request_on_keyed:
  assumes "record_request S I p request e ms d = (d', Inr (res, response))" and "er_idempotency_key request = Some key"
    and "keyed_job d (pp_principal_id p) key jid"
  shows "rs_deduplicated response \<and> jb_job_id (rs_job response) = jid"
proof -
  obtain fp d1 where res: "resolve_targets_for_request S (in_cache_ms I) (se_pubkey e) request d = (d1, Inr res)"
    and rec: "record_publish_job (sv_crates S) (sv_codecs S) (in_job_id I) (in_record_ms I) (job_insert_of S p request e fp res) d1 = (d', Inr response)"
    using assms(1) by (auto simp: record_request_def split: sum.splits prod.splits)
  have "keyed_job d1 (pp_principal_id p) key jid"
    using assms(3) keyed_jobs_cong [OF resolve_targets_jobs [of S "in_cache_ms I" "se_pubkey e" request d]] by (simp add: res)
  from record_on_keyed [OF _ _ rec, of key jid] this assms(2) show ?thesis by (simp add: job_insert_of_def)
qed

lemma execution_job_id:
  assumes "complete_job_execution S adapter ck jid e policy ms r d = (d', Inr v)"
  shows "jb_job_id v = jid"
proof -
  obtain now status ts err where "finish_job S now jid status ts err d = (d', Inr v)"
    using assms by (auto simp: complete_job_execution_def Let_def split: if_splits sum.splits)
  then have "job_by_id (sv_crates S) (sv_codecs S) d' jid = Inr v"
    by (auto simp: finish_job_def split: prod.splits sum.splits)
  then obtain r0 p ts where "find (\<lambda>r. jw_job_id r = jid) (db_jobs d') = Some r0" "job_from_row (sv_codecs S) r0 = Inr p"
      "v = finalize_job_view (sv_crates S) ((pj_view p)\<lparr>jb_targets := ts\<rparr>)"
    by (rule job_by_idE)
  then show ?thesis
    using job_from_row_columns(3) [of "sv_codecs S" r0 p] by (auto simp: finalize_job_view_def find_Some_iff)
qed

lemma publish_event_keyed:
  assumes "publish_event S adapter I available p request d = (d', Inr r)" and "er_idempotency_key request = Some key"
  shows "keyed_job d' (pp_principal_id p) key (jb_job_id (rs_job r))"
proof -
  obtain e ms d1 res response where rec: "record_request S I p request e ms d = (d1, Inr (res, response))"
    and rest: "(if rs_deduplicated response then (d1, Inr response)
      else case complete_job_execution S adapter (in_clocks I) (jb_job_id (rs_job response)) e
             (er_delivery_policy request) ms res d1 of
             (d2, Inl error) \<Rightarrow> (d2, Inl error)
           | (d2, Inr completed) \<Rightarrow> (d2, Inr \<lparr>rs_deduplicated = False, rs_job = completed\<rparr>)) = (d', Inr r)"
    using assms(1) unfolding publish_event_def by (auto split: sum.splits prod.splits)
  have key: "keyed_job d1 (pp_principal_id p) key (jb_job_id (rs_job response))"
    by (rule record_request_keyed [OF rec assms(2)])
  show ?thesis
  proof (cases "rs_deduplicated response")
    case False
    with rest obtain completed where c: "complete_job_execution S adapter (in_clocks I) (jb_job_id (rs_job response)) e
        (er_delivery_policy request) ms res d1 = (d', Inr completed)" "rs_job r = completed"
      by (auto split: prod.splits sum.splits)
    show ?thesis
      using keyed_execution [OF key, of S adapter "in_clocks I" "jb_job_id (rs_job response)" e "er_delivery_policy request" ms res]
        execution_job_id [OF c(1)] c by simp
  qed (use rest key in simp)
qed

lemma publish_on_keyed:
  assumes "keyed_job d (pp_principal_id p) key jid" and "er_idempotency_key request = Some key"
  shows "publish_event S A I available p request d = publish_event S B I available p request d"
    and "publish_event S A I available p request d = (d', Inr r) \<Longrightarrow> rs_deduplicated r \<and> jb_job_id (rs_job r) = jid"
proof -
  have dedup: "rs_deduplicated response \<and> jb_job_id (rs_job response) = jid"
    if "record_request S I p request e ms d = (d1, Inr (res, response))" for e ms d1 res response
    using record_request_on_keyed [OF that assms(2,1)] .
  have eq: "publish_event S C I available p request d =
      (case and_then (check_request S p request) (\<lambda>checked. and_then (acquire_publish_permit available) (\<lambda>_. Inr checked)) of
         Inl error \<Rightarrow> (d, Inl error)
       | Inr (e, ms) \<Rightarrow> (case record_request S I p request e ms d of
           (d1, Inl error) \<Rightarrow> (d1, Inl error) | (d1, Inr (r, response)) \<Rightarrow> (d1, Inr response)))" for C
    unfolding publish_event_def using dedup by (auto split: sum.split prod.split)
  show "publish_event S A I available p request d = publish_event S B I available p request d" by (simp only: eq)
  show "rs_deduplicated r \<and> jb_job_id (rs_job r) = jid" if "publish_event S A I available p request d = (d', Inr r)"
    using that unfolding eq by (auto split: sum.splits prod.splits dest: dedup)
qed

text \<open>C6. An event is sent to relays at most once for an idempotency key: after a request with the
  key succeeded, whatever its outcome was, a further request of the principal with that key never
  uses the adapter, and when it succeeds it is answered with the job of the first, marked as a
  duplicate.\<close>

theorem published_once_per_key:
  assumes "publish_event S adapter I available p request d = (d', Inr r)"
    and "er_idempotency_key request = Some key" and "er_idempotency_key request' = Some key"
    and "pp_principal_id p' = pp_principal_id p"
  shows "publish_event S A I' available' p' request' d' = publish_event S B I' available' p' request' d' \<and>
    (\<forall>d'' r'. publish_event S A I' available' p' request' d' = (d'', Inr r') \<longrightarrow>
      rs_deduplicated r' \<and> jb_job_id (rs_job r') = jb_job_id (rs_job r))"
  using publish_on_keyed [OF publish_event_keyed [OF assms(1,2), folded assms(4)] assms(3)] by blast

definition quiet_service :: publish_service where
  "quiet_service = sample_service\<lparr>sv_config := sample_config\<lparr>tp_nostr := default_nostr_config\<rparr>\<rparr>"

definition sample_inputs :: publish_inputs where
  "sample_inputs = \<lparr>in_to_vec = (\<lambda>_. Inr ''x''), in_job_id = ''j1'', in_cache_ms = 4, in_record_ms = 5,
     in_clocks = \<lparr>ck_request_ms = 6, ck_latency_ms = 7, ck_completed_ms = 8\<rparr>\<rparr>"

lemma sample_check: "check_request quiet_service sample_principal sample_request = Inr (sample_signed, 10000)"
  by (simp add: check_request_def quiet_service_def sample_service_def sample_request_def sample_config_def
      default_transport_publish_config_def signed_event_from_raw_json_def sample_publish_def allows_event_def
      sample_principal_def sample_signed_def ensure_lower_hex_def sample_pubkey_hex
      effective_publish_timeout_ms_def saturating_mul_def)

lemma quiet_parts:
  "sv_nostr quiet_service = sample_nostr" "sv_codecs quiet_service = sample_codecs" "sv_crates quiet_service = sample_publish"
  by (simp_all add: quiet_service_def sample_service_def)

lemma quiet_resolution: "resolve_targets_for_request quiet_service now key sample_request d = (d, Inr no_targets)"
  by (simp add: resolve_targets_for_request_def sample_request_def resolve_daemon_default_relays_def
      resolve_config_relays_def quiet_service_def default_nostr_config_def)

lemma quiet_recorded:
  "\<exists>d (response :: event_response). record_publish_job sample_publish sample_codecs ''j1'' 5
     (job_insert_of quiet_service sample_principal sample_request sample_signed fp no_targets) sample_database = (d, Inr response) \<and>
     rs_deduplicated response = False \<and> jb_job_id (rs_job response) = ''j1'' \<and>
     job_by_id sample_publish sample_codecs d ''j1'' = Inr (rs_job response)"
  by (simp add: record_publish_job_def job_insert_of_def sample_database_def empty_database_def target_count_def no_targets_def
      target_snapshots_from_resolution_def lookup_idempotent_def job_for_principal_id_and_key_def insert_publish_job_def encode_def
      sample_codecs_def storage_count_i64_def i64_max_def record_transaction_def job_row_of_def
      insert_job_def sample_principal_row_def job_by_id_def sample_principal_def
      job_from_row_def json_text_def checked_event_kind_column_def checked_usize_column_def
      finalize_job_row_for_egress_def target_outcomes_def finalize_job_view_def sample_publish_def
      sample_request_def from_signed_event_def sample_signed_def)

lemma sample_published:
  "\<exists>d' r. publish_event quiet_service adapter sample_inputs 1 sample_principal sample_request sample_database = (d', Inr r)"
proof -
  obtain fp where fp: "request_intent_fingerprint sample_publish (in_to_vec sample_inputs) (pp_principal_id sample_principal)
      (se_raw_json sample_signed) sample_request 10000 = Inr fp"
    by (simp add: request_intent_fingerprint_def sample_inputs_def)
  obtain d and response :: event_response where rec: "record_publish_job sample_publish sample_codecs ''j1'' 5
      (job_insert_of quiet_service sample_principal sample_request sample_signed fp no_targets) sample_database = (d, Inr response)"
    and new: "rs_deduplicated response = False" "jb_job_id (rs_job response) = ''j1''"
    and job: "job_by_id sample_publish sample_codecs d ''j1'' = Inr (rs_job response)"
    using quiet_recorded by blast
  have valid: "validate_delivery_policy_for_resolution sample_publish sample_nostr (er_delivery_policy sample_request) no_targets = Inr ()"
    by (simp add: validate_delivery_policy_for_resolution_def sample_request_def)
  have ids: "in_job_id sample_inputs = ''j1''" "in_record_ms sample_inputs = 5" by (simp_all add: sample_inputs_def)
  have "record_request quiet_service sample_inputs sample_principal sample_request sample_signed 10000 sample_database =
      (d, Inr (no_targets, response))"
    by (simp add: record_request_def quiet_parts quiet_resolution fp valid ids rec)
  moreover have "\<exists>d' v. complete_job_execution quiet_service adapter (in_clocks sample_inputs) ''j1'' sample_signed
      (er_delivery_policy sample_request) 10000 no_targets d = (d', Inr v)"
  proof -
    have "complete_job_execution quiet_service adapter (in_clocks sample_inputs) ''j1'' sample_signed
        (er_delivery_policy sample_request) 10000 no_targets d =
      finish_job quiet_service 8 ''j1'' JsRejected [] (last_error_for_status JsRejected) d"
      by (simp add: complete_job_execution_def no_targets_def Let_def sample_inputs_def)
    moreover have "pc_validate_job sample_publish v = Inr ()" for v by (simp add: sample_publish_def)
    ultimately show ?thesis
      using finish_job_effect [of quiet_service d "''j1''" "rs_job response" "[]" 8 JsRejected "last_error_for_status JsRejected",
          unfolded quiet_parts, OF sample_codecs_ok job]
      by (auto simp: i64_max_def)
  qed
  ultimately show ?thesis
    by (auto simp: publish_event_def sample_check acquire_publish_permit_def new)
qed

theorem published_once_per_key_witness:
  "\<forall>A B. \<exists>d' r. publish_event quiet_service A sample_inputs 1 sample_principal sample_request sample_database = (d', Inr r) \<and>
    publish_event quiet_service A sample_inputs 1 sample_principal sample_request d' =
    publish_event quiet_service B sample_inputs 1 sample_principal sample_request d'"
proof (intro allI)
  fix A B :: adapter
  obtain d' r where *: "publish_event quiet_service A sample_inputs 1 sample_principal sample_request sample_database = (d', Inr r)"
    using sample_published by blast
  have "er_idempotency_key sample_request = Some ''k1''" by (simp add: sample_request_def)
  from published_once_per_key [OF * this this refl, where B = B] * show "\<exists>d' r. publish_event quiet_service A sample_inputs 1 sample_principal sample_request sample_database = (d', Inr r) \<and>
    publish_event quiet_service A sample_inputs 1 sample_principal sample_request d' =
    publish_event quiet_service B sample_inputs 1 sample_principal sample_request d'" by blast
qed

section \<open>What can go wrong\<close>

lemma insert_results_twice:
  assumes "codecs_ok K"
  shows "insert_results K jid [t, t] now d = insert_results K jid [t] now d"
proof (cases "replace_result (stored_row K jid t) now d")
  case (Inr d1)
  let ?r = "stored_row K jid t"
  have d1: "d1 = d\<lparr>db_results := filter (\<lambda>(s, _). result_key s \<noteq> result_key ?r) (db_results d) @ [(?r, now)]\<rparr>"
    and job: "tw_job_id ?r \<in> jw_job_id ` set (db_jobs d)"
    using Inr by (auto simp: replace_result_def split: if_splits)
  have "filter (\<lambda>(s, _). result_key s \<noteq> result_key ?r) (db_results d1) =
      filter (\<lambda>(s, _). result_key s \<noteq> result_key ?r) (db_results d)"
    unfolding d1 by simp
  then have "replace_result ?r now d1 = Inr d1"
    using job by (simp add: replace_result_def d1)
  then show ?thesis using Inr by (simp add: stored_row(1) [OF assms])
qed (simp add: stored_row(1) [OF assms])

lemma complete_twice:
  assumes "codecs_ok K" and "job_by_id P K d jid = Inr before" and "storable t"
  shows "\<exists>d' v. complete_publish_job K now jid status [t, t] e d = (d', Inr ()) \<and>
    job_by_id P K d' jid = map_ok (\<lambda>_. v) (map_err TpInvalidPublishJobState (pc_validate_job P v)) \<and>
    jb_status v = status \<and> jb_target_count v = 2 \<and> jb_targets v = [t]"
proof -
  obtain s where s: "encode (cd_status K) status = Inr s" using encode_total [OF codecs_okD(5) [OF assms(1)]] by blast
  let ?d = "update_job jid (completed_row s now e (int 2)) d"
  have "complete_publish_job K now jid status [t, t] e d = replace_target_outcomes K jid [t, t] now ?d"
    using s by (simp add: complete_publish_job_def storage_count_i64_def i64_max_def)
  also have "\<dots> = replace_target_outcomes K jid [t] now ?d"
    unfolding replace_target_outcomes_def by (rule insert_results_twice [OF assms(1)])
  finally have run: "complete_publish_job K now jid status [t, t] e d = replace_target_outcomes K jid [t] now ?d" .
  let ?v = "finalize_job_view P ((completed_view status now e 2 before)\<lparr>jb_targets := [t]\<rparr>)"
  have "\<exists>d'. replace_target_outcomes K jid [t] now ?d = (d', Inr ()) \<and>
      job_by_id P K d' jid = map_ok (\<lambda>_. ?v) (map_err TpInvalidPublishJobState (pc_validate_job P ?v))"
    using completed_outcomes_effect [OF assms(1,2) _ _ s, of "[t]" now e 2] assms(3) by (auto simp: Let_def)
  then show ?thesis unfolding run
    by (auto simp: finalize_job_view_def completed_view_def intro!: exI [of _ ?v])
qed

lemma unreachable_twice:
  assumes "configured_policy config = Public" and "parse_relay_url T relay Public = Inr url" and "resolve url = Inl err"
  shows "resolve_author_relay_inputs T config resolve [relay, relay] =
    \<lparr>rl_targets = [], rl_outcomes = replicate 2 (relay_resolution_connection_failure (url_str T url) TsNostrAuthorWrite
       default_metadata (''dns lookup failed: '' @ err))\<rparr>"
  using assms by (simp add: resolve_author_relay_inputs_def resolve_known_relay_def push_checked_relay_target_def
      add_outcome_def no_targets_def numeral_2_eq_2)


definition counting_publish :: publish_crates where
  "counting_publish = sample_publish\<lparr>pc_validate_job := (\<lambda>v. if jb_status v \<noteq> JsPublishing \<and>
     jb_target_count v \<noteq> length (jb_targets v) then Inl ''target count'' else Inr ())\<rparr>"

definition unlucky_service :: publish_service where
  "unlucky_service = quiet_service\<lparr>sv_crates := counting_publish\<rparr>"

lemma unlucky_database:
  "\<exists>d v. cached_author_write_relays sample_codecs d ''a'' = Inr [''wss://gone'', ''wss://gone''] \<and>
     job_by_id counting_publish sample_codecs d ''j1'' = Inr v"
proof -
  let ?start = "sample_database\<lparr>db_cache := [\<lparr>cw_pubkey = ''a'', cw_relays_json =
      replicate (to_nat [''wss://gone'', ''wss://gone'']) CHR ''1'', cw_updated_at_ms = 0\<rparr>]\<rparr>"
  let ?d = "fst (record_publish_job counting_publish sample_codecs ''j1'' 5 (sample_insert\<lparr>ji_target_snapshots := [], ji_effective_target_count := 0\<rparr>) ?start)"
  have "(\<exists>v. job_by_id counting_publish sample_codecs ?d ''j1'' = Inr v) \<and> db_cache ?d = db_cache ?start"
    by (simp add: record_publish_job_def sample_insert_def sample_database_def empty_database_def
      lookup_idempotent_def job_for_principal_id_and_key_def insert_publish_job_def encode_def
      sample_codecs_def storage_count_i64_def i64_max_def record_transaction_def job_row_of_def
      insert_job_def sample_principal_row_def job_by_id_def
      job_from_row_def json_text_def checked_event_kind_column_def checked_usize_column_def
      finalize_job_row_for_egress_def target_outcomes_def finalize_job_view_def sample_publish_def counting_publish_def
      sample_request_def from_signed_event_def sample_signed_def)
  then show ?thesis
    by (intro exI [of _ ?d]) (auto simp: cached_author_write_relays_def sample_codecs_def)
qed


text \<open>A job that was interrupted is never reported as delivered: the status that the recovery
  derives from the snapshots taken when the job was recorded is not a delivery, for every policy
  that needs at least one acceptance.\<close>

theorem interrupted_job_not_delivered:
  assumes "resolve_targets_for_request S now pubkey request d = (d', Inr r)"
    and "\<forall>k \<in> {OkTargetRejected, OkConnectionFailed, OkDeferredUntilImplemented, OkUnsupported}. \<not> pc_counts_accepted (sv_crates S) k"
    and "case jb_delivery_policy v of DeliverRequired fs \<Rightarrow> fs \<noteq> []
      | policy \<Rightarrow> 0 < pc_required_target_count (sv_crates S) policy (target_count r)"
  shows "fst (recovered_status (sv_crates S) v (map stored_form (target_snapshots_from_resolution (sv_nostr S) r))) \<noteq> JsDeliverySatisfied"
proof -
  let ?snaps = "map stored_form (target_snapshots_from_resolution (sv_nostr S) r)"
  have "\<forall>t \<in> set (rl_outcomes r). refused t"
    using resolve_targets_safe [OF assms(1)] by (simp add: safe_resolution_def)
  then have none: "\<forall>t \<in> set ?snaps. \<not> accepted_outcome (sv_crates S) t"
    using assms(2) by (auto simp: accepted_outcome_def target_snapshots_from_resolution_def stored_form_def refused_def)
  then have filter: "filter (accepted_outcome (sv_crates S)) ?snaps = []"
    by (simp add: filter_empty_conv)
  have n: "length ?snaps = target_count r" by (simp add: length_snapshots)
  have "\<not> fst (delivery_satisfaction (sv_crates S) (jb_delivery_policy v) (length ?snaps) ?snaps)"
  proof (cases "jb_delivery_policy v")
    case (DeliverRequired fs)
    then obtain f where "f \<in> set fs" using assms(3) by (cases fs) auto
    then show ?thesis
      unfolding DeliverRequired required_satisfied_iff using none by (fastforce simp: find_Some_iff)
  qed (use assms(3) filter n in \<open>simp_all add: delivery_satisfaction_def\<close>)
  then show ?thesis
    by (simp add: recovered_status_def Let_def delivery_status_satisfied)
qed

theorem interrupted_job_not_delivered_witness:
  "\<exists>r. resolve_targets_for_request sample_service 0 ''a'' sample_request empty_database = (empty_database, Inr r) \<and>
    fst (recovered_status sample_publish (sample_job\<lparr>jb_delivery_policy := DeliverAny\<rparr>)
      (map stored_form (target_snapshots_from_resolution sample_nostr r))) \<noteq> JsDeliverySatisfied"
proof -
  have parts: "sv_nostr sample_service = sample_nostr" "sv_crates sample_service = sample_publish"
    by (simp_all add: sample_service_def)
  have "\<forall>k \<in> {OkTargetRejected, OkConnectionFailed, OkDeferredUntilImplemented, OkUnsupported}. \<not> pc_counts_accepted sample_publish k"
    by (simp add: sample_publish_def)
  moreover have "case jb_delivery_policy (sample_job\<lparr>jb_delivery_policy := DeliverAny\<rparr>) of DeliverRequired fs \<Rightarrow> fs \<noteq> []
      | policy \<Rightarrow> 0 < pc_required_target_count sample_publish policy n" for n
    by (simp add: sample_publish_def)
  ultimately show ?thesis
    using interrupted_job_not_delivered [OF sample_resolution, unfolded parts] sample_resolution by blast
qed

end
