(* ===== verification/Jsonrpc.thy ===== *)
theory Jsonrpc
  imports Prelude
begin

text \<open>
  The parts of the JSON-RPC layer that every method shares: \<open>RpcError\<close> and its error objects
  (\<open>src/transport/jsonrpc/error.rs\<close>), the method registry (\<open>registry.rs\<close>), the middleware that
  refuses notifications of the publish methods and the batch setting (\<open>server.rs\<close>).  The JSON-RPC
  server itself is the \<open>jsonrpsee\<close> crate.
\<close>

section \<open>Errors\<close>

datatype rpc_error =
    AddRelay string string
  | NoRelays
  | InvalidParams string
  | MethodNotFound string
  | Unauthorized string
  | RpcOther string

fun rpc_error_text :: "rpc_error \<Rightarrow> string" where
  "rpc_error_text (AddRelay relay reason) = ''failed to add relay '' @ relay @ '': '' @ reason"
| "rpc_error_text NoRelays = ''no relays configured; call relays.add first''"
| "rpc_error_text (InvalidParams msg) = ''invalid params: '' @ msg"
| "rpc_error_text (MethodNotFound name) = ''method not found: '' @ name"
| "rpc_error_text (Unauthorized msg) = ''unauthorized: '' @ msg"
| "rpc_error_text (RpcOther msg) = msg"

record error_object =
  eo_code :: int
  eo_message :: string

fun error_object_of :: "rpc_error \<Rightarrow> error_object" where
  "error_object_of (InvalidParams msg) = \<lparr>eo_code = -32602, eo_message = msg\<rparr>"
| "error_object_of (MethodNotFound name) =
     \<lparr>eo_code = -32601, eo_message = ''method not found: '' @ name\<rparr>"
| "error_object_of (Unauthorized msg) = \<lparr>eo_code = -32001, eo_message = ''unauthorized: '' @ msg\<rparr>"
| "error_object_of other = \<lparr>eo_code = -32000, eo_message = rpc_error_text other\<rparr>"

text \<open>\<open>params.parse()\<close> is the JSON library's: a method gets the parsed parameters or the text of
  the parse error.\<close>

definition parse_params :: "string + 'p \<Rightarrow> rpc_error + 'p" where
  "parse_params params = map_err InvalidParams params"

section \<open>The method registry\<close>

definition track :: "string \<Rightarrow> string list \<Rightarrow> string list" where
  "track name methods = (if name \<in> set methods then methods else sort (methods @ [name]))"

lemma track_sorted: "sorted methods \<and> distinct methods \<Longrightarrow> sorted (track name methods) \<and> distinct (track name methods)"
  by (simp add: track_def)

lemma track_set: "set (track name methods) = insert name (set methods)"
  by (auto simp: track_def)

section \<open>The server\<close>

datatype batch_request_config = BatchDisabled | BatchLimit u32 | BatchUnlimited

text \<open>\<open>jsonrpsee\<close>'s own default is unlimited batches.\<close>

definition batch_config :: "u32 option \<Rightarrow> batch_request_config" where
  "batch_config batch_request_limit =
     (case batch_request_limit of
        Some limit \<Rightarrow> (if limit = 0 then BatchDisabled else BatchLimit limit)
      | None \<Rightarrow> BatchUnlimited)"

text \<open>\<open>RejectPublishNotifications\<close>: the wrapped service is the parameter \<open>service\<close>.\<close>

definition notification_service :: "(string \<Rightarrow> 'r) \<Rightarrow> (error_object \<Rightarrow> 'r) \<Rightarrow> string \<Rightarrow> 'r" where
  "notification_service service error_response method_name =
     (if prefix ''transport.publish.'' method_name
      then error_response \<lparr>eo_code = -32600,
             eo_message = ''transport publish notifications are not accepted''\<rparr>
      else service method_name)"

end
