(* ===== verification/Publish_Rpc.thy ===== *)
theory Publish_Rpc
  imports Publish_Engine Jsonrpc
begin

text \<open>
  The JSON-RPC surface of publishing: bearer-token authorization of each HTTP request
  (\<open>src/transport/jsonrpc/auth.rs\<close> and the middleware in \<open>server.rs\<close>), the four
  \<open>transport.publish\<close> methods (\<open>methods/transport_publish.rs\<close>), and what is registered at start
  (\<open>methods/mod.rs\<close>).  The parsed parameters of a method, or the text of the parse error, are its
  argument.
\<close>

section \<open>Authorization\<close>

datatype publish_authorization = Authorized principal | MissingToken | InvalidToken

definition eq_ignore_ascii_case :: "string \<Rightarrow> string \<Rightarrow> bool" where
  "eq_ignore_ascii_case s t \<longleftrightarrow> to_ascii_lowercase s = to_ascii_lowercase t"

definition authorize_transport_publish_request ::
  "publish_crates \<Rightarrow> codecs \<Rightarrow> int \<Rightarrow> string option \<Rightarrow> database \<Rightarrow> publish_authorization" where
  "authorize_transport_publish_request P K now header d =
     (case header of
        None \<Rightarrow> MissingToken
      | Some value \<Rightarrow>
          (case split_whitespace value of
             [scheme, token] \<Rightarrow>
               if \<not> eq_ignore_ascii_case scheme ''bearer'' \<or> token = [] then InvalidToken
               else (case principal_for_token_hash K now d (hash_bearer_token P token) of
                       Inr (Some p) \<Rightarrow> Authorized p
                     | Inr None \<Rightarrow> InvalidToken
                     | Inl _ \<Rightarrow> InvalidToken)
           | _ \<Rightarrow> InvalidToken))"

text \<open>The authorization is put into the extensions of the request; a method without it refuses.\<close>

definition require_publish_principal :: "publish_authorization option \<Rightarrow> rpc_error + principal" where
  "require_publish_principal extension =
     (case (case extension of Some a \<Rightarrow> a | None \<Rightarrow> MissingToken) of
        Authorized p \<Rightarrow> Inr p
      | MissingToken \<Rightarrow> Inl (Unauthorized ''transport publish bearer token required'')
      | InvalidToken \<Rightarrow> Inl (Unauthorized ''invalid transport publish bearer token''))"

section \<open>Methods\<close>

definition rpc_error_from_transport_publish :: "tp_error \<Rightarrow> rpc_error" where
  "rpc_error_from_transport_publish error =
     (case error of
        TpInvalidScope message \<Rightarrow> Unauthorized message
      | TpInvalidSignedEvent message \<Rightarrow> InvalidParams message
      | TpEventWire _ \<Rightarrow> InvalidParams (tp_error_text error)
      | TpSignedEvent _ \<Rightarrow> InvalidParams (tp_error_text error)
      | TpRelay _ \<Rightarrow> InvalidParams (tp_error_text error)
      | _ \<Rightarrow> RpcOther (tp_error_text error))"

definition publish_capabilities ::
  "(nat \<Rightarrow> nat \<Rightarrow> 'c) \<Rightarrow> publish_service \<Rightarrow> publish_authorization option \<Rightarrow> rpc_error + 'c" where
  "publish_capabilities v5 S extension =
     map_ok (\<lambda>_. v5 (tp_max_event_bytes (sv_config S)) (tp_max_targets_per_request (sv_config S)))
       (require_publish_principal extension)"

definition publish_event_method ::
  "publish_service \<Rightarrow> adapter \<Rightarrow> publish_inputs \<Rightarrow> nat \<Rightarrow> publish_authorization option \<Rightarrow> string + event_request
     \<Rightarrow> database \<Rightarrow> database \<times> (rpc_error + event_response)" where
  "publish_event_method S adapter I available extension params d =
     (case and_then (require_publish_principal extension) (\<lambda>p.
           and_then (parse_params params) (\<lambda>request. Inr (p, request))) of
        Inl error \<Rightarrow> (d, Inl error)
      | Inr (p, request) \<Rightarrow>
          (case publish_event S adapter I available p request d of
             (d', result) \<Rightarrow> (d', map_err rpc_error_from_transport_publish result)))"

definition publish_job_get ::
  "publish_service \<Rightarrow> publish_authorization option \<Rightarrow> string + string \<Rightarrow> database \<Rightarrow> rpc_error + job" where
  "publish_job_get S extension params d =
     and_then (require_publish_principal extension) (\<lambda>p.
     and_then (parse_params params) (\<lambda>job_id.
       if trim job_id = [] then Inl (InvalidParams ''missing job_id'')
       else and_then (map_err (\<lambda>e. RpcOther (tp_error_text e))
              (job_by_id_for_principal (sv_crates S) (sv_codecs S) d (trim job_id) p))
            (ok_or (RpcOther (''unknown publish job: '' @ trim job_id)))))"

text \<open>The parameters of a listing: none, or the parsed limit.\<close>

definition job_list_params :: "string option \<Rightarrow> string + nat option \<Rightarrow> rpc_error + nat option" where
  "job_list_params raw parsed =
     (if raw = None \<or> raw = Some [] \<or> raw = Some ''[]'' then Inr None else parse_params parsed)"

definition publish_job_list ::
  "publish_service \<Rightarrow> publish_authorization option \<Rightarrow> string option \<Rightarrow> string + nat option \<Rightarrow> database
     \<Rightarrow> rpc_error + job list" where
  "publish_job_list S extension raw parsed d =
     and_then (require_publish_principal extension) (\<lambda>p.
     and_then (job_list_params raw parsed) (\<lambda>limit.
       if limit = Some 0 then Inl (InvalidParams ''limit must be greater than zero'')
       else let configured_limit = tp_job_list_limit (sv_config S);
                n = min (case limit of Some l \<Rightarrow> l | None \<Rightarrow> configured_limit) configured_limit
            in map_err (\<lambda>e. RpcOther (tp_error_text e))
                 (list_jobs_for_principal (sv_crates S) (sv_codecs S) d p n)))"

section \<open>Registration\<close>

definition publish_methods :: "string list" where
  "publish_methods =
     [''transport.publish.capabilities'', ''transport.publish.event'', ''transport.publish.job.get'',
      ''transport.publish.job.list'']"

definition register_all :: "transport_publish_config \<Rightarrow> nip46_config \<Rightarrow> string list \<Rightarrow> string list" where
  "register_all publish_config nip46_config nip46_methods =
     (if tp_enabled publish_config then publish_methods else []) @
     (if n46_public_jsonrpc_enabled nip46_config then nip46_methods else [])"

section \<open>Who may publish\<close>

definition refuses :: "rpc_error + 'a \<Rightarrow> bool" where
  "refuses r \<longleftrightarrow> (\<exists>message. r = Inl (Unauthorized message))"

lemma authorizedE:
  assumes "authorize_transport_publish_request P K now header d = Authorized p"
  obtains h scheme token row where "header = Some h" "split_whitespace h = [scheme, token]"
    "to_ascii_lowercase scheme = ''bearer''" "row \<in> set (db_principals d)"
    "pw_token_hash row = hash_bearer_token P token" "pw_revoked_at_unix row = None"
    "\<forall>t. pw_expires_at_unix row = Some t \<longrightarrow> now < t" "principal_from_row K row = Inr p"
proof -
  obtain h where header: "header = Some h"
    using assms by (cases header) (simp_all add: authorize_transport_publish_request_def)
  obtain scheme token where words: "split_whitespace h = [scheme, token]"
    and scheme: "eq_ignore_ascii_case scheme ''bearer''"
    and found: "principal_for_token_hash K now d (hash_bearer_token P token) = Inr (Some p)"
    using assms header
    by (auto simp: authorize_transport_publish_request_def split: list.splits if_splits sum.splits option.splits)
  obtain row where row: "find (\<lambda>r. pw_token_hash r = hash_bearer_token P token \<and> pw_revoked_at_unix r = None \<and>
      (case pw_expires_at_unix r of None \<Rightarrow> True | Some t \<Rightarrow> now < t)) (db_principals d) = Some row"
    and p: "principal_from_row K row = Inr p"
    using found unfolding principal_for_token_hash_def
    by (cases "find (\<lambda>r. pw_token_hash r = hash_bearer_token P token \<and> pw_revoked_at_unix r = None \<and>
      (case pw_expires_at_unix r of None \<Rightarrow> True | Some t \<Rightarrow> now < t)) (db_principals d)") (auto simp: map_ok_eq_Inr)
  have "row \<in> set (db_principals d) \<and> pw_token_hash row = hash_bearer_token P token \<and> pw_revoked_at_unix row = None \<and>
      (case pw_expires_at_unix row of None \<Rightarrow> True | Some t \<Rightarrow> now < t)"
    using row by (auto simp: find_Some_iff)
  then show thesis
    using that [OF header words _ _ _ _ _ p] scheme by (auto simp: eq_ignore_ascii_case_def to_ascii_lowercase_def split: option.splits)
qed

lemma refused_everywhere:
  assumes "require_publish_principal x = Inl (Unauthorized message)"
  shows "refuses (publish_capabilities v5 S x)" and "refuses (publish_job_get S x id_params d)"
    and "refuses (publish_job_list S x raw limit_params d)"
    and "\<exists>r. publish_event_method S A I available x params d = (d, r) \<and> refuses r"
  by (simp_all add: assms refuses_def publish_capabilities_def publish_job_get_def publish_job_list_def
      publish_event_method_def)

text \<open>C17. The publish methods speak only for live principals: unless the request's header is
  \<open>Bearer\<close> and one token whose hash is stored for a principal that is neither revoked nor expired,
  every publish method answers with the error \<open>unauthorized\<close>, and the store is not touched.\<close>

theorem publish_needs_live_token:
  "let x = Some (authorize_transport_publish_request P K now header d) in
   (\<exists>value scheme token row p. header = Some value \<and> split_whitespace value = [scheme, token] \<and>
      to_ascii_lowercase scheme = ''bearer'' \<and> row \<in> set (db_principals d) \<and>
      pw_token_hash row = hash_bearer_token P token \<and> pw_revoked_at_unix row = None \<and>
      (case pw_expires_at_unix row of None \<Rightarrow> True | Some t \<Rightarrow> now < t) \<and>
      principal_from_row K row = Inr p \<and> require_publish_principal x = Inr p) \<or>
   (refuses (publish_capabilities v5 S x) \<and> refuses (publish_job_get S x id_params d) \<and>
    refuses (publish_job_list S x raw limit_params d) \<and>
    (\<exists>r. publish_event_method S A I available x params d = (d, r) \<and> refuses r))"
proof (cases "authorize_transport_publish_request P K now header d")
  case (Authorized p)
  then obtain h scheme token row where row: "header = Some h" "split_whitespace h = [scheme, token]"
    "to_ascii_lowercase scheme = ''bearer''" "row \<in> set (db_principals d)"
    "pw_token_hash row = hash_bearer_token P token" "pw_revoked_at_unix row = None"
    "\<forall>t. pw_expires_at_unix row = Some t \<longrightarrow> now < t" "principal_from_row K row = Inr p"
    by (rule authorizedE)
  have "require_publish_principal (Some (authorize_transport_publish_request P K now header d)) = Inr p"
    by (simp add: require_publish_principal_def Authorized)
  moreover have "case pw_expires_at_unix row of None \<Rightarrow> True | Some t \<Rightarrow> now < t"
    using row(7) by (simp split: option.split)
  ultimately show ?thesis unfolding Let_def using row(1-6,8) by blast
next
  case MissingToken
  then have "require_publish_principal (Some (authorize_transport_publish_request P K now header d)) =
      Inl (Unauthorized ''transport publish bearer token required'')" by (simp add: require_publish_principal_def)
  from refused_everywhere [OF this] show ?thesis unfolding Let_def by (intro disjI2 conjI)
next
  case InvalidToken
  then have "require_publish_principal (Some (authorize_transport_publish_request P K now header d)) =
      Inl (Unauthorized ''invalid transport publish bearer token'')" by (simp add: require_publish_principal_def)
  from refused_everywhere [OF this] show ?thesis unfolding Let_def by (intro disjI2 conjI)
qed

text \<open>A generated token is one word of the header.\<close>

lemma lower_hex_plain: "is_lower_hex c \<Longrightarrow> plain_char c"
  by (auto simp: is_lower_hex_def is_ascii_digit_def plain_char_def less_eq_char_def)

lemma bearer_header_words:
  "split_whitespace (''Bearer '' @ bearer_token bytes) = [''Bearer'', bearer_token bytes]"
proof -
  have token: "list_all plain_char (bearer_token bytes)" "bearer_token bytes \<noteq> []"
    using hex_encode_lower [of bytes] lower_hex_plain
    by (auto simp: bearer_token_def list_all_iff plain_char_def)
  have "split_whitespace (''Bearer'' @ CHR '' '' # bearer_token bytes) = ''Bearer'' # split_whitespace (bearer_token bytes)"
    by (rule split_whitespace_word) (simp_all add: plain_char_def blank_def)
  then show ?thesis using split_whitespace_plain [OF token] by simp
qed

end
