(* ===== verification/Nip46_Session.thy ===== *)
theory Nip46_Session
  imports Nostr_Connect
begin

text \<open>
  The NIP-46 session store, \<open>src/core/nip46/session.rs\<close>: the sessions by identifier and the set of
  connect secrets already used, each operation with the lazy removal of an expired session, and
  the permission filter.  The time of a call (\<open>Instant::now()\<close>) is an argument, in nanoseconds.

  The specification is \<open>live\<close>, the map from identifiers to the sessions that have not expired at a
  given time: \<open>get\<close> reads it, the updating operations change it at one point, and removing an
  expired session leaves it as it is.  The four operations that update one session share their
  contract, which is the locale \<open>session_touch\<close>.
\<close>

section \<open>Sessions\<close>

type_synonym instant = nat

record pending_request =
  pr_request_id :: string
  pr_client_pubkey :: public_key
  pr_request :: nostr_connect_request

datatype session_role = InboundLocalSigner | OutboundRemoteSigner

record session_authority =
  sa_provider_runtime_id :: string
  sa_account_identity_id :: string
  sa_provider_session_id :: "string option"

record nip46_session =
  ns_id :: string
  ns_client :: client
  ns_client_keys :: keys
  ns_client_pubkey :: public_key
  ns_remote_signer_pubkey :: public_key
  ns_user_pubkey :: "public_key option"
  ns_relays :: "string list"
  ns_perms :: "string list"
  ns_name :: "string option"
  ns_url :: "string option"
  ns_image :: "string option"
  ns_expires_at :: "instant option"
  ns_auth_required :: bool
  ns_authorized :: bool
  ns_auth_url :: "string option"
  ns_pending_request :: "pending_request option"
  ns_signer_authority :: "session_authority option"

record nip46_session_view =
  nv_session_id :: string
  nv_role :: session_role
  nv_client_pubkey :: string
  nv_signer_pubkey :: string
  nv_user_pubkey :: "string option"
  nv_relays :: "string list"
  nv_permissions :: "string list"
  nv_name :: "string option"
  nv_url :: "string option"
  nv_image :: "string option"
  nv_auth_required :: bool
  nv_authorized :: bool
  nv_auth_url :: "string option"
  nv_expires_in_secs :: "nat option"
  nv_signer_authority :: "session_authority option"

definition is_expired :: "instant \<Rightarrow> nip46_session \<Rightarrow> bool" where
  "is_expired now s = (case ns_expires_at s of Some t \<Rightarrow> t \<le> now | None \<Rightarrow> False)"

definition role :: "nostr_crate \<Rightarrow> nip46_session \<Rightarrow> session_role" where
  "role N s = (if nc_public_key N (ns_client_keys s) = ns_remote_signer_pubkey s
     then InboundLocalSigner else OutboundRemoteSigner)"

definition remaining_secs :: "instant \<Rightarrow> instant \<Rightarrow> nat" where
  "remaining_secs now expires_at =
     (if expires_at \<le> now then 0 else (expires_at - now) div 10 ^ 9)"

definition public_view :: "nostr_crate \<Rightarrow> instant \<Rightarrow> nip46_session \<Rightarrow> nip46_session_view" where
  "public_view N now s =
     \<lparr>nv_session_id = ns_id s, nv_role = role N s,
      nv_client_pubkey = nc_to_hex N (ns_client_pubkey s),
      nv_signer_pubkey = nc_to_hex N (ns_remote_signer_pubkey s),
      nv_user_pubkey = map_option (nc_to_hex N) (ns_user_pubkey s),
      nv_relays = ns_relays s, nv_permissions = ns_perms s,
      nv_name = ns_name s, nv_url = ns_url s, nv_image = ns_image s,
      nv_auth_required = ns_auth_required s, nv_authorized = ns_authorized s,
      nv_auth_url = ns_auth_url s,
      nv_expires_in_secs = map_option (remaining_secs now) (ns_expires_at s),
      nv_signer_authority = ns_signer_authority s\<rparr>"

text \<open>\<open>Nip46SessionAuthority::normalized\<close> trims its fields and refuses empty ones.\<close>

definition normalized :: "session_authority \<Rightarrow> string + session_authority" where
  "normalized a =
     (let a' = \<lparr>sa_provider_runtime_id = trim (sa_provider_runtime_id a),
                sa_account_identity_id = trim (sa_account_identity_id a),
                sa_provider_session_id =
                  (case sa_provider_session_id a of
                     Some v \<Rightarrow> (if trim v = [] then None else Some (trim v))
                   | None \<Rightarrow> None)\<rparr>
      in if sa_provider_runtime_id a' = [] then
           Inl ''signer_authority.provider_runtime_id cannot be empty''
         else if sa_account_identity_id a' = [] then
           Inl ''signer_authority.account_identity_id cannot be empty''
         else Inr a')"

definition normalize_authority ::
  "session_authority option \<Rightarrow> string + session_authority option" where
  "normalize_authority a = map_transpose normalized a"

text \<open>\<open>Instant::now() + Duration::from_secs(ttl)\<close> panics when the seconds leave \<open>i64\<close>; \<open>Inl\<close> is the
  panic.\<close>

datatype panic = Panic string

definition session_expires_at :: "instant \<Rightarrow> u64 \<Rightarrow> panic + instant option" where
  "session_expires_at now ttl_secs =
     (if ttl_secs = 0 then Inr None
      else if int (now div 10 ^ 9) + uint ttl_secs \<le> i64_max
      then Inr (Some (now + unat ttl_secs * 10 ^ 9))
      else Inl (Panic ''overflow when adding duration to instant''))"

section \<open>Permissions\<close>

definition sign_event_allowed :: "string list \<Rightarrow> u32 \<Rightarrow> bool" where
  "sign_event_allowed perms kind \<longleftrightarrow>
     ''sign_event'' \<in> set perms \<or> (''sign_event:'' @ show_nat (unat kind)) \<in> set perms"

definition filter_perms :: "string list \<Rightarrow> string list \<Rightarrow> string list" where
  "filter_perms requested allowed =
     (if allowed = [] then []
      else let allows_sign_event = ''sign_event'' \<in> set allowed
           in filter (\<lambda>perm. perm \<in> set allowed \<or>
                (allows_sign_event \<and> prefix ''sign_event:'' perm)) requested)"

section \<open>The store\<close>

record session_store =
  inner :: "(string \<times> nip46_session) list"
  used_secrets :: "string set"

definition new_store :: session_store where
  "new_store = \<lparr>inner = [], used_secrets = {}\<rparr>"

definition insert_session :: "nip46_session \<Rightarrow> session_store \<Rightarrow> session_store" where
  "insert_session s st = st\<lparr>inner := AList.update (ns_id s) s (inner st)\<rparr>"

definition get_session_entry ::
  "instant \<Rightarrow> string \<Rightarrow> session_store \<Rightarrow> session_store \<times> nip46_session option" where
  "get_session_entry now k st =
     (if (case map_of (inner st) k of Some s \<Rightarrow> is_expired now s | None \<Rightarrow> False)
      then (st\<lparr>inner := AList.delete k (inner st)\<rparr>, None)
      else (st, map_of (inner st) k))"

definition remove_session :: "string \<Rightarrow> session_store \<Rightarrow> session_store \<times> bool" where
  "remove_session k st =
     (st\<lparr>inner := AList.delete k (inner st)\<rparr>, map_of (inner st) k \<noteq> None)"

definition set_user_pubkey ::
  "instant \<Rightarrow> string \<Rightarrow> public_key \<Rightarrow> session_store \<Rightarrow> session_store \<times> bool" where
  "set_user_pubkey now k pubkey st =
     (case map_of (inner st) k of
        Some s \<Rightarrow>
          if is_expired now s then (st\<lparr>inner := AList.delete k (inner st)\<rparr>, False)
          else (st\<lparr>inner := AList.update k (s\<lparr>ns_user_pubkey := Some pubkey\<rparr>) (inner st)\<rparr>, True)
      | None \<Rightarrow> (st, False))"

definition require_auth ::
  "instant \<Rightarrow> string \<Rightarrow> string \<Rightarrow> session_store \<Rightarrow> session_store \<times> bool" where
  "require_auth now k auth_url st =
     (case map_of (inner st) k of
        Some s \<Rightarrow>
          if is_expired now s then (st\<lparr>inner := AList.delete k (inner st)\<rparr>, False)
          else (st\<lparr>inner := AList.update k
                 (s\<lparr>ns_auth_required := True, ns_authorized := False,
                    ns_auth_url := Some auth_url, ns_pending_request := None\<rparr>) (inner st)\<rparr>, True)
      | None \<Rightarrow> (st, False))"

text \<open>\<open>authorize\<close> takes the pending request out of the session and hands it to the caller.\<close>

definition authorize ::
  "instant \<Rightarrow> string \<Rightarrow> session_store \<Rightarrow> session_store \<times> pending_request option option" where
  "authorize now k st =
     (case map_of (inner st) k of
        Some s \<Rightarrow>
          if is_expired now s then (st\<lparr>inner := AList.delete k (inner st)\<rparr>, None)
          else (st\<lparr>inner := AList.update k
                 (s\<lparr>ns_authorized := True, ns_pending_request := None\<rparr>) (inner st)\<rparr>,
                Some (ns_pending_request s))
      | None \<Rightarrow> (st, None))"

definition set_pending_request ::
  "instant \<Rightarrow> string \<Rightarrow> pending_request \<Rightarrow> session_store \<Rightarrow> session_store \<times> bool" where
  "set_pending_request now k p st =
     (case map_of (inner st) k of
        Some s \<Rightarrow>
          if is_expired now s then (st\<lparr>inner := AList.delete k (inner st)\<rparr>, False)
          else (st\<lparr>inner := AList.update k (s\<lparr>ns_pending_request := Some p\<rparr>) (inner st)\<rparr>, True)
      | None \<Rightarrow> (st, False))"

definition list_sessions :: "instant \<Rightarrow> session_store \<Rightarrow> session_store \<times> nip46_session list" where
  "list_sessions now st =
     (let kept = filter (\<lambda>(_, s). \<not> is_expired now s) (inner st)
      in (st\<lparr>inner := kept\<rparr>, sort_key ns_id (map snd kept)))"

definition claim_secret :: "string \<Rightarrow> session_store \<Rightarrow> session_store \<times> bool" where
  "claim_secret secret st =
     (if secret \<in> used_secrets st then (st, False)
      else (st\<lparr>used_secrets := insert secret (used_secrets st)\<rparr>, True))"

section \<open>The invariant and the specification\<close>

text \<open>A session is stored under its own identifier, once.\<close>

definition store_ok :: "session_store \<Rightarrow> bool" where
  "store_ok st \<longleftrightarrow>
     distinct (map fst (inner st)) \<and> list_all (\<lambda>(k, s). ns_id s = k) (inner st)"

definition live :: "session_store \<Rightarrow> instant \<Rightarrow> string \<Rightarrow> nip46_session option" where
  "live st t k =
     (case map_of (inner st) k of
        Some s \<Rightarrow> (if is_expired t s then None else Some s)
      | None \<Rightarrow> None)"

lemma live_eq_Some:
  "live st t k = Some s \<longleftrightarrow> map_of (inner st) k = Some s \<and> \<not> is_expired t s"
  by (auto simp: live_def split: option.splits)

lemma is_expired_mono: "is_expired now s \<Longrightarrow> now \<le> t \<Longrightarrow> is_expired t s"
  by (auto simp: is_expired_def split: option.splits)

lemma live_update:
  "live (st\<lparr>inner := AList.update k s (inner st)\<rparr>) t =
     (live st t)(k := (if is_expired t s then None else Some s))"
  by (rule ext) (simp add: live_def AList.update_conv')

lemma live_delete: "live (st\<lparr>inner := AList.delete k (inner st)\<rparr>) t = (live st t)(k := None)"
  by (rule ext) (auto simp: live_def AList.delete_conv')

lemma live_secrets [simp]: "live (st\<lparr>used_secrets := S\<rparr>) = live st"
  by (intro ext) (simp add: live_def)

lemma store_okI:
  "distinct (map fst (inner st)) \<Longrightarrow> (\<And>k s. (k, s) \<in> set (inner st) \<Longrightarrow> ns_id s = k) \<Longrightarrow> store_ok st"
  by (auto simp: store_ok_def list_all_iff)

lemma store_ok_id: "store_ok st \<Longrightarrow> map_of (inner st) k = Some s \<Longrightarrow> ns_id s = k"
  by (auto simp: store_ok_def list_all_iff dest: map_of_SomeD)

lemma set_update_subset: "set (AList.update k v al) \<subseteq> insert (k, v) (set al)"
  by (induction al) auto

lemma set_delete_subset: "set (AList.delete k al) \<subseteq> set al"
  by (auto simp: AList.delete_eq)

lemma store_ok_update:
  assumes "store_ok st" and "ns_id s = k"
  shows "store_ok (st\<lparr>inner := AList.update k s (inner st)\<rparr>)"
proof (rule store_okI)
  show "distinct (map fst (inner (st\<lparr>inner := AList.update k s (inner st)\<rparr>)))"
    using assms(1) by (simp add: store_ok_def AList.distinct_update)
  show "ns_id s' = k'" if "(k', s') \<in> set (inner (st\<lparr>inner := AList.update k s (inner st)\<rparr>))" for k' s'
    using that assms set_update_subset [of k s "inner st"]
    by (auto simp: store_ok_def list_all_iff)
qed

lemma store_ok_delete:
  "store_ok st \<Longrightarrow> store_ok (st\<lparr>inner := AList.delete k (inner st)\<rparr>)"
  using set_delete_subset [of k "inner st"]
  by (auto simp: store_ok_def list_all_iff AList.distinct_delete)

lemma store_ok_filter:
  "store_ok st \<Longrightarrow> store_ok (st\<lparr>inner := filter P (inner st)\<rparr>)"
  by (auto simp: store_ok_def list_all_iff intro: distinct_map_filter)

lemma store_ok_secrets [simp]: "store_ok (st\<lparr>used_secrets := S\<rparr>) = store_ok st"
  by (simp add: store_ok_def)

lemmas store_ok_intros = store_ok_update store_ok_delete store_ok_filter

subsection \<open>The operations that update one session\<close>

text \<open>Each looks a session up, removes it when it has expired, and otherwise writes it back
  changed, leaving its identifier and its expiry.\<close>

locale session_touch =
  fixes touch :: "instant \<Rightarrow> string \<Rightarrow> session_store \<Rightarrow> session_store \<times> 'r"
    and upd :: "nip46_session \<Rightarrow> nip46_session"
    and reply :: "nip46_session \<Rightarrow> 'r"
    and missing :: 'r
  assumes touch_found: "map_of (inner st) k = Some s \<Longrightarrow> \<not> is_expired now s \<Longrightarrow>
      touch now k st = (st\<lparr>inner := AList.update k (upd s) (inner st)\<rparr>, reply s)"
    and touch_expired: "map_of (inner st) k = Some s \<Longrightarrow> is_expired now s \<Longrightarrow>
      touch now k st = (st\<lparr>inner := AList.delete k (inner st)\<rparr>, missing)"
    and touch_unknown: "map_of (inner st) k = None \<Longrightarrow> touch now k st = (st, missing)"
    and upd_id: "ns_id (upd s) = ns_id s"
    and upd_expires: "ns_expires_at (upd s) = ns_expires_at s"
begin

lemma upd_is_expired: "is_expired t (upd s) = is_expired t s"
  by (simp add: is_expired_def upd_expires)

lemma touch_reply: "snd (touch now k st) = (case live st now k of Some s \<Rightarrow> reply s | None \<Rightarrow> missing)"
  by (cases "map_of (inner st) k")
    (auto simp: live_def touch_unknown dest: touch_found touch_expired)

lemma touch_live:
  assumes "now \<le> t"
  shows "live (fst (touch now k st)) t =
    (case live st now k of
       None \<Rightarrow> live st t
     | Some s \<Rightarrow> if is_expired t s then live st t else (live st t)(k \<mapsto> upd s))"
proof (cases "map_of (inner st) k")
  case None
  then show ?thesis by (simp add: live_def touch_unknown)
next
  case (Some s)
  then have 0: "live st t k = (if is_expired t s then None else Some s)" for t
    by (simp add: live_def)
  show ?thesis
  proof (cases "is_expired now s")
    case True
    with assms have "is_expired t s" by (blast intro: is_expired_mono)
    with True show ?thesis
      by (auto simp: 0 touch_expired [OF Some True] live_delete fun_eq_iff)
  next
    case False
    then show ?thesis
      by (auto simp: 0 touch_found [OF Some False] live_update upd_is_expired fun_eq_iff)
  qed
qed

lemma touch_store_ok: "store_ok st \<Longrightarrow> store_ok (fst (touch now k st))"
proof (cases "map_of (inner st) k")
  case (Some s)
  moreover assume "store_ok st"
  ultimately show ?thesis
    by (cases "is_expired now s")
      (auto simp: touch_found touch_expired upd_id store_ok_id intro!: store_ok_intros)
qed (simp add: touch_unknown)

lemma touch_secrets: "used_secrets (fst (touch now k st)) = used_secrets st"
  by (cases "map_of (inner st) k"; cases "is_expired now (the (map_of (inner st) k))")
    (auto simp: touch_unknown dest: touch_found touch_expired)

end

interpretation user_pubkey: session_touch
  "\<lambda>now k. set_user_pubkey now k pubkey" "\<lambda>s. s\<lparr>ns_user_pubkey := Some pubkey\<rparr>"
  "\<lambda>_. True" False for pubkey
  by unfold_locales (auto simp: set_user_pubkey_def)

interpretation auth_required: session_touch
  "\<lambda>now k. require_auth now k auth_url"
  "\<lambda>s. s\<lparr>ns_auth_required := True, ns_authorized := False, ns_auth_url := Some auth_url,
      ns_pending_request := None\<rparr>"
  "\<lambda>_. True" False for auth_url
  by unfold_locales (auto simp: require_auth_def)

interpretation authorized: session_touch
  authorize "\<lambda>s. s\<lparr>ns_authorized := True, ns_pending_request := None\<rparr>"
  "\<lambda>s. Some (ns_pending_request s)" None
  by unfold_locales (auto simp: authorize_def)

interpretation pending: session_touch
  "\<lambda>now k. set_pending_request now k p" "\<lambda>s. s\<lparr>ns_pending_request := Some p\<rparr>"
  "\<lambda>_. True" False for p
  by unfold_locales (auto simp: set_pending_request_def)

subsection \<open>The other operations\<close>

lemma get_reply [simp]: "snd (get_session_entry now k st) = live st now k"
  by (auto simp: get_session_entry_def live_def split: option.split)

lemma get_live:
  assumes "now \<le> t"
  shows "live (fst (get_session_entry now k st)) t = live st t"
proof (rule ext)
  fix j
  show "live (fst (get_session_entry now k st)) t j = live st t j"
    using is_expired_mono [OF _ assms]
    by (auto simp: get_session_entry_def live_def AList.delete_conv' split: option.splits)
qed

lemma get_store_ok: "store_ok st \<Longrightarrow> store_ok (fst (get_session_entry now k st))"
  by (auto simp: get_session_entry_def intro!: store_ok_intros)

lemma get_secrets [simp]: "used_secrets (fst (get_session_entry now k st)) = used_secrets st"
  by (simp add: get_session_entry_def)

lemma insert_live:
  "live (insert_session s st) t = (live st t)(ns_id s := (if is_expired t s then None else Some s))"
  by (simp add: insert_session_def live_update)

lemma insert_store_ok: "store_ok st \<Longrightarrow> store_ok (insert_session s st)"
  by (simp add: insert_session_def store_ok_update)

lemma remove_live: "live (fst (remove_session k st)) t = (live st t)(k := None)"
  by (simp add: remove_session_def live_delete)

lemma map_of_filter_distinct:
  "distinct (map fst al) \<Longrightarrow>
     map_of (filter (\<lambda>(_, v). P v) al) k =
       (case map_of al k of Some v \<Rightarrow> (if P v then Some v else None) | None \<Rightarrow> None)"
  by (induction al) (auto split: option.splits simp: rev_image_eqI map_of_eq_None_iff)

lemma list_live:
  assumes "store_ok st" and "now \<le> t"
  shows "live (fst (list_sessions now st)) t = live st t"
proof (rule ext)
  fix k
  have "map_of (inner (fst (list_sessions now st))) k =
      (case map_of (inner st) k of Some s \<Rightarrow> (if \<not> is_expired now s then Some s else None) | None \<Rightarrow> None)"
    using assms(1) map_of_filter_distinct [of "inner st" "\<lambda>s. \<not> is_expired now s" k]
    by (simp add: list_sessions_def store_ok_def Let_def)
  then show "live (fst (list_sessions now st)) t k = live st t k"
    using is_expired_mono [OF _ assms(2)] by (auto simp: live_def split: option.splits)
qed

lemma list_set:
  assumes "store_ok st"
  shows "set (snd (list_sessions now st)) = {s. \<exists>k. live st now k = Some s}"
proof -
  have d: "distinct (map fst (inner st))" using assms by (simp add: store_ok_def)
  have "s \<in> set (snd (list_sessions now st)) \<longleftrightarrow>
      (\<exists>k. map_of (inner st) k = Some s \<and> \<not> is_expired now s)" for s
    using d by (force simp: list_sessions_def Let_def map_of_eq_Some_iff)
  then show ?thesis by (auto simp: live_eq_Some)
qed

lemma list_sorted:
  assumes "store_ok st"
  shows "sorted_wrt (<) (map ns_id (snd (list_sessions now st)))"
proof -
  let ?kept = "filter (\<lambda>(_, s). \<not> is_expired now s) (inner st)"
  have ok: "store_ok (st\<lparr>inner := ?kept\<rparr>)" using assms by (rule store_ok_filter)
  then have "map ns_id (map snd ?kept) = map fst ?kept"
    by (auto simp: store_ok_def list_all_iff)
  moreover from ok have "distinct (map fst ?kept)" by (simp add: store_ok_def)
  ultimately have "distinct (map ns_id (map snd ?kept))" by (simp only:)
  then have "distinct (map ns_id (sort_key ns_id (map snd ?kept)))"
    by (metis mset_eq_imp_distinct_iff mset_map mset_sort)
  then show ?thesis
    by (simp add: list_sessions_def Let_def strict_sorted_iff)
qed

lemma claim_live [simp]: "live (fst (claim_secret x st)) = live st"
  by (simp add: claim_secret_def)

section \<open>Runs of the store\<close>

text \<open>Every call the daemon makes on the store, with the time of the call.  The store is behind
  one mutex, so concurrent calls happen in some order.\<close>

datatype store_call =
    Insert nip46_session
  | Get string
  | Remove string
  | SetUserPubkey string public_key
  | RequireAuth string string
  | Authorize string
  | SetPending string pending_request
  | ListSessions
  | ClaimSecret string

fun store_step :: "instant \<Rightarrow> store_call \<Rightarrow> session_store \<Rightarrow> session_store" where
  "store_step now (Insert s) st = insert_session s st"
| "store_step now (Get k) st = fst (get_session_entry now k st)"
| "store_step now (Remove k) st = fst (remove_session k st)"
| "store_step now (SetUserPubkey k p) st = fst (set_user_pubkey now k p st)"
| "store_step now (RequireAuth k u) st = fst (require_auth now k u st)"
| "store_step now (Authorize k) st = fst (authorize now k st)"
| "store_step now (SetPending k p) st = fst (set_pending_request now k p st)"
| "store_step now ListSessions st = fst (list_sessions now st)"
| "store_step now (ClaimSecret x) st = fst (claim_secret x st)"

inductive reachable :: "session_store \<Rightarrow> bool" where
  start: "reachable new_store"
| step: "reachable st \<Longrightarrow> reachable (store_step now c st)"

lemma store_step_ok: "store_ok st \<Longrightarrow> store_ok (store_step now c st)"
  by (cases c)
    (auto simp: insert_store_ok get_store_ok user_pubkey.touch_store_ok auth_required.touch_store_ok
      authorized.touch_store_ok pending.touch_store_ok remove_session_def list_sessions_def
      Let_def claim_secret_def intro!: store_ok_intros)

lemma reachable_store_ok: "reachable st \<Longrightarrow> store_ok st"
  by (induction rule: reachable.induct) (simp_all add: store_step_ok, simp add: new_store_def store_ok_def)

lemma store_step_secrets: "used_secrets st \<subseteq> used_secrets (store_step now c st)"
  by (cases c)
    (auto simp: insert_session_def remove_session_def list_sessions_def Let_def claim_secret_def
      user_pubkey.touch_secrets auth_required.touch_secrets authorized.touch_secrets
      pending.touch_secrets)

text \<open>What a call returns.\<close>

datatype store_reply =
    Done
  | Found "nip46_session option"
  | Flag bool
  | Outcome "pending_request option option"
  | Listed "nip46_session list"

fun store_answer :: "instant \<Rightarrow> store_call \<Rightarrow> session_store \<Rightarrow> store_reply" where
  "store_answer now (Insert s) st = Done"
| "store_answer now (Get k) st = Found (snd (get_session_entry now k st))"
| "store_answer now (Remove k) st = Flag (snd (remove_session k st))"
| "store_answer now (SetUserPubkey k p) st = Flag (snd (set_user_pubkey now k p st))"
| "store_answer now (RequireAuth k u) st = Flag (snd (require_auth now k u st))"
| "store_answer now (Authorize k) st = Outcome (snd (authorize now k st))"
| "store_answer now (SetPending k p) st = Flag (snd (set_pending_request now k p st))"
| "store_answer now ListSessions st = Listed (snd (list_sessions now st))"
| "store_answer now (ClaimSecret x) st = Flag (snd (claim_secret x st))"

fun store_run :: "session_store \<Rightarrow> (instant \<times> store_call) list \<Rightarrow> store_reply list" where
  "store_run st [] = []"
| "store_run st ((now, c) # cs) = store_answer now c st # store_run (store_step now c st) cs"

subsection \<open>The specification as a machine that never removes\<close>

text \<open>The abstract store keeps every session for ever and looks at the ones that have not expired:
  \<open>visible t m\<close>.\<close>

type_synonym abstract_store = "(string \<rightharpoonup> nip46_session) \<times> string set"

definition visible :: "instant \<Rightarrow> (string \<rightharpoonup> nip46_session) \<Rightarrow> string \<rightharpoonup> nip46_session" where
  "visible t m k = (case m k of Some s \<Rightarrow> (if is_expired t s then None else Some s) | None \<Rightarrow> None)"

definition change ::
  "instant \<Rightarrow> string \<Rightarrow> (nip46_session \<Rightarrow> nip46_session) \<Rightarrow> abstract_store \<Rightarrow> abstract_store" where
  "change now k f = (\<lambda>(m, u). (case visible now m k of Some s \<Rightarrow> (m(k \<mapsto> f s), u) | None \<Rightarrow> (m, u)))"

fun spec_step :: "instant \<Rightarrow> store_call \<Rightarrow> abstract_store \<Rightarrow> abstract_store" where
  "spec_step now (Insert s) (m, u) = (m(ns_id s \<mapsto> s), u)"
| "spec_step now (Get k) a = a"
| "spec_step now (Remove k) (m, u) = (m(k := None), u)"
| "spec_step now (SetUserPubkey k p) a = change now k (\<lambda>s. s\<lparr>ns_user_pubkey := Some p\<rparr>) a"
| "spec_step now (RequireAuth k w) a =
     change now k (\<lambda>s. s\<lparr>ns_auth_required := True, ns_authorized := False, ns_auth_url := Some w,
       ns_pending_request := None\<rparr>) a"
| "spec_step now (Authorize k) a =
     change now k (\<lambda>s. s\<lparr>ns_authorized := True, ns_pending_request := None\<rparr>) a"
| "spec_step now (SetPending k p) a = change now k (\<lambda>s. s\<lparr>ns_pending_request := Some p\<rparr>) a"
| "spec_step now ListSessions a = a"
| "spec_step now (ClaimSecret x) (m, u) = (m, insert x u)"

text \<open>The replies the specification allows.  \<open>Remove\<close> may report an expired session as removed or
  not: the code tells whether its entry was still there.\<close>

fun spec_allows :: "instant \<Rightarrow> store_call \<Rightarrow> abstract_store \<Rightarrow> store_reply \<Rightarrow> bool" where
  "spec_allows now (Insert s) (m, u) r \<longleftrightarrow> r = Done"
| "spec_allows now (Get k) (m, u) r \<longleftrightarrow> r = Found (visible now m k)"
| "spec_allows now (Remove k) (m, u) r \<longleftrightarrow>
     r \<in> {Flag True, Flag False} \<and>
     (visible now m k \<noteq> None \<longrightarrow> r = Flag True) \<and> (m k = None \<longrightarrow> r = Flag False)"
| "spec_allows now (SetUserPubkey k p) (m, u) r \<longleftrightarrow> r = Flag (visible now m k \<noteq> None)"
| "spec_allows now (RequireAuth k w) (m, u) r \<longleftrightarrow> r = Flag (visible now m k \<noteq> None)"
| "spec_allows now (Authorize k) (m, u) r \<longleftrightarrow>
     r = Outcome (map_option ns_pending_request (visible now m k))"
| "spec_allows now (SetPending k p) (m, u) r \<longleftrightarrow> r = Flag (visible now m k \<noteq> None)"
| "spec_allows now ListSessions (m, u) r \<longleftrightarrow>
     r = Listed (map (the \<circ> visible now m) (sorted_list_of_set (dom (visible now m))))"
| "spec_allows now (ClaimSecret x) (m, u) r \<longleftrightarrow> r = Flag (x \<notin> u)"

fun spec_accepts :: "abstract_store \<Rightarrow> (instant \<times> store_call) list \<Rightarrow> store_reply list \<Rightarrow> bool" where
  "spec_accepts a [] [] = True"
| "spec_accepts a ((now, c) # cs) (r # rs) =
     (spec_allows now c a r \<and> spec_accepts (spec_step now c a) cs rs)"
| "spec_accepts a _ _ = False"

text \<open>The simulation: the store holds sessions of the abstract one, and all that have not expired.\<close>

definition refines :: "instant \<Rightarrow> (string \<rightharpoonup> nip46_session) \<Rightarrow> (string \<rightharpoonup> nip46_session) \<Rightarrow> bool" where
  "refines now c m \<longleftrightarrow>
     (\<forall>k. c k = m k \<or> (c k = None \<and> (\<exists>s. m k = Some s \<and> is_expired now s)))"

definition sim :: "instant \<Rightarrow> session_store \<Rightarrow> abstract_store \<Rightarrow> bool" where
  "sim now st a \<longleftrightarrow>
     store_ok st \<and> used_secrets st = snd a \<and> refines now (map_of (inner st)) (fst a)"

lemma simI:
  "store_ok st \<Longrightarrow> used_secrets st = u \<Longrightarrow> refines now (map_of (inner st)) m \<Longrightarrow> sim now st (m, u)"
  by (simp add: sim_def)

lemma simD:
  assumes "sim now st (m, u)"
  shows "store_ok st" and "used_secrets st = u" and "refines now (map_of (inner st)) m"
  using assms by (simp_all add: sim_def)

lemma refines_cases:
  assumes "refines now c m"
  obtains "c k = m k" | s where "c k = None" "m k = Some s" "is_expired now s"
  using assms by (auto simp: refines_def)

lemma refines_upd: "refines now c m \<Longrightarrow> refines now (c(k := v)) (m(k := v))"
  by (simp add: refines_def)

lemma refines_drop:
  "refines now c m \<Longrightarrow> m k = Some s \<Longrightarrow> is_expired now s \<Longrightarrow> refines now (c(k := None)) m"
  by (simp add: refines_def)

lemma sim_live:
  assumes "sim now st (m, u)"
  shows "live st now = visible now m"
proof (rule ext)
  fix k
  from simD(3) [OF assms] show "live st now k = visible now m k"
    by (rule refines_cases [where k = k]) (simp_all add: live_def visible_def)
qed

lemma sim_later: "sim now st a \<Longrightarrow> now \<le> t \<Longrightarrow> sim t st a"
  unfolding sim_def refines_def using is_expired_mono by blast

lemma sim_write:
  assumes "sim now st (m, u)" and "ns_id s = k"
  shows "sim now (st\<lparr>inner := AList.update k s (inner st)\<rparr>) (m(k \<mapsto> s), u)"
  using simD [OF assms(1)] assms(2)
  by (intro simI store_ok_update) (simp_all add: AList.update_conv' refines_upd)

lemma sim_drop:
  assumes "sim now st (m, u)" and "m k = Some s" and "is_expired now s"
  shows "sim now (st\<lparr>inner := AList.delete k (inner st)\<rparr>) (m, u)"
  using simD [OF assms(1)] assms(2,3)
  by (intro simI store_ok_delete) (simp_all add: AList.delete_conv' refines_drop)

lemma sim_found:
  assumes "sim now st (m, u)" and "map_of (inner st) k = Some s"
  shows "m k = Some s"
  using simD(3) [OF assms(1)] by (rule refines_cases [where k = k]) (use assms(2) in simp_all)

lemma sim_get:
  assumes "sim now st (m, u)"
  shows "sim now (fst (get_session_entry now k st)) (m, u)"
proof (cases "map_of (inner st) k")
  case (Some s)
  with assms show ?thesis
    by (cases "is_expired now s") (simp_all add: get_session_entry_def sim_drop sim_found)
qed (simp add: get_session_entry_def assms)

lemma sim_remove:
  assumes "sim now st (m, u)"
  shows "sim now (fst (remove_session k st)) (m(k := None), u)"
  unfolding remove_session_def fst_conv
  using simD [OF assms]
  by (intro simI store_ok_delete) (simp_all add: AList.delete_conv' refines_upd)

lemma sim_list:
  assumes "sim now st (m, u)"
  shows "sim now (fst (list_sessions now st)) (m, u)"
proof -
  let ?st' = "fst (list_sessions now st)"
  have kept: "map_of (inner ?st') k =
      (case map_of (inner st) k of Some s \<Rightarrow> (if \<not> is_expired now s then Some s else None) | None \<Rightarrow> None)"
    for k
    using simD(1) [OF assms] map_of_filter_distinct [of "inner st" "\<lambda>s. \<not> is_expired now s" k]
    by (simp add: list_sessions_def store_ok_def Let_def)
  have "refines now (map_of (inner ?st')) m"
    unfolding refines_def
  proof
    fix k
    from simD(3) [OF assms]
    show "map_of (inner ?st') k = m k \<or>
        (map_of (inner ?st') k = None \<and> (\<exists>s. m k = Some s \<and> is_expired now s))"
      by (rule refines_cases [where k = k]) (simp_all add: kept split: option.split)
  qed
  moreover have "store_ok ?st'" "used_secrets ?st' = u"
    using simD(1,2) [OF assms] by (auto simp: list_sessions_def Let_def intro: store_ok_filter)
  ultimately show ?thesis by (intro simI)
qed

lemma sim_claim: "sim now st (m, u) \<Longrightarrow> sim now (fst (claim_secret x st)) (m, insert x u)"
  by (auto simp: sim_def claim_secret_def)

lemma list_reply:
  assumes "store_ok st"
  shows "snd (list_sessions now st) =
    map (the \<circ> live st now) (sorted_list_of_set (dom (live st now)))"
proof -
  let ?l = "snd (list_sessions now st)"
  have id: "live st now (ns_id s) = Some s" if "s \<in> set ?l" for s
    using that list_set [OF assms, of now] store_ok_id [OF assms] by (auto simp: live_eq_Some)
  have "set (map ns_id ?l) = dom (live st now)"
    using list_set [OF assms, of now] store_ok_id [OF assms]
    by (force simp: dom_def live_eq_Some)
  moreover have "sorted_wrt (<) (map ns_id ?l)" by (rule list_sorted [OF assms])
  ultimately have "map ns_id ?l = sorted_list_of_set (dom (live st now))"
    by (metis sorted_list_of_set.idem_if_sorted_distinct strict_sorted_iff)
  then have "map (the \<circ> live st now) (sorted_list_of_set (dom (live st now))) =
      map (\<lambda>s. the (live st now (ns_id s))) ?l"
    by (metis (no_types, lifting) comp_apply list.map_comp list.map_cong0)
  also have "\<dots> = ?l" using id by (simp add: map_idI)
  finally show ?thesis by simp
qed

context session_touch
begin

lemma touch_sim:
  assumes "sim now st (m, u)"
  shows "sim now (fst (touch now k st)) (change now k upd (m, u))"
proof (cases "map_of (inner st) k")
  case None
  then have "visible now m k = None"
    by (simp add: sim_live [OF assms, symmetric] live_def)
  with assms None show ?thesis by (simp add: touch_unknown change_def)
next
  case (Some s)
  then have m: "m k = Some s" by (rule sim_found [OF assms])
  show ?thesis
  proof (cases "is_expired now s")
    case True
    with m assms show ?thesis
      by (simp add: touch_expired [OF Some] change_def visible_def sim_drop)
  next
    case False
    have "ns_id (upd s) = k" using simD(1) [OF assms] Some by (simp add: upd_id store_ok_id)
    with False m assms show ?thesis
      by (simp add: touch_found [OF Some] change_def visible_def sim_write)
  qed
qed

end

lemma step_sim: "sim now st a \<Longrightarrow> sim now (store_step now c st) (spec_step now c a)"
  by (cases a; cases c)
    (simp_all add: insert_session_def sim_write sim_get sim_remove sim_list sim_claim
      user_pubkey.touch_sim auth_required.touch_sim authorized.touch_sim pending.touch_sim)

lemma answer_sim:
  assumes "sim now st (m, u)"
  shows "spec_allows now c (m, u) (store_answer now c st)"
proof (cases c)
  case (Remove k)
  have "visible now m k = None" if "map_of (inner st) k = None"
    using that by (simp add: sim_live [OF assms, symmetric] live_def)
  with sim_found [OF assms, of k] show ?thesis
    unfolding Remove by (cases "map_of (inner st) k") (simp_all add: remove_session_def)
qed (use simD(1,2) [OF assms] in \<open>simp_all add: sim_live [OF assms] list_reply claim_secret_def
    user_pubkey.touch_reply auth_required.touch_reply authorized.touch_reply
    pending.touch_reply option.case_eq_if map_option_case\<close>)

lemma run_sim:
  "sim t st a \<Longrightarrow> sorted (t # map fst cs) \<Longrightarrow> spec_accepts a cs (store_run st cs)"
proof (induction st cs arbitrary: a t rule: store_run.induct)
  case (2 st now c cs)
  then have "sim now st a" by (auto intro: sim_later)
  then have "sim now (store_step now c st) (spec_step now c a)" by (rule step_sim)
  moreover have "sorted (now # map fst cs)" using 2 by simp
  ultimately have "spec_accepts (spec_step now c a) cs (store_run (store_step now c st) cs)"
    by (rule "2.IH")
  with \<open>sim now st a\<close> show ?case by (cases a) (simp add: answer_sim)
qed simp

lemma sim_new: "sim t new_store (Map.empty, {})"
  by (simp add: sim_def new_store_def store_ok_def refines_def)

text \<open>The replies of \<open>claim_secret\<close> along a run of calls.\<close>

fun claims_won :: "session_store \<Rightarrow> (instant \<times> store_call) list \<Rightarrow> string list" where
  "claims_won st [] = []"
| "claims_won st ((now, c) # cs) =
     (case c of ClaimSecret x \<Rightarrow> (if snd (claim_secret x st) then [x] else []) | _ \<Rightarrow> [])
     @ claims_won (store_step now c st) cs"

lemma claims_won_fresh: "x \<in> used_secrets st \<Longrightarrow> x \<notin> set (claims_won st cs)"
proof (induction st cs rule: claims_won.induct)
  case (2 st now c cs)
  then have "x \<in> used_secrets (store_step now c st)"
    using store_step_secrets by blast
  with 2 show ?case
    by (auto simp: claim_secret_def split: store_call.splits)
qed simp

lemma claims_won_distinct: "distinct (claims_won st cs)"
proof (induction st cs rule: claims_won.induct)
  case (2 st now c cs)
  moreover have "x \<notin> set (claims_won (store_step now (ClaimSecret x) st) cs)" for x
    by (rule claims_won_fresh) (simp add: claim_secret_def)
  ultimately show ?case
    by (cases c) (simp_all del: store_step.simps)
qed simp

section \<open>Properties\<close>

lemma prefix_sign_event [simp]: "\<not> prefix ''sign_event:'' ''sign_event''"
  by simp

definition sample_session :: nip46_session where
  "sample_session =
     \<lparr>ns_id = ''s1'', ns_client = ''c'', ns_client_keys = ''k'', ns_client_pubkey = ''p'',
      ns_remote_signer_pubkey = ''r'', ns_user_pubkey = None, ns_relays = [], ns_perms = [],
      ns_name = None, ns_url = None, ns_image = None, ns_expires_at = Some 10,
      ns_auth_required = False, ns_authorized = True, ns_auth_url = None,
      ns_pending_request = None, ns_signer_authority = None\<rparr>"

text \<open>C4. The session store behaves as a store that keeps every session and shows those that have
  not expired: along any run of calls at non-decreasing times, every reply of the code (including
  the sorted listing, the pending request handed out by \<open>authorize\<close> and the verdict on a connect
  secret) is the reply of that specification, so the lazy removal of expired sessions cannot be
  observed, except that closing an expired session may report it as closed.\<close>

theorem session_store_refines:
  assumes "sorted (map fst calls)"
  shows "spec_accepts (Map.empty, {}) calls (store_run new_store calls)"
proof -
  have "sorted (0 # map fst calls)" using assms by simp
  then show ?thesis using run_sim [OF sim_new] by blast
qed

theorem session_store_refines_witness:
  "store_run new_store
     [(0, Insert sample_session), (5, Get ''s1''), (12, Get ''s1''), (12, ClaimSecret ''x'')] =
     [Done, Found (Some sample_session), Found None, Flag True] \<and>
   spec_accepts (Map.empty, {})
     [(0, Insert sample_session), (5, Get ''s1''), (12, Get ''s1''), (12, ClaimSecret ''x'')]
     [Done, Found (Some sample_session), Found None, Flag True]"
proof -
  let ?calls = "[(0, Insert sample_session), (5, Get ''s1''), (12, Get ''s1''), (12, ClaimSecret ''x'')]"
  have "store_run new_store ?calls = [Done, Found (Some sample_session), Found None, Flag True]"
    by (simp add: new_store_def insert_session_def get_session_entry_def sample_session_def
        is_expired_def claim_secret_def)
  moreover have "spec_accepts (Map.empty, {}) ?calls (store_run new_store ?calls)"
    by (rule session_store_refines) simp
  ultimately show ?thesis by simp
qed

text \<open>C13. A connect secret is accepted at most once: along any run of calls on the store, whatever
  other calls happen in between, the secrets \<open>claim_secret\<close> answers \<open>true\<close> for are pairwise distinct
  and none of them was used before the run.\<close>

theorem connect_secret_single_use:
  "distinct (claims_won st calls) \<and> set (claims_won st calls) \<inter> used_secrets st = {}"
  using claims_won_distinct claims_won_fresh by blast

text \<open>C37. The permissions granted to a session never exceed what the daemon's configuration allows
  and what the client asked for: a session whose permissions were filtered may sign an event of a
  kind only if the configured permissions allow that kind and the requested ones do, and any
  other permission it has is one the configuration lists.\<close>

theorem filter_perms_no_escalation:
  "(sign_event_allowed (filter_perms requested allowed) kind \<longrightarrow>
      sign_event_allowed allowed kind \<and> sign_event_allowed requested kind) \<and>
   (perm \<in> set (filter_perms requested allowed) \<longrightarrow>
      perm \<in> set requested \<and> (perm \<in> set allowed \<or> ''sign_event'' \<in> set allowed \<and> prefix ''sign_event:'' perm))"
  by (auto simp: sign_event_allowed_def filter_perms_def split: if_splits)

theorem filter_perms_no_escalation_witness:
  "sign_event_allowed (filter_perms [''sign_event:1'', ''nip04_encrypt''] [''sign_event'']) 1 \<and>
   sign_event_allowed [''sign_event''] 1"
proof -
  have "sign_event_allowed (filter_perms [''sign_event:1'', ''nip04_encrypt''] [''sign_event'']) 1"
    by (simp add: sign_event_allowed_def filter_perms_def show_nat.simps)
  moreover from this have "sign_event_allowed [''sign_event''] 1"
    using filter_perms_no_escalation [of "[''sign_event:1'', ''nip04_encrypt'']" "[''sign_event'']" 1 "[]"]
    by blast
  ultimately show ?thesis by blast
qed

text \<open>In every state the store can reach, \<open>list\<close> returns exactly the sessions that have not
  expired, each once, in strictly increasing order of their identifiers.\<close>

theorem listing_exact:
  assumes "reachable st"
  shows "set (snd (list_sessions now st)) = {s. \<exists>k. live st now k = Some s} \<and>
    sorted_wrt (<) (map ns_id (snd (list_sessions now st)))"
  using reachable_store_ok [OF assms] by (simp add: list_set list_sorted)

theorem listing_exact_witness:
  "snd (list_sessions 5 (store_step 0 (Insert sample_session) new_store)) = [sample_session] \<and>
   {s. \<exists>k. live (store_step 0 (Insert sample_session) new_store) 5 k = Some s} = {sample_session}"
proof -
  let ?st = "store_step 0 (Insert sample_session) new_store"
  have "reachable ?st" by (intro reachable.intros)
  from listing_exact [OF this, of 5]
  have "set (snd (list_sessions 5 ?st)) = {s. \<exists>k. live ?st 5 k = Some s}" by blast
  moreover have "snd (list_sessions 5 ?st) = [sample_session]"
    by (simp add: new_store_def insert_session_def list_sessions_def sample_session_def is_expired_def)
  ultimately show ?thesis by (metis empty_set list.simps(15))
qed

text \<open>A signer authority that \<open>normalized\<close> accepts has non-empty, trimmed identifiers, and
  normalising it again changes nothing.\<close>

theorem normalized_stable:
  assumes "normalized a = Inr b"
  shows "normalized b = Inr b \<and> sa_provider_runtime_id b \<noteq> [] \<and> sa_account_identity_id b \<noteq> [] \<and>
    sa_provider_session_id b \<noteq> Some []"
  using assms by (auto simp: normalized_def Let_def split: option.splits if_splits)

theorem normalized_stable_witness:
  "normalized \<lparr>sa_provider_runtime_id = '' rt '', sa_account_identity_id = ''acct'',
     sa_provider_session_id = Some '' ''\<rparr> =
   Inr \<lparr>sa_provider_runtime_id = ''rt'', sa_account_identity_id = ''acct'', sa_provider_session_id = None\<rparr> \<and>
   normalized \<lparr>sa_provider_runtime_id = ''rt'', sa_account_identity_id = ''acct'', sa_provider_session_id = None\<rparr> =
   Inr \<lparr>sa_provider_runtime_id = ''rt'', sa_account_identity_id = ''acct'', sa_provider_session_id = None\<rparr>"
proof -
  have "normalized \<lparr>sa_provider_runtime_id = '' rt '', sa_account_identity_id = ''acct'',
     sa_provider_session_id = Some '' ''\<rparr> =
    Inr \<lparr>sa_provider_runtime_id = ''rt'', sa_account_identity_id = ''acct'', sa_provider_session_id = None\<rparr>"
    by (simp add: normalized_def trim_def strip_start.simps leading_def white_space_def)
  from this and normalized_stable [OF this] show ?thesis by blast
qed

end
