(* ===== verification/Nip46_Listener.thy ===== *)
theory Nip46_Listener
  imports Nip46_Session Daemon_Config
begin

text \<open>
  The NIP-46 signer side of the daemon, \<open>src/transport/nostr/listener.rs\<close> with the daemon state of
  \<open>src/core/state.rs\<close>: \<open>handle_request\<close> answers one decrypted request of a client, and
  \<open>listener_iteration\<close> is one turn of the notification loop of \<open>run_nip46_listener\<close>.  A request reads
  the clock twice at most, once to look the session up and once to park the request; both times
  are arguments.
\<close>

section \<open>The daemon's state\<close>

record radrootsd =
  rd_client :: client
  rd_keys :: keys
  rd_pubkey :: public_key
  rd_sessions :: session_store
  rd_nip46_config :: nip46_config

section \<open>Answering a request\<close>

definition session_for_client ::
  "nostr_crate \<Rightarrow> instant \<Rightarrow> radrootsd \<Rightarrow> public_key
     \<Rightarrow> radrootsd \<times> (nostr_connect_response + nip46_session)" where
  "session_for_client N now rd client_pubkey =
     (let (st, found) = get_session_entry now (nc_to_hex N client_pubkey) (rd_sessions rd)
      in (rd\<lparr>rd_sessions := st\<rparr>, ok_or (WithError ''unauthorized'') found))"

definition has_permission :: "nip46_session \<Rightarrow> string \<Rightarrow> bool" where
  "has_permission s perm \<longleftrightarrow> perm \<in> set (ns_perms s)"

definition has_sign_event_permission :: "nip46_session \<Rightarrow> u32 \<Rightarrow> bool" where
  "has_sign_event_permission s kind = sign_event_allowed (ns_perms s) kind"

definition auth_challenge ::
  "instant \<Rightarrow> radrootsd \<Rightarrow> nip46_session \<Rightarrow> string \<Rightarrow> public_key \<Rightarrow> nostr_connect_request
     \<Rightarrow> radrootsd \<times> nostr_connect_response option" where
  "auth_challenge now rd s request_id client_pubkey request =
     (if \<not> ns_auth_required s \<or> ns_authorized s then (rd, None)
      else let p = \<lparr>pr_request_id = request_id, pr_client_pubkey = client_pubkey, pr_request = request\<rparr>;
               st = fst (set_pending_request now (ns_id s) p (rd_sessions rd));
               auth_url = (case ns_auth_url s of Some u \<Rightarrow> u | None \<Rightarrow> ''auth required'')
           in (rd\<lparr>rd_sessions := st\<rparr>, Some (NewResponse (Some RAuthUrl) (Some auth_url))))"

text \<open>The five requests that use the daemon's key go through the same steps: find the client's
  session, check its permission, challenge it when authorisation is required, act.\<close>

definition guarded_request ::
  "nostr_crate \<Rightarrow> instant \<Rightarrow> instant \<Rightarrow> radrootsd \<Rightarrow> public_key \<Rightarrow> string \<Rightarrow> nostr_connect_request
     \<Rightarrow> (nip46_session \<Rightarrow> bool) \<Rightarrow> string \<Rightarrow> nostr_connect_response
     \<Rightarrow> radrootsd \<times> nostr_connect_response" where
  "guarded_request N t1 t2 rd client_pubkey request_id request permitted denied act =
     (case session_for_client N t1 rd client_pubkey of
        (rd1, Inl response) \<Rightarrow> (rd1, response)
      | (rd1, Inr s) \<Rightarrow>
          if \<not> permitted s then (rd1, WithError denied)
          else (case auth_challenge t2 rd1 s request_id client_pubkey request of
                  (rd2, Some response) \<Rightarrow> (rd2, response)
                | (rd2, None) \<Rightarrow> (rd2, act)))"

definition connect_session ::
  "nostr_crate \<Rightarrow> radrootsd \<Rightarrow> public_key \<Rightarrow> instant option \<Rightarrow> nip46_session" where
  "connect_session N rd client_pubkey expires_at =
     \<lparr>ns_id = nc_to_hex N client_pubkey, ns_client = rd_client rd, ns_client_keys = rd_keys rd,
      ns_client_pubkey = client_pubkey, ns_remote_signer_pubkey = rd_pubkey rd,
      ns_user_pubkey = Some (rd_pubkey rd), ns_relays = [],
      ns_perms = n46_perms (rd_nip46_config rd), ns_name = None, ns_url = None, ns_image = None,
      ns_expires_at = expires_at, ns_auth_required = False, ns_authorized = True,
      ns_auth_url = None, ns_pending_request = None, ns_signer_authority = None\<rparr>"

text \<open>\<open>Connect\<close>: the secret, when there is one, is claimed before the session is made.\<close>

definition claim_connect_secret ::
  "string option \<Rightarrow> radrootsd \<Rightarrow> radrootsd \<times> nostr_connect_response option" where
  "claim_connect_secret secret rd =
     (case secret of
        None \<Rightarrow> (rd, None)
      | Some x \<Rightarrow>
          if trim x = [] then (rd, Some (WithError ''secret is empty''))
          else let (st, won) = claim_secret (trim x) (rd_sessions rd)
               in (rd\<lparr>rd_sessions := st\<rparr>,
                   if won then None else Some (WithError ''connect secret already used'')))"

definition handle_connect ::
  "nostr_crate \<Rightarrow> instant \<Rightarrow> radrootsd \<Rightarrow> public_key \<Rightarrow> public_key \<Rightarrow> string option
     \<Rightarrow> radrootsd \<times> (panic + nostr_connect_response)" where
  "handle_connect N now rd client_pubkey remote_signer secret =
     (if remote_signer \<noteq> rd_pubkey rd
      then (rd, Inr (WithError ''remote signer pubkey mismatch''))
      else (case claim_connect_secret secret rd of
              (rd1, Some response) \<Rightarrow> (rd1, Inr response)
            | (rd1, None) \<Rightarrow>
                (case session_expires_at now (n46_session_ttl_secs (rd_nip46_config rd1)) of
                   Inl p \<Rightarrow> (rd1, Inl p)
                 | Inr expires_at \<Rightarrow>
                     (rd1\<lparr>rd_sessions := insert_session (connect_session N rd1 client_pubkey expires_at)
                            (rd_sessions rd1)\<rparr>,
                      Inr (WithResult RAck)))))"

definition sign_response :: "nostr_crate \<Rightarrow> radrootsd \<Rightarrow> unsigned_event \<Rightarrow> nostr_connect_response" where
  "sign_response N rd u =
     (if ue_pubkey u \<noteq> rd_pubkey rd then WithError ''pubkey mismatch''
      else case nc_sign_with_keys N u (rd_keys rd) of
             Inr e \<Rightarrow> WithResult (RSignEvent e)
           | Inl err \<Rightarrow> WithError (''sign_event failed: '' @ err))"

definition cipher_response ::
  "string \<Rightarrow> (string \<Rightarrow> response_result) \<Rightarrow> string + string \<Rightarrow> nostr_connect_response" where
  "cipher_response name result r =
     (case r of Inr v \<Rightarrow> WithResult (result v) | Inl err \<Rightarrow> WithError (name @ '' failed: '' @ err))"

fun handle_request ::
  "nostr_crate \<Rightarrow> instant \<Rightarrow> instant \<Rightarrow> radrootsd \<Rightarrow> public_key \<Rightarrow> string \<Rightarrow> nostr_connect_request
     \<Rightarrow> radrootsd \<times> (panic + nostr_connect_response)" where
  "handle_request N t1 t2 rd client_pubkey request_id (Connect remote_signer secret) =
     handle_connect N t1 rd client_pubkey remote_signer secret"
| "handle_request N t1 t2 rd client_pubkey request_id GetPublicKey =
     (rd, Inr (WithResult (RGetPublicKey (rd_pubkey rd))))"
| "handle_request N t1 t2 rd client_pubkey request_id (SignEvent u) =
     apsnd Inr (guarded_request N t1 t2 rd client_pubkey request_id (SignEvent u)
       (\<lambda>s. has_sign_event_permission s (ucast (ue_kind u))) ''unauthorized sign_event''
       (sign_response N rd u))"
| "handle_request N t1 t2 rd client_pubkey request_id (Nip04Encrypt pk text) =
     apsnd Inr (guarded_request N t1 t2 rd client_pubkey request_id (Nip04Encrypt pk text)
       (\<lambda>s. has_permission s ''nip04_encrypt'') ''unauthorized nip04_encrypt''
       (cipher_response ''nip04_encrypt'' RNip04Encrypt (nc_nip04_encrypt N (rd_keys rd) pk text)))"
| "handle_request N t1 t2 rd client_pubkey request_id (Nip04Decrypt pk ciphertext) =
     apsnd Inr (guarded_request N t1 t2 rd client_pubkey request_id (Nip04Decrypt pk ciphertext)
       (\<lambda>s. has_permission s ''nip04_decrypt'') ''unauthorized nip04_decrypt''
       (cipher_response ''nip04_decrypt'' RNip04Decrypt (nc_nip04_decrypt N (rd_keys rd) pk ciphertext)))"
| "handle_request N t1 t2 rd client_pubkey request_id (Nip44Encrypt pk text) =
     apsnd Inr (guarded_request N t1 t2 rd client_pubkey request_id (Nip44Encrypt pk text)
       (\<lambda>s. has_permission s ''nip44_encrypt'') ''unauthorized nip44_encrypt''
       (cipher_response ''nip44_encrypt'' RNip44Encrypt (nc_nip44_encrypt N (rd_keys rd) pk text)))"
| "handle_request N t1 t2 rd client_pubkey request_id (Nip44Decrypt pk ciphertext) =
     apsnd Inr (guarded_request N t1 t2 rd client_pubkey request_id (Nip44Decrypt pk ciphertext)
       (\<lambda>s. has_permission s ''nip44_decrypt'') ''unauthorized nip44_decrypt''
       (cipher_response ''nip44_decrypt'' RNip44Decrypt (nc_nip44_decrypt N (rd_keys rd) pk ciphertext)))"
| "handle_request N t1 t2 rd client_pubkey request_id Ping = (rd, Inr (WithResult RPong))"

section \<open>The notification loop\<close>

datatype pool_notification = NotifyEvent event | NotifyOther
datatype received = Received pool_notification | RecvLagged | RecvClosed

text \<open>One turn: the new state, the response event that is sent, and whether the loop goes on.\<close>

datatype loop_flow = Continue | Stop string | Crash panic

definition sign_nip46_message ::
  "nostr_crate \<Rightarrow> keys \<Rightarrow> public_key \<Rightarrow> nostr_connect_message \<Rightarrow> string + event" where
  "sign_nip46_message N sender_keys receiver_pubkey message =
     and_then (nc_nostr_connect N sender_keys receiver_pubkey message)
       (\<lambda>builder. nc_builder_sign_with_keys N builder sender_keys)"

definition answer_event ::
  "nostr_crate \<Rightarrow> instant \<Rightarrow> instant \<Rightarrow> radrootsd \<Rightarrow> event \<Rightarrow> nostr_connect_message
     \<Rightarrow> radrootsd \<times> event option \<times> loop_flow" where
  "answer_event N t1 t2 rd e message =
     (case nc_to_request N message of
        Inl _ \<Rightarrow> (rd, None, Continue)
      | Inr request \<Rightarrow>
          (case handle_request N t1 t2 rd (ev_pubkey e) (msg_id message) request of
             (rd', Inl p) \<Rightarrow> (rd', None, Crash p)
           | (rd', Inr response) \<Rightarrow>
               (case sign_nip46_message N (rd_keys rd') (ev_pubkey e)
                       (nc_message_response N (msg_id message) response) of
                  Inl err \<Rightarrow> (rd', None, Stop (''nip46 response build failed: '' @ err))
                | Inr reply \<Rightarrow> (rd', Some reply, Continue))))"

fun listener_iteration ::
  "nostr_crate \<Rightarrow> instant \<Rightarrow> instant \<Rightarrow> radrootsd \<Rightarrow> received
     \<Rightarrow> radrootsd \<times> event option \<times> loop_flow" where
  "listener_iteration N t1 t2 rd RecvLagged = (rd, None, Continue)"
| "listener_iteration N t1 t2 rd RecvClosed = (rd, None, Stop ''nip46 listener notification closed'')"
| "listener_iteration N t1 t2 rd (Received NotifyOther) = (rd, None, Continue)"
| "listener_iteration N t1 t2 rd (Received (NotifyEvent e)) =
     (if ev_kind e \<noteq> kind_nostr_connect then (rd, None, Continue)
      else case nc_nip44_decrypt N (rd_keys rd) (ev_pubkey e) (ev_content e) of
             Inl _ \<Rightarrow> (rd, None, Continue)
           | Inr decrypted \<Rightarrow>
               (case nc_message_from_json N decrypted of
                  Inl _ \<Rightarrow> (rd, None, Continue)
                | Inr message \<Rightarrow>
                    if \<not> is_request message then (rd, None, Continue)
                    else answer_event N t1 t2 rd e message))"

text \<open>The loop over the notifications received so far: the state reached, the events sent, and
  the reason the loop ended, if it did.\<close>

fun run_nip46_listener ::
  "nostr_crate \<Rightarrow> radrootsd \<Rightarrow> (instant \<times> instant \<times> received) list
     \<Rightarrow> radrootsd \<times> event list \<times> loop_flow" where
  "run_nip46_listener N rd [] = (rd, [], Continue)"
| "run_nip46_listener N rd ((t1, t2, r) # turns) =
     (case listener_iteration N t1 t2 rd r of
        (rd', sent, Continue) \<Rightarrow>
          (let (rd'', later, flow) = run_nip46_listener N rd' turns
           in (rd'', (case sent of Some e \<Rightarrow> [e] | None \<Rightarrow> []) @ later, flow))
      | (rd', sent, flow) \<Rightarrow> (rd', (case sent of Some e \<Rightarrow> [e] | None \<Rightarrow> []), flow))"

section \<open>The requests that use the daemon's key\<close>

definition challenged :: "nip46_session \<Rightarrow> bool" where
  "challenged s \<longleftrightarrow> ns_auth_required s \<and> \<not> ns_authorized s"

definition challenge_response :: "nip46_session \<Rightarrow> nostr_connect_response" where
  "challenge_response s = NewResponse (Some RAuthUrl)
     (Some (case ns_auth_url s of Some u \<Rightarrow> u | None \<Rightarrow> ''auth required''))"

abbreviation sessions_at :: "radrootsd \<Rightarrow> instant \<Rightarrow> string \<Rightarrow> nip46_session option" where
  "sessions_at rd t \<equiv> live (rd_sessions rd) t"

lemma session_for_client_eq:
  "session_for_client N now rd pk =
     (rd\<lparr>rd_sessions := fst (get_session_entry now (nc_to_hex N pk) (rd_sessions rd))\<rparr>,
      ok_or (WithError ''unauthorized'') (sessions_at rd now (nc_to_hex N pk)))"
  by (simp add: session_for_client_def split: prod.split flip: get_reply)

lemma auth_challenge_eq:
  "auth_challenge now rd s rid pk request =
     (if challenged s
      then (rd\<lparr>rd_sessions := fst (set_pending_request now (ns_id s)
                \<lparr>pr_request_id = rid, pr_client_pubkey = pk, pr_request = request\<rparr> (rd_sessions rd))\<rparr>,
            Some (challenge_response s))
      else (rd, None))"
  by (simp add: auth_challenge_def challenged_def challenge_response_def Let_def)

text \<open>What the five requests promise: the reply is determined by the client's session, and the
  session store changes for this client only, and only by parking a challenged request.\<close>

locale key_operation =
  fixes run :: "nostr_crate \<Rightarrow> instant \<Rightarrow> instant \<Rightarrow> radrootsd \<Rightarrow> public_key \<Rightarrow> string
      \<Rightarrow> radrootsd \<times> (panic + nostr_connect_response)"
    and request :: nostr_connect_request
    and permitted :: "nip46_session \<Rightarrow> bool"
    and denied :: string
    and act :: "nostr_crate \<Rightarrow> radrootsd \<Rightarrow> nostr_connect_response"
  assumes run_guarded: "run N t1 t2 rd pk rid =
      apsnd Inr (guarded_request N t1 t2 rd pk rid request permitted denied (act N rd))"
begin

lemma run_reply:
  "snd (run N t1 t2 rd pk rid) = Inr
     (case sessions_at rd t1 (nc_to_hex N pk) of
        None \<Rightarrow> WithError ''unauthorized''
      | Some s \<Rightarrow> if \<not> permitted s then WithError denied
                  else if challenged s then challenge_response s
                  else act N rd)"
  by (simp add: run_guarded guarded_request_def session_for_client_eq auth_challenge_eq
      split: option.split)

lemma run_live:
  assumes "store_ok (rd_sessions rd)" and "t1 \<le> t2" and "t2 \<le> t"
  shows "sessions_at (fst (run N t1 t2 rd pk rid)) t =
    (case sessions_at rd t1 (nc_to_hex N pk) of
       Some s \<Rightarrow> if permitted s \<and> challenged s \<and> \<not> is_expired t s
         then (sessions_at rd t)(nc_to_hex N pk \<mapsto> s\<lparr>ns_pending_request :=
            Some \<lparr>pr_request_id = rid, pr_client_pubkey = pk, pr_request = request\<rparr>\<rparr>)
         else sessions_at rd t
     | None \<Rightarrow> sessions_at rd t)"
proof (cases "sessions_at rd t1 (nc_to_hex N pk)")
  case None
  with assms show ?thesis
    by (simp add: run_guarded guarded_request_def session_for_client_eq get_live)
next
  case (Some s)
  have id: "ns_id s = nc_to_hex N pk"
    using Some assms(1) store_ok_id by (auto simp: live_eq_Some)
  have "is_expired t2 s \<Longrightarrow> is_expired t s" using is_expired_mono [OF _ assms(3)] .
  moreover have "sessions_at rd t2 (nc_to_hex N pk) = (if is_expired t2 s then None else Some s)"
    using Some by (auto simp: live_def split: option.splits if_splits)
  ultimately show ?thesis
    using assms Some
    by (simp add: run_guarded guarded_request_def session_for_client_eq auth_challenge_eq id
        get_live pending.touch_live)
qed

lemma run_store_ok:
  assumes "store_ok (rd_sessions rd)"
  shows "store_ok (rd_sessions (fst (run N t1 t2 rd pk rid)))"
  using assms
  by (cases "sessions_at rd t1 (nc_to_hex N pk)")
    (simp_all add: run_guarded guarded_request_def session_for_client_eq auth_challenge_eq
      get_store_ok pending.touch_store_ok)

lemma run_secrets:
  "used_secrets (rd_sessions (fst (run N t1 t2 rd pk rid))) = used_secrets (rd_sessions rd)"
  by (cases "sessions_at rd t1 (nc_to_hex N pk)")
    (simp_all add: run_guarded guarded_request_def session_for_client_eq auth_challenge_eq
      pending.touch_secrets)

lemma run_frame:
  "fst (run N t1 t2 rd pk rid) = rd\<lparr>rd_sessions := rd_sessions (fst (run N t1 t2 rd pk rid))\<rparr>"
  by (cases "sessions_at rd t1 (nc_to_hex N pk)")
    (simp_all add: run_guarded guarded_request_def session_for_client_eq auth_challenge_eq)

end

interpretation sign: key_operation
  "\<lambda>N t1 t2 rd pk rid. handle_request N t1 t2 rd pk rid (SignEvent u)" "SignEvent u"
  "\<lambda>s. has_sign_event_permission s (ucast (ue_kind u))" "''unauthorized sign_event''"
  "\<lambda>N rd. sign_response N rd u" for u
  by unfold_locales simp

interpretation nip04_encrypt: key_operation
  "\<lambda>N t1 t2 rd pk rid. handle_request N t1 t2 rd pk rid (Nip04Encrypt receiver payload)" "Nip04Encrypt receiver payload"
  "\<lambda>s. has_permission s ''nip04_encrypt''" "''unauthorized nip04_encrypt''"
  "\<lambda>N rd. cipher_response ''nip04_encrypt'' RNip04Encrypt (nc_nip04_encrypt N (rd_keys rd) receiver payload)"
  for receiver payload
  by unfold_locales simp

interpretation nip04_decrypt: key_operation
  "\<lambda>N t1 t2 rd pk rid. handle_request N t1 t2 rd pk rid (Nip04Decrypt receiver payload)" "Nip04Decrypt receiver payload"
  "\<lambda>s. has_permission s ''nip04_decrypt''" "''unauthorized nip04_decrypt''"
  "\<lambda>N rd. cipher_response ''nip04_decrypt'' RNip04Decrypt (nc_nip04_decrypt N (rd_keys rd) receiver payload)"
  for receiver payload
  by unfold_locales simp

interpretation nip44_encrypt: key_operation
  "\<lambda>N t1 t2 rd pk rid. handle_request N t1 t2 rd pk rid (Nip44Encrypt receiver payload)" "Nip44Encrypt receiver payload"
  "\<lambda>s. has_permission s ''nip44_encrypt''" "''unauthorized nip44_encrypt''"
  "\<lambda>N rd. cipher_response ''nip44_encrypt'' RNip44Encrypt (nc_nip44_encrypt N (rd_keys rd) receiver payload)"
  for receiver payload
  by unfold_locales simp

interpretation nip44_decrypt: key_operation
  "\<lambda>N t1 t2 rd pk rid. handle_request N t1 t2 rd pk rid (Nip44Decrypt receiver payload)" "Nip44Decrypt receiver payload"
  "\<lambda>s. has_permission s ''nip44_decrypt''" "''unauthorized nip44_decrypt''"
  "\<lambda>N rd. cipher_response ''nip44_decrypt'' RNip44Decrypt (nc_nip44_decrypt N (rd_keys rd) receiver payload)"
  for receiver payload
  by unfold_locales simp

lemmas run_reply_all = sign.run_reply nip04_encrypt.run_reply nip04_decrypt.run_reply
  nip44_encrypt.run_reply nip44_decrypt.run_reply

lemmas run_store_ok_all = sign.run_store_ok nip04_encrypt.run_store_ok nip04_decrypt.run_store_ok
  nip44_encrypt.run_store_ok nip44_decrypt.run_store_ok

lemmas run_secrets_all = sign.run_secrets nip04_encrypt.run_secrets nip04_decrypt.run_secrets
  nip44_encrypt.run_secrets nip44_decrypt.run_secrets

lemmas run_live_all = sign.run_live nip04_encrypt.run_live nip04_decrypt.run_live
  nip44_encrypt.run_live nip44_decrypt.run_live

section \<open>Every request\<close>

definition request_permitted :: "nostr_connect_request \<Rightarrow> nip46_session \<Rightarrow> bool" where
  "request_permitted request s \<longleftrightarrow>
     (case request of
        SignEvent u \<Rightarrow> has_sign_event_permission s (ucast (ue_kind u))
      | Nip04Encrypt _ _ \<Rightarrow> has_permission s ''nip04_encrypt''
      | Nip04Decrypt _ _ \<Rightarrow> has_permission s ''nip04_decrypt''
      | Nip44Encrypt _ _ \<Rightarrow> has_permission s ''nip44_encrypt''
      | Nip44Decrypt _ _ \<Rightarrow> has_permission s ''nip44_decrypt''
      | _ \<Rightarrow> True)"

text \<open>The results the daemon computes with its secret key.\<close>

fun made_with_key :: "response_result \<Rightarrow> bool" where
  "made_with_key (RSignEvent e) = True"
| "made_with_key (RNip04Encrypt c) = True"
| "made_with_key (RNip04Decrypt p) = True"
| "made_with_key (RNip44Encrypt c) = True"
| "made_with_key (RNip44Decrypt p) = True"
| "made_with_key _ = False"

lemma claim_connect_secret_live [simp]:
  "sessions_at (fst (claim_connect_secret secret rd)) = sessions_at rd"
  by (auto simp: claim_connect_secret_def claim_secret_def Let_def split: option.split)

lemma claim_connect_secret_frame:
  "claim_connect_secret secret rd = (rd', r) \<Longrightarrow>
     rd' = rd\<lparr>rd_sessions := rd_sessions rd'\<rparr> \<and> (store_ok (rd_sessions rd) \<longrightarrow> store_ok (rd_sessions rd'))
     \<and> sessions_at rd' = sessions_at rd"
  by (auto simp: claim_connect_secret_def claim_secret_def Let_def split: option.splits if_splits)

lemma connect_reply:
  assumes "snd (handle_connect N t rd pk remote secret) = Inr (WithResult r)"
  shows "r = RAck"
  using assms
  by (auto simp: handle_connect_def claim_connect_secret_def Let_def
      split: if_splits option.splits sum.splits prod.splits)

lemma connect_live:
  assumes "k \<noteq> nc_to_hex N pk"
  shows "sessions_at (fst (handle_connect N t1 rd pk remote secret)) t k = sessions_at rd t k"
proof (cases "claim_connect_secret secret rd")
  case (Pair rd1 r)
  then have "sessions_at rd1 = sessions_at rd" by (simp add: claim_connect_secret_frame)
  with Pair assms show ?thesis
    by (simp add: handle_connect_def insert_live connect_session_def split: option.split sum.split)
qed

lemma connect_store_ok:
  assumes "store_ok (rd_sessions rd)"
  shows "store_ok (rd_sessions (fst (handle_connect N t1 rd pk remote secret)))"
proof (cases "claim_connect_secret secret rd")
  case (Pair rd1 r)
  then have "store_ok (rd_sessions rd1)" using assms by (simp add: claim_connect_secret_frame)
  with Pair assms show ?thesis
    by (simp add: handle_connect_def insert_store_ok split: option.split sum.split)
qed

lemma connect_frame:
  "fst (handle_connect N t1 rd pk remote secret) =
     rd\<lparr>rd_sessions := rd_sessions (fst (handle_connect N t1 rd pk remote secret))\<rparr>"
proof (cases "claim_connect_secret secret rd")
  case (Pair rd1 r)
  then have "rd1 = rd\<lparr>rd_sessions := rd_sessions rd1\<rparr>" by (simp add: claim_connect_secret_frame)
  with Pair show ?thesis
    by (cases rd1) (simp add: handle_connect_def split: option.split sum.split)
qed

lemma handle_request_store_ok:
  "store_ok (rd_sessions rd) \<Longrightarrow>
     store_ok (rd_sessions (fst (handle_request N t1 t2 rd pk rid request)))"
  by (cases request)
    (simp_all only: run_store_ok_all handle_request.simps(1,2,8) connect_store_ok fst_conv)

lemma handle_request_frame:
  "fst (handle_request N t1 t2 rd pk rid request) =
     rd\<lparr>rd_sessions := rd_sessions (fst (handle_request N t1 t2 rd pk rid request))\<rparr>"
proof (cases request)
  case (Connect r s)
  then show ?thesis using connect_frame by simp
next
  case (SignEvent u)
  then show ?thesis using sign.run_frame by blast
next
  case (Nip04Encrypt p m)
  then show ?thesis using nip04_encrypt.run_frame by blast
next
  case (Nip04Decrypt p m)
  then show ?thesis using nip04_decrypt.run_frame by blast
next
  case (Nip44Encrypt p m)
  then show ?thesis using nip44_encrypt.run_frame by blast
next
  case (Nip44Decrypt p m)
  then show ?thesis using nip44_decrypt.run_frame by blast
qed simp_all

lemma handle_request_others:
  assumes "store_ok (rd_sessions rd)" and "t1 \<le> t2" and "t2 \<le> t" and "k \<noteq> nc_to_hex N pk"
  shows "sessions_at (fst (handle_request N t1 t2 rd pk rid request)) t k = sessions_at rd t k"
proof (cases request)
  case (Connect r s)
  with assms(4) show ?thesis by (simp add: connect_live)
qed (simp_all only: run_live_all [OF assms(1-3)] handle_request.simps(2,8) fst_conv,
    simp_all add: assms(4) split: option.split)

section \<open>The loop\<close>

lemma answer_event_state:
  "fst (answer_event N t1 t2 rd e message) =
     (case nc_to_request N message of
        Inl _ \<Rightarrow> rd
      | Inr request \<Rightarrow> fst (handle_request N t1 t2 rd (ev_pubkey e) (msg_id message) request))"
  by (auto simp: answer_event_def split: sum.split prod.split)

lemma answer_event_store_ok:
  "store_ok (rd_sessions rd) \<Longrightarrow> store_ok (rd_sessions (fst (answer_event N t1 t2 rd e message)))"
  by (simp add: answer_event_state handle_request_store_ok split: sum.split)

lemma listener_iteration_store_ok:
  "store_ok (rd_sessions rd) \<Longrightarrow> store_ok (rd_sessions (fst (listener_iteration N t1 t2 rd r)))"
  by (induction N t1 t2 rd r rule: listener_iteration.induct)
    (auto simp: answer_event_store_ok split: sum.split)

lemma answer_event_frame:
  "fst (answer_event N t1 t2 rd e message) =
     rd\<lparr>rd_sessions := rd_sessions (fst (answer_event N t1 t2 rd e message))\<rparr>"
  by (simp add: answer_event_state handle_request_frame [symmetric] split: sum.split)

lemma listener_iteration_frame:
  "fst (listener_iteration N t1 t2 rd r) =
     rd\<lparr>rd_sessions := rd_sessions (fst (listener_iteration N t1 t2 rd r))\<rparr>"
  by (induction N t1 t2 rd r rule: listener_iteration.induct)
    (simp_all add: answer_event_frame [symmetric] split: sum.split)

lemma answer_event_flow:
  "snd (snd (answer_event N t1 t2 rd e message)) = flow \<Longrightarrow> flow \<noteq> Continue \<Longrightarrow>
     (\<exists>request p. nc_to_request N message = Inr request \<and> flow = Crash p \<and>
        snd (handle_request N t1 t2 rd (ev_pubkey e) (msg_id message) request) = Inl p) \<or>
     (\<exists>request response err. nc_to_request N message = Inr request \<and>
        snd (handle_request N t1 t2 rd (ev_pubkey e) (msg_id message) request) = Inr response \<and>
        sign_nip46_message N (rd_keys rd) (ev_pubkey e)
          (nc_message_response N (msg_id message) response) = Inl err)"
  using handle_request_frame [of N t1 t2 rd "ev_pubkey e" "msg_id message"]
  by (auto simp: answer_event_def split: sum.splits prod.splits)
     (metis fst_conv radrootsd.select_convs(2) radrootsd.surjective radrootsd.update_convs(4))

lemma handle_request_panic:
  assumes "snd (handle_request N t1 t2 rd pk rid request) = Inl p"
  shows "session_expires_at t1 (n46_session_ttl_secs (rd_nip46_config rd)) = Inl p"
proof (cases request)
  case (Connect remote secret)
  obtain rd1 r where c: "claim_connect_secret secret rd = (rd1, r)" by fastforce
  then have "rd_nip46_config rd1 = rd_nip46_config rd"
    by (metis claim_connect_secret_frame radrootsd.select_convs(5) radrootsd.surjective
        radrootsd.update_convs(4))
  with assms Connect c show ?thesis
    by (auto simp: handle_connect_def split: if_splits option.splits sum.splits)
qed (use assms in \<open>simp_all only: run_reply_all handle_request.simps(2,8) snd_conv sum.distinct\<close>)

text \<open>A call of \<open>Client::send\<close> apart, what can end the loop: the notification channel closes, a
  response cannot be built, or the session lifetime does not fit the clock.\<close>

definition builds_responses :: "nostr_crate \<Rightarrow> bool" where
  "builds_responses N \<longleftrightarrow> (\<forall>k p m. is_ok (sign_nip46_message N k p m))"

definition lifetime_fits :: "radrootsd \<Rightarrow> instant \<Rightarrow> bool" where
  "lifetime_fits rd t \<longleftrightarrow>
     n46_session_ttl_secs (rd_nip46_config rd) = 0 \<or>
     int (t div 10 ^ 9) + uint (n46_session_ttl_secs (rd_nip46_config rd)) \<le> i64_max"

lemma lifetime_fits_frame: "lifetime_fits (rd\<lparr>rd_sessions := st\<rparr>) t = lifetime_fits rd t"
  by (simp add: lifetime_fits_def)

lemma answer_event_continues:
  assumes "builds_responses N" and "lifetime_fits rd t1"
  shows "snd (snd (answer_event N t1 t2 rd e message)) = Continue"
proof (rule ccontr)
  assume "\<not> ?thesis"
  then show False
    using answer_event_flow [of N t1 t2 rd e message] assms
    by (fastforce simp: builds_responses_def is_ok_def lifetime_fits_def session_expires_at_def
        split: sum.splits if_splits dest!: handle_request_panic)
qed

lemma listener_iteration_continues:
  "builds_responses N \<Longrightarrow> lifetime_fits rd t1 \<Longrightarrow> r \<noteq> RecvClosed \<Longrightarrow>
     snd (snd (listener_iteration N t1 t2 rd r)) = Continue"
  by (induction N t1 t2 rd r rule: listener_iteration.induct)
    (simp_all add: answer_event_continues split: sum.split)

section \<open>Properties\<close>

definition sample_daemon :: radrootsd where
  "sample_daemon =
     \<lparr>rd_client = ''client'', rd_keys = ''daemon'', rd_pubkey = ''daemon'',
      rd_sessions = insert_session (sample_session\<lparr>ns_id := ''app'', ns_perms := [''sign_event''],
        ns_auth_required := True, ns_authorized := False, ns_auth_url := Some ''https://a''\<rparr>) new_store,
      rd_nip46_config = \<lparr>n46_session_ttl_secs = 0, n46_perms = [''sign_event''],
        n46_public_jsonrpc_enabled = False, n46_nostrconnect_url = None\<rparr>\<rparr>"

definition sample_note :: unsigned_event where
  "sample_note = \<lparr>ue_id = None, ue_pubkey = ''daemon'', ue_created_at = 0, ue_kind = 1,
     ue_tags = [], ue_content = ''hi''\<rparr>"

lemmas sample_simps = sample_daemon_def sample_note_def sample_session_def sample_crate_def
  new_store_def insert_session_def live_def is_expired_def

text \<open>C2. The daemon's key is used only for a client that may use it: when a request is answered
  with a signature, a ciphertext or a plaintext, the client has a session that has not expired,
  the session's permissions cover the request, it is not waiting for authorisation, and a signed
  event is one whose author is the daemon's own key, signed with that key.\<close>

theorem key_used_only_when_allowed:
  assumes "snd (handle_request N t1 t2 rd pk rid request) = Inr (WithResult r)" and "made_with_key r"
  shows "\<exists>s. sessions_at rd t1 (nc_to_hex N pk) = Some s \<and> request_permitted request s \<and> \<not> challenged s \<and>
    (\<forall>e. r = RSignEvent e \<longrightarrow> (\<exists>u. request = SignEvent u \<and> ue_pubkey u = rd_pubkey rd \<and>
       nc_sign_with_keys N u (rd_keys rd) = Inr e))"
proof (cases request)
  case (Connect remote secret)
  with assms show ?thesis by (auto dest!: connect_reply)
next
  case (SignEvent u)
  with assms show ?thesis
    by (auto simp: sign.run_reply request_permitted_def challenge_response_def sign_response_def
        simp del: handle_request.simps split: option.splits if_splits sum.splits)
qed (use assms in \<open>auto simp: run_reply_all request_permitted_def challenge_response_def
    cipher_response_def simp del: handle_request.simps(3-7) split: option.splits if_splits sum.splits\<close>)

theorem key_used_only_when_allowed_witness:
  "\<exists>e. snd (handle_request sample_crate 0 0 (fst (handle_request sample_crate 0 0 sample_daemon ''app'' ''r1''
       (Connect ''daemon'' None))) ''app'' ''r2'' (SignEvent sample_note)) = Inr (WithResult (RSignEvent e)) \<and>
     nc_sign_with_keys sample_crate sample_note ''daemon'' = Inr e"
proof -
  let ?rd = "fst (handle_request sample_crate 0 0 sample_daemon ''app'' ''r1'' (Connect ''daemon'' None))"
  obtain e where e: "snd (handle_request sample_crate 0 0 ?rd ''app'' ''r2'' (SignEvent sample_note)) =
      Inr (WithResult (RSignEvent e))"
    by (simp add: sample_simps handle_connect_def claim_connect_secret_def session_expires_at_def
        connect_session_def guarded_request_def session_for_client_def get_session_entry_def
        has_sign_event_permission_def sign_event_allowed_def auth_challenge_def sign_response_def)
  have "rd_keys ?rd = ''daemon''"
    by (simp add: sample_simps handle_connect_def claim_connect_secret_def session_expires_at_def)
  with key_used_only_when_allowed [OF e] e show ?thesis by auto
qed

text \<open>C30. Requests of one client cannot touch another client's session: whatever request a client
  sends, every session stored under another identifier is exactly as before at every later time,
  the store stays well formed, and keys and configuration do not change.\<close>

theorem requests_isolated:
  assumes "store_ok (rd_sessions rd)" and "t1 \<le> t2" and "t2 \<le> t" and "k \<noteq> nc_to_hex N pk"
  shows "sessions_at (fst (handle_request N t1 t2 rd pk rid request)) t k = sessions_at rd t k \<and>
    store_ok (rd_sessions (fst (handle_request N t1 t2 rd pk rid request))) \<and>
    (\<exists>st. fst (handle_request N t1 t2 rd pk rid request) = rd\<lparr>rd_sessions := st\<rparr>)"
  using handle_request_others [OF assms] handle_request_store_ok [OF assms(1)] handle_request_frame
  by blast

theorem requests_isolated_witness:
  "sessions_at (fst (handle_request sample_crate 0 1 sample_daemon ''other'' ''r1''
     (Connect ''daemon'' None))) 5 ''app'' = sessions_at sample_daemon 5 ''app''"
proof -
  have "store_ok (rd_sessions sample_daemon)" by (simp add: sample_simps store_ok_def)
  from requests_isolated [OF this, of 0 1 5 "''app''" sample_crate "''other''" "''r1''" "Connect ''daemon'' None"]
  show ?thesis by (simp add: sample_crate_def del: handle_request.simps)
qed





end
