(* ===== verification/Nip46_Rpc.thy ===== *)
theory Nip46_Rpc
  imports Nip46_Listener Jsonrpc
begin

text \<open>
  The JSON-RPC side of NIP-46: \<open>src/transport/jsonrpc/nip46/\<close> (the helpers that find a session, check
  its permissions, parse a connection URL and talk to a remote signer) and
  \<open>src/transport/jsonrpc/methods/nip46/\<close> (the methods).

  What the network does during a call is an argument, an \<open>exchange\<close>: the keys, identifiers and
  handles drawn, the answers of the relay client, and the outcomes of the \<open>select!\<close> of the waiting
  loop, in order.  A loop that has used up the outcomes is still waiting: \<open>None\<close>.
\<close>

section \<open>Sessions and permissions\<close>

definition rpc_get_session ::
  "instant \<Rightarrow> radrootsd \<Rightarrow> string \<Rightarrow> radrootsd \<times> (rpc_error + nip46_session)" where
  "rpc_get_session now rd session_id =
     (let (st, found) = get_session_entry now session_id (rd_sessions rd)
      in (rd\<lparr>rd_sessions := st\<rparr>, ok_or (InvalidParams ''unknown session'') found))"

definition auth_required_error :: "nip46_session \<Rightarrow> rpc_error" where
  "auth_required_error s =
     RpcOther (''auth_url:'' @ (case ns_auth_url s of Some u \<Rightarrow> u | None \<Rightarrow> ''auth required''))"

definition require_permission :: "nip46_session \<Rightarrow> string \<Rightarrow> rpc_error + unit" where
  "require_permission s perm =
     (if ns_auth_required s \<and> \<not> ns_authorized s then Inl (auth_required_error s)
      else if perm \<in> set (ns_perms s) then Inr ()
      else Inl (RpcOther (''unauthorized '' @ perm)))"

definition require_sign_event_permission :: "nip46_session \<Rightarrow> u32 \<Rightarrow> rpc_error + unit" where
  "require_sign_event_permission s kind =
     (if ns_auth_required s \<and> \<not> ns_authorized s then Inl (auth_required_error s)
      else if sign_event_allowed (ns_perms s) kind then Inr ()
      else Inl (RpcOther (''unauthorized sign_event:'' @ show_nat (unat kind))))"

section \<open>Connection URLs\<close>

datatype connect_mode = Bunker | Nostrconnect

record connect_info =
  ci_mode :: connect_mode
  ci_relays :: "string list"
  ci_remote_signer_pubkey :: "string option"
  ci_client_pubkey :: "string option"
  ci_secret :: "string option"
  ci_perms :: "string list"
  ci_name :: "string option"
  ci_url :: "string option"
  ci_image :: "string option"

datatype relay_param = RelayOne string | RelayMany "string list"

record connect_query =
  cq_relay :: "relay_param option"
  cq_secret :: "string option"
  cq_perms :: "string option"
  cq_name :: "string option"
  cq_url :: "string option"
  cq_image :: "string option"

text \<open>The \<open>url\<close> and \<open>serde_qs\<close> crates are parameters.\<close>

record parsed_url =
  pu_scheme :: string
  pu_host :: "string option"
  pu_query :: "string option"

record url_crates =
  uc_parse :: "string \<Rightarrow> string + parsed_url"
  uc_query :: "string \<Rightarrow> string + connect_query"

definition parse_perms :: "string option \<Rightarrow> string list" where
  "parse_perms perms =
     filter (\<lambda>entry. entry \<noteq> []) (map trim (split_on CHR '',''
       (case perms of Some p \<Rightarrow> p | None \<Rightarrow> [])))"

definition relay_list :: "relay_param option \<Rightarrow> string list" where
  "relay_list relay =
     filter (\<lambda>v. v \<noteq> []) (map trim
       (case relay of Some (RelayOne v) \<Rightarrow> [v] | Some (RelayMany vs) \<Rightarrow> vs | None \<Rightarrow> []))"

definition url_query :: "url_crates \<Rightarrow> parsed_url \<Rightarrow> rpc_error + connect_query" where
  "url_query U url = map_err InvalidParams
     (uc_query U (case pu_query url of Some q \<Rightarrow> q | None \<Rightarrow> []))"

definition parse_bunker_url :: "url_crates \<Rightarrow> parsed_url \<Rightarrow> rpc_error + connect_info" where
  "parse_bunker_url U url =
     and_then (url_query U url) (\<lambda>query. Inr
       \<lparr>ci_mode = Bunker, ci_relays = relay_list (cq_relay query),
        ci_remote_signer_pubkey = pu_host url, ci_client_pubkey = None,
        ci_secret = cq_secret query, ci_perms = parse_perms (cq_perms query),
        ci_name = cq_name query, ci_url = cq_url query, ci_image = cq_image query\<rparr>)"

definition parse_nostrconnect_url ::
  "nostr_crate \<Rightarrow> url_crates \<Rightarrow> parsed_url \<Rightarrow> rpc_error + connect_info" where
  "parse_nostrconnect_url N U url =
     and_then (ok_or (InvalidParams ''missing client pubkey'') (pu_host url)) (\<lambda>client_pubkey.
     and_then (map_err (\<lambda>e. InvalidParams (''invalid client pubkey: '' @ e))
                (nc_parse_public_key N client_pubkey)) (\<lambda>_.
     and_then (url_query U url) (\<lambda>query. Inr
       \<lparr>ci_mode = Nostrconnect, ci_relays = relay_list (cq_relay query),
        ci_remote_signer_pubkey = None, ci_client_pubkey = Some client_pubkey,
        ci_secret = cq_secret query, ci_perms = parse_perms (cq_perms query),
        ci_name = cq_name query, ci_url = cq_url query, ci_image = cq_image query\<rparr>)))"

definition parse_connect_url :: "nostr_crate \<Rightarrow> url_crates \<Rightarrow> string \<Rightarrow> rpc_error + connect_info" where
  "parse_connect_url N U raw =
     and_then (map_err InvalidParams (uc_parse U raw)) (\<lambda>url.
       if pu_scheme url = ''bunker'' then parse_bunker_url U url
       else if pu_scheme url = ''nostrconnect'' then parse_nostrconnect_url N U url
       else Inl (InvalidParams ''unsupported scheme''))"

section \<open>Talking to a remote signer\<close>

datatype select_outcome = TimedOut | Polled received

record exchange =
  ex_keys :: keys
  ex_client :: client
  ex_add_relay :: "string \<Rightarrow> string + unit"
  ex_request_id :: string
  ex_filter :: "string + unit"
  ex_subscribe :: "string + string"
  ex_send :: "event \<Rightarrow> string + unit"
  ex_outcomes :: "select_outcome list"
  ex_session_id :: string
  ex_now :: instant

text \<open>What became of the subscription when a call returns.\<close>

datatype subscription = NotSubscribed | Subscribed | Unsubscribed

type_synonym 'a reply = "subscription \<times> (rpc_error + 'a)"

text \<open>\<open>loop { select! { .. } }\<close>: the body ends the loop (\<open>Some\<close>) or continues.\<close>

fun select_loop :: "(select_outcome \<Rightarrow> 'r option) \<Rightarrow> select_outcome list \<Rightarrow> 'r option" where
  "select_loop body [] = None"
| "select_loop body (x # xs) = (case body x of Some r \<Rightarrow> Some r | None \<Rightarrow> select_loop body xs)"

fun wait_for_response_body ::
  "nostr_crate \<Rightarrow> nip46_session \<Rightarrow> string \<Rightarrow> string \<Rightarrow> select_outcome \<Rightarrow> nostr_connect_message reply option" where
  "wait_for_response_body N s request_id label TimedOut =
     Some (Unsubscribed, Inl (RpcOther (''nip46 '' @ label @ '' response not found'')))"
| "wait_for_response_body N s request_id label (Polled RecvLagged) = None"
| "wait_for_response_body N s request_id label (Polled RecvClosed) =
     Some (Unsubscribed, Inl (RpcOther (''nip46 '' @ label @ '' notification closed'')))"
| "wait_for_response_body N s request_id label (Polled (Received NotifyOther)) = None"
| "wait_for_response_body N s request_id label (Polled (Received (NotifyEvent e))) =
     (if ev_kind e \<noteq> kind_nostr_connect \<or> ev_pubkey e \<noteq> ns_remote_signer_pubkey s then None
      else case nc_nip44_decrypt N (ns_client_keys s) (ns_remote_signer_pubkey s) (ev_content e) of
             Inl err \<Rightarrow> Some (Subscribed, Inl (RpcOther (''nip46 '' @ label @ '' failed: '' @ err)))
           | Inr decrypted \<Rightarrow>
               (case nc_message_from_json N decrypted of
                  Inl err \<Rightarrow> Some (Subscribed, Inl (RpcOther (''nip46 '' @ label @ '' failed: '' @ err)))
                | Inr message \<Rightarrow>
                    if is_response message \<and> msg_id message = request_id
                    then Some (Unsubscribed, Inr message) else None))"

definition wait_for_response ::
  "nostr_crate \<Rightarrow> nip46_session \<Rightarrow> string \<Rightarrow> string \<Rightarrow> select_outcome list \<Rightarrow> nostr_connect_message reply option" where
  "wait_for_response N s request_id label = select_loop (wait_for_response_body N s request_id label)"

definition client_request ::
  "nostr_crate \<Rightarrow> exchange \<Rightarrow> nip46_session \<Rightarrow> nostr_connect_request \<Rightarrow> string
     \<Rightarrow> nostr_connect_message reply option" where
  "client_request N x s request label =
     (let failed = (\<lambda>e. RpcOther (''nip46 '' @ label @ '' failed: '' @ e));
          message = nc_message_request N (ex_request_id x) request
      in case ex_filter x of Inl e \<Rightarrow> Some (NotSubscribed, Inl (failed e)) | Inr _ \<Rightarrow>
        (case ex_subscribe x of Inl e \<Rightarrow> Some (NotSubscribed, Inl (failed e)) | Inr _ \<Rightarrow>
        (case sign_nip46_message N (ns_client_keys s) (ns_remote_signer_pubkey s) message of
           Inl e \<Rightarrow> Some (Subscribed, Inl (failed e)) | Inr event \<Rightarrow>
        (case ex_send x event of Inl e \<Rightarrow> Some (Unsubscribed, Inl (failed e)) | Inr _ \<Rightarrow>
           wait_for_response N s (msg_id message) label (ex_outcomes x)))))"

definition validate_signed_event_response ::
  "nostr_crate \<Rightarrow> public_key \<Rightarrow> string \<Rightarrow> event \<Rightarrow> string \<Rightarrow> rpc_error + event" where
  "validate_signed_event_response N expected_public_key expected_event_id e label =
     (if ev_pubkey e \<noteq> expected_public_key then
        Inl (RpcOther (''nip46 '' @ label @ '' response author mismatch''))
      else if ev_id e \<noteq> expected_event_id then
        Inl (RpcOther (''nip46 '' @ label @ '' response event ID mismatch''))
      else if \<not> nc_verify N e then
        Inl (RpcOther (''nip46 '' @ label @ '' response event is invalid''))
      else Inr e)"

text \<open>What a method takes out of a response of the signer: \<open>to_response\<close>, the signer's error, the
  expected kind of result.\<close>

definition response_value ::
  "nostr_crate \<Rightarrow> nostr_connect_method \<Rightarrow> string \<Rightarrow> (response_result \<Rightarrow> 'v option)
     \<Rightarrow> nostr_connect_message \<Rightarrow> rpc_error + 'v" where
  "response_value N meth label pick message =
     (case nc_to_response N message meth of
        Inl e \<Rightarrow> Inl (RpcOther (''nip46 '' @ label @ '' failed: '' @ e))
      | Inr response \<Rightarrow>
          (case resp_error response of
             Some e \<Rightarrow> Inl (RpcOther (''nip46 '' @ label @ '' error: '' @ e))
           | None \<Rightarrow>
               (case resp_result response of
                  None \<Rightarrow> Inl (RpcOther (''nip46 '' @ label @ '' missing response''))
                | Some r \<Rightarrow> ok_or (RpcOther (''nip46 '' @ label @ '' unexpected response'')) (pick r))))"

definition client_sign_event ::
  "nostr_crate \<Rightarrow> exchange \<Rightarrow> nip46_session \<Rightarrow> unsigned_event \<Rightarrow> string \<Rightarrow> event reply option" where
  "client_sign_event N x s u label =
     (if \<not> nc_verify_id N u
      then Some (NotSubscribed, Inl (InvalidParams (''nip46 '' @ label @ '' unsigned event ID mismatch'')))
      else map_option (apsnd (\<lambda>r. and_then r (\<lambda>message.
             and_then (response_value N MSignEvent label
                 (\<lambda>r. case r of RSignEvent e \<Rightarrow> Some e | _ \<Rightarrow> None) message) (\<lambda>e.
               validate_signed_event_response N (ue_pubkey u) (nc_unsigned_id N u) e label))))
             (client_request N x s (SignEvent u) label))"

section \<open>\<open>nip46.connect\<close>\<close>

record connect_response =
  cr_session_id :: string
  cr_mode :: connect_mode
  cr_remote_signer_pubkey :: string
  cr_client_pubkey :: string
  cr_relays :: "string list"

fun add_relays :: "(string \<Rightarrow> string + unit) \<Rightarrow> string list \<Rightarrow> rpc_error + unit" where
  "add_relays add_relay [] = Inr ()"
| "add_relays add_relay (relay # relays) =
     (case add_relay relay of
        Inl e \<Rightarrow> Inl (RpcOther (''nip46 relay add failed: '' @ e))
      | Inr _ \<Rightarrow> add_relays add_relay relays)"

definition rpc_claim_secret :: "radrootsd \<Rightarrow> string option \<Rightarrow> radrootsd \<times> (rpc_error + unit)" where
  "rpc_claim_secret rd secret =
     (case secret of
        None \<Rightarrow> (rd, Inr ())
      | Some x \<Rightarrow>
          if trim x = [] then (rd, Inl (InvalidParams ''secret is empty''))
          else let (st, won) = claim_secret (trim x) (rd_sessions rd)
               in (rd\<lparr>rd_sessions := st\<rparr>,
                   if won then Inr () else Inl (InvalidParams ''secret already used'')))"

definition send_connect_request ::
  "nostr_crate \<Rightarrow> exchange \<Rightarrow> keys \<Rightarrow> public_key \<Rightarrow> nostr_connect_message \<Rightarrow> rpc_error + unit" where
  "send_connect_request N x client_keys remote_signer_pubkey message =
     (let failed = (\<lambda>e. RpcOther (''nip46 connect request failed: '' @ e))
      in and_then (map_err failed (sign_nip46_message N client_keys remote_signer_pubkey message))
           (\<lambda>event. map_err failed (ex_send x event)))"

fun wait_for_connect_response_body ::
  "nostr_crate \<Rightarrow> keys \<Rightarrow> public_key \<Rightarrow> string \<Rightarrow> select_outcome \<Rightarrow> nostr_connect_message reply option" where
  "wait_for_connect_response_body N client_keys remote request_id TimedOut =
     Some (Unsubscribed, Inl (RpcOther ''nip46 connect response not found''))"
| "wait_for_connect_response_body N client_keys remote request_id (Polled RecvLagged) = None"
| "wait_for_connect_response_body N client_keys remote request_id (Polled RecvClosed) =
     Some (Unsubscribed, Inl (RpcOther ''nip46 connect notification closed''))"
| "wait_for_connect_response_body N client_keys remote request_id (Polled (Received NotifyOther)) = None"
| "wait_for_connect_response_body N client_keys remote request_id (Polled (Received (NotifyEvent e))) =
     (if ev_kind e \<noteq> kind_nostr_connect \<or> ev_pubkey e \<noteq> remote then None
      else case nc_nip44_decrypt N client_keys remote (ev_content e) of
             Inl err \<Rightarrow> Some (Subscribed, Inl (RpcOther (''nip46 connect decrypt failed: '' @ err)))
           | Inr decrypted \<Rightarrow>
               (case nc_message_from_json N decrypted of
                  Inl err \<Rightarrow>
                    Some (Subscribed, Inl (RpcOther (''nip46 connect response parse failed: '' @ err)))
                | Inr message \<Rightarrow>
                    if is_response message \<and> msg_id message = request_id
                    then Some (Unsubscribed, Inr message) else None))"

definition wait_for_connect_response ::
  "nostr_crate \<Rightarrow> keys \<Rightarrow> public_key \<Rightarrow> string \<Rightarrow> select_outcome list \<Rightarrow> nostr_connect_message reply option" where
  "wait_for_connect_response N client_keys remote request_id =
     select_loop (wait_for_connect_response_body N client_keys remote request_id)"

fun validate_connect_response :: "nostr_connect_message \<Rightarrow> string option \<Rightarrow> rpc_error + unit" where
  "validate_connect_response (MsgResponse i res (Some e)) secret =
     Inl (RpcOther (''nip46 connect error: '' @ e))"
| "validate_connect_response (MsgResponse i None None) secret =
     Inl (RpcOther ''nip46 connect missing result'')"
| "validate_connect_response (MsgResponse i (Some res) None) secret =
     (if res = ''ack'' then Inr ()
      else if secret = Some res then Inr ()
      else Inl (RpcOther (''nip46 connect unexpected result: '' @ res)))"
| "validate_connect_response (MsgRequest i m ps) secret =
     Inl (RpcOther ''nip46 connect response invalid'')"

fun validate_nostrconnect_response :: "nostr_connect_message \<Rightarrow> string \<Rightarrow> rpc_error + unit" where
  "validate_nostrconnect_response (MsgResponse i res (Some e)) secret =
     Inl (RpcOther (''nip46 connect error: '' @ e))"
| "validate_nostrconnect_response (MsgResponse i None None) secret =
     Inl (RpcOther ''nip46 connect missing result'')"
| "validate_nostrconnect_response (MsgResponse i (Some v) None) secret =
     (if v = secret then Inr ()
      else Inl (RpcOther (''nip46 connect unexpected result: '' @ v)))"
| "validate_nostrconnect_response (MsgRequest i m ps) secret =
     Inl (RpcOther ''nip46 connect response invalid'')"

fun wait_for_nostrconnect_body ::
  "nostr_crate \<Rightarrow> keys \<Rightarrow> string \<Rightarrow> select_outcome \<Rightarrow> (public_key \<times> nostr_connect_message) reply option" where
  "wait_for_nostrconnect_body N client_keys secret TimedOut =
     Some (Unsubscribed, Inl (RpcOther ''nip46 connect response not found''))"
| "wait_for_nostrconnect_body N client_keys secret (Polled RecvLagged) = None"
| "wait_for_nostrconnect_body N client_keys secret (Polled RecvClosed) =
     Some (Subscribed, Inl (RpcOther ''nip46 connect notification closed''))"
| "wait_for_nostrconnect_body N client_keys secret (Polled (Received NotifyOther)) = None"
| "wait_for_nostrconnect_body N client_keys secret (Polled (Received (NotifyEvent e))) =
     (if ev_kind e \<noteq> kind_nostr_connect then None
      else case nc_nip44_decrypt N client_keys (ev_pubkey e) (ev_content e) of
             Inl err \<Rightarrow> Some (Subscribed, Inl (RpcOther (''nip46 connect decrypt failed: '' @ err)))
           | Inr decrypted \<Rightarrow>
               (case nc_message_from_json N decrypted of
                  Inl err \<Rightarrow>
                    Some (Subscribed, Inl (RpcOther (''nip46 connect response parse failed: '' @ err)))
                | Inr message \<Rightarrow>
                    if \<not> is_response message \<or> msg_id message = [] then None
                    else (case validate_nostrconnect_response message secret of
                            Inl err \<Rightarrow> Some (Subscribed, Inl err)
                          | Inr _ \<Rightarrow> Some (Unsubscribed, Inr (ev_pubkey e, message)))))"

definition wait_for_nostrconnect_response ::
  "nostr_crate \<Rightarrow> exchange \<Rightarrow> keys \<Rightarrow> string \<Rightarrow> (public_key \<times> nostr_connect_message) reply option" where
  "wait_for_nostrconnect_response N x client_keys secret =
     (case ex_filter x of
        Inl e \<Rightarrow> Some (NotSubscribed, Inl (RpcOther (''nip46 connect filter failed: '' @ e)))
      | Inr _ \<Rightarrow>
          (case ex_subscribe x of
             Inl e \<Rightarrow> Some (NotSubscribed, Inl (RpcOther (''nip46 connect failed: '' @ e)))
           | Inr _ \<Rightarrow> select_loop (wait_for_nostrconnect_body N client_keys secret) (ex_outcomes x)))"

text \<open>The end of both handshakes: claim the secret, make the session, store it.  \<open>remote_text\<close> is
  the signer's key as the response shows it.\<close>

definition outbound_session ::
  "radrootsd \<Rightarrow> exchange \<Rightarrow> connect_info \<Rightarrow> session_authority option \<Rightarrow> client \<Rightarrow> keys \<Rightarrow> public_key
     \<Rightarrow> public_key \<Rightarrow> instant option \<Rightarrow> nip46_session" where
  "outbound_session rd x info authority client client_keys client_pubkey remote expires_at =
     \<lparr>ns_id = ex_session_id x, ns_client = client, ns_client_keys = client_keys,
      ns_client_pubkey = client_pubkey, ns_remote_signer_pubkey = remote, ns_user_pubkey = None,
      ns_relays = ci_relays info,
      ns_perms = filter_perms (ci_perms info) (n46_perms (rd_nip46_config rd)),
      ns_name = ci_name info, ns_url = ci_url info, ns_image = ci_image info,
      ns_expires_at = expires_at, ns_auth_required = False, ns_authorized = True,
      ns_auth_url = None, ns_pending_request = None, ns_signer_authority = authority\<rparr>"

type_synonym 'a outcome = "radrootsd \<times> subscription \<times> (panic + (rpc_error + 'a))"

definition finish_connect ::
  "nostr_crate \<Rightarrow> radrootsd \<Rightarrow> exchange \<Rightarrow> connect_info \<Rightarrow> session_authority option \<Rightarrow> keys \<Rightarrow> public_key
     \<Rightarrow> public_key \<Rightarrow> string \<Rightarrow> subscription \<Rightarrow> connect_response outcome" where
  "finish_connect N rd x info authority client_keys client_pubkey remote remote_text sub =
     (case rpc_claim_secret rd (ci_secret info) of
        (rd1, Inl e) \<Rightarrow> (rd1, sub, Inr (Inl e))
      | (rd1, Inr _) \<Rightarrow>
          (case session_expires_at (ex_now x) (n46_session_ttl_secs (rd_nip46_config rd1)) of
             Inl p \<Rightarrow> (rd1, sub, Inl p)
           | Inr expires_at \<Rightarrow>
               (rd1\<lparr>rd_sessions := insert_session
                      (outbound_session rd1 x info authority (ex_client x) client_keys client_pubkey
                        remote expires_at) (rd_sessions rd1)\<rparr>,
                sub,
                Inr (Inr \<lparr>cr_session_id = ex_session_id x, cr_mode = ci_mode info,
                          cr_remote_signer_pubkey = remote_text,
                          cr_client_pubkey = nc_to_hex N client_pubkey,
                          cr_relays = ci_relays info\<rparr>))))"

definition fail_with :: "radrootsd \<Rightarrow> subscription \<Rightarrow> rpc_error \<Rightarrow> 'a outcome option" where
  "fail_with rd sub e = Some (rd, sub, Inr (Inl e))"

definition connect_bunker ::
  "nostr_crate \<Rightarrow> radrootsd \<Rightarrow> exchange \<Rightarrow> connect_info \<Rightarrow> session_authority option
     \<Rightarrow> connect_response outcome option" where
  "connect_bunker N rd x info authority =
     (if ci_relays info = [] then fail_with rd NotSubscribed (InvalidParams ''missing relay'')
      else case ci_remote_signer_pubkey info of
        None \<Rightarrow> fail_with rd NotSubscribed (InvalidParams ''missing remote signer pubkey'')
      | Some raw \<Rightarrow>
     (case nc_parse_public_key N raw of
        Inl e \<Rightarrow> fail_with rd NotSubscribed (InvalidParams (''invalid remote signer: '' @ e))
      | Inr remote \<Rightarrow>
     (case add_relays (ex_add_relay x) (ci_relays info) of
        Inl e \<Rightarrow> fail_with rd NotSubscribed e
      | Inr _ \<Rightarrow>
     (case ex_filter x of
        Inl e \<Rightarrow> fail_with rd NotSubscribed (RpcOther (''nip46 connect filter failed: '' @ e))
      | Inr _ \<Rightarrow>
     (case ex_subscribe x of
        Inl e \<Rightarrow> fail_with rd NotSubscribed (RpcOther (''nip46 connect failed: '' @ e))
      | Inr _ \<Rightarrow>
          let client_keys = ex_keys x;
              message = nc_message_request N (ex_request_id x) (Connect remote (ci_secret info))
          in case send_connect_request N x client_keys remote message of
               Inl e \<Rightarrow> fail_with rd Unsubscribed e
             | Inr _ \<Rightarrow>
                 (case wait_for_connect_response N client_keys remote (msg_id message) (ex_outcomes x) of
                    None \<Rightarrow> None
                  | Some (sub, Inl e) \<Rightarrow> fail_with rd sub e
                  | Some (sub, Inr response) \<Rightarrow>
                      (case validate_connect_response response (ci_secret info) of
                         Inl e \<Rightarrow> fail_with rd sub e
                       | Inr _ \<Rightarrow> Some (finish_connect N rd x info authority client_keys
                           (nc_public_key N client_keys) remote raw sub))))))))"

definition connect_nostrconnect ::
  "nostr_crate \<Rightarrow> radrootsd \<Rightarrow> exchange \<Rightarrow> connect_info \<Rightarrow> string option \<Rightarrow> session_authority option
     \<Rightarrow> connect_response outcome option" where
  "connect_nostrconnect N rd x info client_secret_key authority =
     (if ci_relays info = [] then fail_with rd NotSubscribed (InvalidParams ''missing relay'')
      else case ci_secret info of
        None \<Rightarrow> fail_with rd NotSubscribed (InvalidParams ''missing secret'')
      | Some secret \<Rightarrow>
     (case (case client_secret_key of
              Some v \<Rightarrow> (if trim v = [] then None else Some (trim v)) | None \<Rightarrow> None) of
        None \<Rightarrow> fail_with rd NotSubscribed (InvalidParams ''missing client_secret_key'')
      | Some key \<Rightarrow>
     (case nc_parse_secret_key N key of
        Inl e \<Rightarrow> fail_with rd NotSubscribed (InvalidParams (''invalid client_secret_key: '' @ e))
      | Inr parsed_key \<Rightarrow>
          let client_keys = nc_keys_new N parsed_key; client_pubkey = nc_public_key N client_keys
          in case ci_client_pubkey info of
               None \<Rightarrow> fail_with rd NotSubscribed (InvalidParams ''missing client pubkey'')
             | Some raw \<Rightarrow>
     (case nc_parse_public_key N raw of
        Inl e \<Rightarrow> fail_with rd NotSubscribed (InvalidParams (''invalid client pubkey: '' @ e))
      | Inr expected \<Rightarrow>
          if expected \<noteq> client_pubkey
          then fail_with rd NotSubscribed (InvalidParams ''client_secret_key does not match client pubkey'')
          else
     (case add_relays (ex_add_relay x) (ci_relays info) of
        Inl e \<Rightarrow> fail_with rd NotSubscribed e
      | Inr _ \<Rightarrow>
     (case wait_for_nostrconnect_response N x client_keys secret of
        None \<Rightarrow> None
      | Some (sub, Inl e) \<Rightarrow> fail_with rd sub e
      | Some (sub, Inr (remote, response)) \<Rightarrow>
          (case validate_nostrconnect_response response secret of
             Inl e \<Rightarrow> fail_with rd sub e
           | Inr _ \<Rightarrow> Some (finish_connect N rd x info authority client_keys client_pubkey remote
               (nc_to_hex N remote) sub))))))))"

definition connect_nip46 ::
  "nostr_crate \<Rightarrow> url_crates \<Rightarrow> radrootsd \<Rightarrow> exchange \<Rightarrow> string \<Rightarrow> string option \<Rightarrow> session_authority option
     \<Rightarrow> connect_response outcome option" where
  "connect_nip46 N U rd x url client_secret_key signer_authority =
     (case normalize_authority signer_authority of
        Inl e \<Rightarrow> fail_with rd NotSubscribed (InvalidParams e)
      | Inr authority \<Rightarrow>
          (case parse_connect_url N U url of
             Inl e \<Rightarrow> fail_with rd NotSubscribed e
           | Inr info \<Rightarrow>
               (case ci_mode info of
                  Bunker \<Rightarrow> connect_bunker N rd x info authority
                | Nostrconnect \<Rightarrow> connect_nostrconnect N rd x info client_secret_key authority)))"

section \<open>The methods of a session with a remote signer\<close>

type_synonym 'a method_result = "(radrootsd \<times> subscription \<times> (rpc_error + 'a)) option"

definition method_error :: "radrootsd \<Rightarrow> rpc_error \<Rightarrow> 'a method_result" where
  "method_error rd e = Some (rd, NotSubscribed, Inl e)"

text \<open>The start every method shares: parse the parameters, find the session.\<close>

definition with_session ::
  "instant \<Rightarrow> radrootsd \<Rightarrow> string + 'p \<Rightarrow> ('p \<Rightarrow> string)
     \<Rightarrow> (radrootsd \<Rightarrow> 'p \<Rightarrow> nip46_session \<Rightarrow> 'a method_result) \<Rightarrow> 'a method_result" where
  "with_session now rd params session_id k =
     (case parse_params params of
        Inl e \<Rightarrow> method_error rd e
      | Inr p \<Rightarrow>
          (case rpc_get_session now rd (session_id p) of
             (rd1, Inl e) \<Rightarrow> method_error rd1 e
           | (rd1, Inr s) \<Rightarrow> k rd1 p s))"

definition answered ::
  "radrootsd \<Rightarrow> nostr_connect_message reply option \<Rightarrow> (nostr_connect_message \<Rightarrow> rpc_error + 'a)
     \<Rightarrow> 'a method_result" where
  "answered rd reply f = map_option (\<lambda>(sub, r). (rd, sub, and_then r f)) reply"

definition nip46_status :: "radrootsd \<Rightarrow> bool \<times> u64" where
  "nip46_status rd = (True, n46_session_ttl_secs (rd_nip46_config rd))"

definition nip46_ping ::
  "nostr_crate \<Rightarrow> exchange \<Rightarrow> instant \<Rightarrow> radrootsd \<Rightarrow> string + string \<Rightarrow> string method_result" where
  "nip46_ping N x now rd params =
     with_session now rd params id (\<lambda>rd1 _ s.
       answered rd1 (client_request N x s Ping ''ping'')
         (response_value N MPing ''ping'' (\<lambda>r. case r of RPong \<Rightarrow> Some ''pong'' | _ \<Rightarrow> None)))"

definition request_get_public_key ::
  "nostr_crate \<Rightarrow> exchange \<Rightarrow> nip46_session \<Rightarrow> (public_key \<times> bool) reply option" where
  "request_get_public_key N x s =
     map_option (apsnd (\<lambda>r. and_then r (\<lambda>message.
       and_then (response_value N MGetPublicKey ''get_public_key''
           (\<lambda>r. case r of RGetPublicKey p \<Rightarrow> Some p | _ \<Rightarrow> None) message)
         (\<lambda>pubkey. Inr (pubkey, case ns_user_pubkey s of Some existing \<Rightarrow> existing \<noteq> pubkey | None \<Rightarrow> True)))))
       (client_request N x s GetPublicKey ''get_public_key'')"

text \<open>The store is read before the exchange and written after it, at \<open>later\<close>.\<close>

definition nip46_get_public_key ::
  "nostr_crate \<Rightarrow> exchange \<Rightarrow> instant \<Rightarrow> instant \<Rightarrow> radrootsd \<Rightarrow> string + string \<Rightarrow> string method_result" where
  "nip46_get_public_key N x now later rd params =
     with_session now rd params id (\<lambda>rd1 session_id s.
       case request_get_public_key N x s of
         None \<Rightarrow> None
       | Some (sub, Inl e) \<Rightarrow> Some (rd1, sub, Inl e)
       | Some (sub, Inr (pubkey, updated)) \<Rightarrow>
           if updated then
             (let (st, ok) = set_user_pubkey later session_id pubkey (rd_sessions rd1)
              in Some (rd1\<lparr>rd_sessions := st\<rparr>, sub,
                   if ok then Inr (nc_to_hex N pubkey)
                   else Inl (RpcOther ''nip46 session update failed'')))
           else Some (rd1, sub, Inr (nc_to_hex N pubkey)))"

record cipher_params =
  cp_session_id :: string
  cp_public_key :: string
  cp_payload :: string

definition cipher_method ::
  "nostr_crate \<Rightarrow> exchange \<Rightarrow> instant \<Rightarrow> radrootsd \<Rightarrow> string + cipher_params \<Rightarrow> string
     \<Rightarrow> (public_key \<Rightarrow> string \<Rightarrow> nostr_connect_request) \<Rightarrow> nostr_connect_method
     \<Rightarrow> (response_result \<Rightarrow> string option) \<Rightarrow> string method_result" where
  "cipher_method N x now rd params name request meth pick =
     with_session now rd params cp_session_id (\<lambda>rd1 p s.
       case require_permission s name of
         Inl e \<Rightarrow> method_error rd1 e
       | Inr _ \<Rightarrow>
           (case nc_parse_public_key N (cp_public_key p) of
              Inl e \<Rightarrow> method_error rd1 (InvalidParams (''invalid public_key: '' @ e))
            | Inr public_key \<Rightarrow>
                answered rd1 (client_request N x s (request public_key (cp_payload p)) name)
                  (response_value N meth name pick)))"

definition nip46_nip04_encrypt where
  "nip46_nip04_encrypt N x now rd params =
     cipher_method N x now rd params ''nip04_encrypt'' Nip04Encrypt MNip04Encrypt
       (\<lambda>r. case r of RNip04Encrypt c \<Rightarrow> Some c | _ \<Rightarrow> None)"

definition nip46_nip04_decrypt where
  "nip46_nip04_decrypt N x now rd params =
     cipher_method N x now rd params ''nip04_decrypt'' Nip04Decrypt MNip04Decrypt
       (\<lambda>r. case r of RNip04Decrypt c \<Rightarrow> Some c | _ \<Rightarrow> None)"

definition nip46_nip44_encrypt where
  "nip46_nip44_encrypt N x now rd params =
     cipher_method N x now rd params ''nip44_encrypt'' Nip44Encrypt MNip44Encrypt
       (\<lambda>r. case r of RNip44Encrypt c \<Rightarrow> Some c | _ \<Rightarrow> None)"

definition nip46_nip44_decrypt where
  "nip46_nip44_decrypt N x now rd params =
     cipher_method N x now rd params ''nip44_decrypt'' Nip44Decrypt MNip44Decrypt
       (\<lambda>r. case r of RNip44Decrypt c \<Rightarrow> Some c | _ \<Rightarrow> None)"

definition nip46_sign_event ::
  "nostr_crate \<Rightarrow> exchange \<Rightarrow> instant \<Rightarrow> radrootsd \<Rightarrow> string + (string \<times> unsigned_event)
     \<Rightarrow> event method_result" where
  "nip46_sign_event N x now rd params =
     with_session now rd params fst (\<lambda>rd1 (_, u) s.
       case require_sign_event_permission s (ucast (ue_kind u)) of
         Inl e \<Rightarrow> method_error rd1 e
       | Inr _ \<Rightarrow>
           if ue_pubkey u \<noteq> ns_remote_signer_pubkey s
           then method_error rd1 (InvalidParams ''event pubkey does not match remote signer'')
           else map_option (\<lambda>(sub, r). (rd1, sub, r)) (client_sign_event N x s u ''sign_event''))"

section \<open>The methods on the session store\<close>

definition nip46_session_status ::
  "nostr_crate \<Rightarrow> instant \<Rightarrow> instant \<Rightarrow> radrootsd \<Rightarrow> string + string \<Rightarrow> radrootsd \<times> (rpc_error + nip46_session_view)" where
  "nip46_session_status N now later rd params =
     (case parse_params params of
        Inl e \<Rightarrow> (rd, Inl e)
      | Inr session_id \<Rightarrow> apsnd (map_ok (public_view N later)) (rpc_get_session now rd session_id))"

definition nip46_session_close :: "radrootsd \<Rightarrow> string + string \<Rightarrow> radrootsd \<times> (rpc_error + bool)" where
  "nip46_session_close rd params =
     (case parse_params params of
        Inl e \<Rightarrow> (rd, Inl e)
      | Inr session_id \<Rightarrow>
          (let (st, closed) = remove_session session_id (rd_sessions rd)
           in (rd\<lparr>rd_sessions := st\<rparr>, Inr closed)))"

definition nip46_session_list ::
  "nostr_crate \<Rightarrow> instant \<Rightarrow> instant \<Rightarrow> radrootsd \<Rightarrow> radrootsd \<times> nip46_session_view list" where
  "nip46_session_list N now later rd =
     (let (st, sessions) = list_sessions now (rd_sessions rd)
      in (rd\<lparr>rd_sessions := st\<rparr>, map (public_view N later) sessions))"

definition nip46_session_require_auth ::
  "instant \<Rightarrow> radrootsd \<Rightarrow> string + (string \<times> string) \<Rightarrow> radrootsd \<times> (rpc_error + bool)" where
  "nip46_session_require_auth now rd params =
     (case parse_params params of
        Inl e \<Rightarrow> (rd, Inl e)
      | Inr (session_id, auth_url) \<Rightarrow>
          if trim auth_url = [] then (rd, Inl (InvalidParams ''auth_url is empty''))
          else (let (st, required) = require_auth now session_id auth_url (rd_sessions rd)
                in (rd\<lparr>rd_sessions := st\<rparr>, Inr required)))"

text \<open>\<open>nip46.session.authorize\<close> marks the session, then answers the parked request through
  \<open>handle_request\<close>; the reply is the pair of \<open>authorized\<close> and \<open>replayed\<close>, with the event sent.\<close>

definition nip46_session_authorize ::
  "nostr_crate \<Rightarrow> instant \<Rightarrow> instant \<Rightarrow> instant \<Rightarrow> radrootsd \<Rightarrow> string + string
     \<Rightarrow> radrootsd \<times> event option \<times> (panic + (rpc_error + bool \<times> bool))" where
  "nip46_session_authorize N now t1 t2 rd params =
     (case parse_params params of
        Inl e \<Rightarrow> (rd, None, Inr (Inl e))
      | Inr session_id \<Rightarrow>
          (case authorize now session_id (rd_sessions rd) of
             (st, None) \<Rightarrow> (rd\<lparr>rd_sessions := st\<rparr>, None, Inr (Inl (InvalidParams ''unknown session'')))
           | (st, Some None) \<Rightarrow> (rd\<lparr>rd_sessions := st\<rparr>, None, Inr (Inr (True, False)))
           | (st, Some (Some p)) \<Rightarrow>
               (case handle_request N t1 t2 (rd\<lparr>rd_sessions := st\<rparr>) (pr_client_pubkey p)
                       (pr_request_id p) (pr_request p) of
                  (rd2, Inl panic) \<Rightarrow> (rd2, None, Inl panic)
                | (rd2, Inr response) \<Rightarrow>
                    (case sign_nip46_message N (rd_keys rd2) (pr_client_pubkey p)
                            (nc_message_response N (pr_request_id p) response) of
                       Inl err \<Rightarrow>
                         (rd2, None, Inr (Inl (RpcOther (''nip46 response build failed: '' @ err))))
                     | Inr e \<Rightarrow> (rd2, Some e, Inr (Inr (True, True)))))))"

text \<open>The methods \<open>module\<close> registers, in order.\<close>

definition nip46_methods :: "string list" where
  "nip46_methods =
     [''nip46.status'', ''nip46.connect'', ''nip46.ping'', ''nip46.get_public_key'',
      ''nip46.nip04_encrypt'', ''nip46.nip04_decrypt'', ''nip46.nip44_encrypt'',
      ''nip46.nip44_decrypt'', ''nip46.sign_event'', ''nip46.session.status'',
      ''nip46.session.close'', ''nip46.session.authorize'', ''nip46.session.require_auth'',
      ''nip46.session.list'']"

section \<open>The waiting loops\<close>

lemma select_loop_append:
  "select_loop body xs = Some r \<Longrightarrow> select_loop body (xs @ ys) = Some r"
  by (induction xs) (auto split: option.splits)

lemma select_loop_ends: "x \<in> set xs \<Longrightarrow> body x = Some r \<Longrightarrow> select_loop body xs \<noteq> None"
  by (induction xs) (auto split: option.split)

lemma select_loop_SomeD: "select_loop body xs = Some r \<Longrightarrow> \<exists>x \<in> set xs. body x = Some r"
  by (induction xs) (auto split: option.splits)

text \<open>What the three loops promise: the timer ends them and closes the subscription, and a value
  they return was accepted from a NIP-46 event, with the subscription closed.\<close>

locale response_wait =
  fixes body :: "select_outcome \<Rightarrow> 'a reply option"
    and accepted :: "event \<Rightarrow> 'a \<Rightarrow> bool"
  assumes timer: "\<exists>e. body TimedOut = Some (Unsubscribed, Inl e)"
    and value_accepted: "body x = Some (sub, Inr v) \<Longrightarrow> sub = Unsubscribed \<and>
      (\<exists>e. x = Polled (Received (NotifyEvent e)) \<and> ev_kind e = kind_nostr_connect \<and> accepted e v)"
begin

lemma wait_ends: "TimedOut \<in> set xs \<Longrightarrow> select_loop body xs \<noteq> None"
  using timer select_loop_ends [of TimedOut xs body] by blast

lemma wait_value:
  assumes "select_loop body xs = Some (sub, Inr v)"
  shows "sub = Unsubscribed \<and> (\<exists>e. Polled (Received (NotifyEvent e)) \<in> set xs \<and>
    ev_kind e = kind_nostr_connect \<and> accepted e v)"
  using select_loop_SomeD [OF assms] value_accepted by blast

end

interpretation response: response_wait "wait_for_response_body N s request_id label"
  "\<lambda>e m. ev_pubkey e = ns_remote_signer_pubkey s \<and> is_response m \<and> msg_id m = request_id"
  for N s request_id label
proof unfold_locales
  show "sub = Unsubscribed \<and> (\<exists>e. x = Polled (Received (NotifyEvent e)) \<and> ev_kind e = kind_nostr_connect \<and>
      ev_pubkey e = ns_remote_signer_pubkey s \<and> is_response v \<and> msg_id v = request_id)"
    if "wait_for_response_body N s request_id label x = Some (sub, Inr v)" for x sub v
    using that by (cases rule: wait_for_response_body.cases [of "(N, s, request_id, label, x)"])
      (auto split: if_splits sum.splits)
qed simp

interpretation connect_wait: response_wait "wait_for_connect_response_body N ks remote request_id"
  "\<lambda>e m. ev_pubkey e = remote \<and> is_response m \<and> msg_id m = request_id"
  for N ks remote request_id
proof unfold_locales
  show "sub = Unsubscribed \<and> (\<exists>e. x = Polled (Received (NotifyEvent e)) \<and> ev_kind e = kind_nostr_connect \<and>
      ev_pubkey e = remote \<and> is_response v \<and> msg_id v = request_id)"
    if "wait_for_connect_response_body N ks remote request_id x = Some (sub, Inr v)" for x sub v
    using that by (cases rule: wait_for_connect_response_body.cases [of "(N, ks, remote, request_id, x)"])
      (auto split: if_splits sum.splits)
qed simp

interpretation nostrconnect_wait: response_wait "wait_for_nostrconnect_body N ks secret"
  "\<lambda>e (signer, m). signer = ev_pubkey e \<and> is_response m \<and> validate_nostrconnect_response m secret = Inr ()"
  for N ks secret
proof unfold_locales
  show "sub = Unsubscribed \<and> (\<exists>e. x = Polled (Received (NotifyEvent e)) \<and> ev_kind e = kind_nostr_connect \<and>
      (case v of (signer, m) \<Rightarrow> signer = ev_pubkey e \<and> is_response m \<and>
         validate_nostrconnect_response m secret = Inr ()))"
    if "wait_for_nostrconnect_body N ks secret x = Some (sub, Inr v)" for x sub v
    using that by (cases rule: wait_for_nostrconnect_body.cases [of "(N, ks, secret, x)"])
      (auto split: if_splits sum.splits)
qed simp

lemma validate_nostrconnect_ok:
  "validate_nostrconnect_response m secret = Inr () \<longleftrightarrow> is_response m \<and> msg_error m = None \<and> msg_result m = Some secret"
  by (cases "(m, secret)" rule: validate_nostrconnect_response.cases) auto

lemma validate_connect_ok:
  "validate_connect_response m secret = Inr () \<longleftrightarrow>
     is_response m \<and> msg_error m = None \<and>
     (msg_result m = Some ''ack'' \<or> (secret \<noteq> None \<and> msg_result m = secret))"
  by (cases "(m, secret)" rule: validate_connect_response.cases) auto

lemma client_request_ends:
  "TimedOut \<in> set (ex_outcomes x) \<Longrightarrow> client_request N x s request label \<noteq> None"
  using response.wait_ends [of "ex_outcomes x"]
  by (simp add: client_request_def wait_for_response_def Let_def split: sum.split)

lemma client_request_value:
  assumes "client_request N x s request label = Some (sub, Inr m)"
  shows "sub = Unsubscribed \<and> is_response m \<and>
    msg_id m = msg_id (nc_message_request N (ex_request_id x) request)"
proof -
  have "select_loop (wait_for_response_body N s (msg_id (nc_message_request N (ex_request_id x) request)) label)
      (ex_outcomes x) = Some (sub, Inr m)"
    using assms by (simp add: client_request_def wait_for_response_def Let_def split: sum.splits)
  from response.wait_value [OF this] show ?thesis by blast
qed

lemma validate_signed_event_response_ok:
  "validate_signed_event_response N pk i e label = Inr e' \<longleftrightarrow>
     e' = e \<and> ev_pubkey e = pk \<and> ev_id e = i \<and> nc_verify N e"
  by (auto simp: validate_signed_event_response_def)

lemma client_sign_event_value:
  assumes "client_sign_event N x s u label = Some (sub, Inr e)"
  shows "sub = Unsubscribed \<and> nc_verify_id N u \<and> ev_pubkey e = ue_pubkey u \<and>
    ev_id e = nc_unsigned_id N u \<and> nc_verify N e"
  using assms
  by (auto simp: client_sign_event_def result_eqs validate_signed_event_response_ok
      split: if_splits dest: client_request_value)

lemma rpc_get_session_eq:
  "rpc_get_session now rd k =
     (rd\<lparr>rd_sessions := fst (get_session_entry now k (rd_sessions rd))\<rparr>,
      ok_or (InvalidParams ''unknown session'') (sessions_at rd now k))"
  by (simp add: rpc_get_session_def split: prod.split flip: get_reply)

lemma require_sign_event_permission_ok:
  "require_sign_event_permission s kind = Inr () \<longleftrightarrow> \<not> challenged s \<and> sign_event_allowed (ns_perms s) kind"
  by (auto simp: require_sign_event_permission_def challenged_def)

lemma require_permission_ok:
  "require_permission s perm = Inr () \<longleftrightarrow> \<not> challenged s \<and> has_permission s perm"
  by (auto simp: require_permission_def challenged_def has_permission_def)

section \<open>The handshakes\<close>

lemma rpc_claim_secret_inner:
  "inner (rd_sessions (fst (rpc_claim_secret rd secret))) = inner (rd_sessions rd)"
  by (simp add: rpc_claim_secret_def claim_secret_def Let_def split: option.split)

lemma rpc_claim_secret_frame:
  "rpc_claim_secret rd secret = (rd1, r) \<Longrightarrow> rd1 = rd\<lparr>rd_sessions := rd_sessions rd1\<rparr>"
  by (auto simp: rpc_claim_secret_def claim_secret_def Let_def split: option.splits if_splits)

lemma rpc_claim_secret_won:
  "rpc_claim_secret rd secret = (rd1, Inr u) \<Longrightarrow> secret = Some x \<Longrightarrow>
     trim x \<noteq> [] \<and> trim x \<notin> used_secrets (rd_sessions rd) \<and> trim x \<in> used_secrets (rd_sessions rd1)"
  by (auto simp: rpc_claim_secret_def claim_secret_def Let_def split: if_splits)

lemma finish_connect_ok:
  assumes "finish_connect N rd x info authority ks pk remote txt0 sub = (rd', sub', Inr (Inr r))"
  obtains rd1 u expires_at where "rpc_claim_secret rd (ci_secret info) = (rd1, Inr u)"
    "session_expires_at (ex_now x) (n46_session_ttl_secs (rd_nip46_config rd1)) = Inr expires_at"
    "rd' = rd1\<lparr>rd_sessions := insert_session
       (outbound_session rd1 x info authority (ex_client x) ks pk remote expires_at) (rd_sessions rd1)\<rparr>"
    "cr_session_id r = ex_session_id x" "sub' = sub"
  using assms by (auto simp: finish_connect_def split: prod.splits sum.splits)

lemma finish_connect_failed:
  assumes "finish_connect N rd x info authority ks pk remote txt0 sub = (rd', sub', r)" and "\<nexists>v. r = Inr (Inr v)"
  shows "inner (rd_sessions rd') = inner (rd_sessions rd)"
  using assms rpc_claim_secret_inner [of rd "ci_secret info"]
  by (auto simp: finish_connect_def split: prod.splits sum.splits)

lemma connect_bunker_cases:
  assumes "connect_bunker N rd x info authority = Some out"
  obtains sub e where "out = (rd, sub, Inr (Inl e))"
  | ks pk remote raw sub where "out = finish_connect N rd x info authority ks pk remote raw sub"
      "nc_parse_public_key N raw = Inr remote" "ci_remote_signer_pubkey info = Some raw"
  using assms
  by (auto simp: connect_bunker_def fail_with_def Let_def split: if_splits option.splits sum.splits)

lemma connect_nostrconnect_cases:
  assumes "connect_nostrconnect N rd x info key authority = Some out"
  obtains sub e where "out = (rd, sub, Inr (Inl e))"
  | ks pk remote raw sub where "out = finish_connect N rd x info authority ks pk remote raw sub"
  using assms
  by (auto simp: connect_nostrconnect_def fail_with_def Let_def
      split: if_splits option.splits sum.splits)

lemma connect_nip46_cases:
  assumes "connect_nip46 N U rd x url key authority0 = Some out"
  obtains sub e where "out = (rd, sub, Inr (Inl e))"
  | info authority ks pk remote raw sub where "parse_connect_url N U url = Inr info"
      "out = finish_connect N rd x info authority ks pk remote raw sub"
  using assms
  by (auto simp: connect_nip46_def fail_with_def split: sum.splits connect_mode.splits
      elim!: connect_bunker_cases connect_nostrconnect_cases)

lemma connect_bunker_ends:
  "TimedOut \<in> set (ex_outcomes x) \<Longrightarrow> connect_bunker N rd x info authority \<noteq> None"
  using connect_wait.wait_ends [of "ex_outcomes x"]
  by (simp add: connect_bunker_def fail_with_def wait_for_connect_response_def Let_def
      del: not_None_eq split: sum.split option.split)

lemma connect_nostrconnect_ends:
  "TimedOut \<in> set (ex_outcomes x) \<Longrightarrow> connect_nostrconnect N rd x info key authority \<noteq> None"
  using nostrconnect_wait.wait_ends [of "ex_outcomes x"]
  by (simp add: connect_nostrconnect_def fail_with_def wait_for_nostrconnect_response_def Let_def
      del: not_None_eq split: sum.split option.split)

text \<open>An event that does not decrypt ends the wait of \<open>nostrconnect\<close> whoever sent it, and leaves the
  subscription open; the listener skips such an event.\<close>

lemma stranger_ends_nostrconnect:
  assumes "ev_kind e = kind_nostr_connect" and "nc_nip44_decrypt N ks (ev_pubkey e) (ev_content e) = Inl err"
    and "ex_filter x = Inr ()" and "ex_subscribe x = Inr sub"
    and "ex_outcomes x = Polled (Received (NotifyEvent e)) # rest"
  shows "wait_for_nostrconnect_response N x ks secret =
    Some (Subscribed, Inl (RpcOther (''nip46 connect decrypt failed: '' @ err)))"
  using assms by (simp add: wait_for_nostrconnect_response_def)

section \<open>Parking and replaying a request\<close>

text \<open>The action of a request that uses the key.\<close>

fun key_action :: "nostr_crate \<Rightarrow> radrootsd \<Rightarrow> nostr_connect_request \<Rightarrow> nostr_connect_response option" where
  "key_action N rd (SignEvent u) = Some (sign_response N rd u)"
| "key_action N rd (Nip04Encrypt pk m) =
     Some (cipher_response ''nip04_encrypt'' RNip04Encrypt (nc_nip04_encrypt N (rd_keys rd) pk m))"
| "key_action N rd (Nip04Decrypt pk m) =
     Some (cipher_response ''nip04_decrypt'' RNip04Decrypt (nc_nip04_decrypt N (rd_keys rd) pk m))"
| "key_action N rd (Nip44Encrypt pk m) =
     Some (cipher_response ''nip44_encrypt'' RNip44Encrypt (nc_nip44_encrypt N (rd_keys rd) pk m))"
| "key_action N rd (Nip44Decrypt pk m) =
     Some (cipher_response ''nip44_decrypt'' RNip44Decrypt (nc_nip44_decrypt N (rd_keys rd) pk m))"
| "key_action N rd _ = None"

lemma key_action_reply:
  assumes "key_action N rd request = Some r"
  shows "snd (handle_request N t1 t2 rd pk rid request) = Inr
     (case sessions_at rd t1 (nc_to_hex N pk) of
        None \<Rightarrow> WithError ''unauthorized''
      | Some s \<Rightarrow> if \<not> request_permitted request s
                  then (case snd (handle_request N t1 t2 rd pk rid request) of Inr e \<Rightarrow> e | Inl _ \<Rightarrow> r)
                  else if challenged s then challenge_response s else r)"
  using assms
  by (cases request)
    (auto simp: run_reply_all request_permitted_def simp del: handle_request.simps split: option.split)

lemma key_action_live:
  assumes "key_action N rd request = Some r" and "store_ok (rd_sessions rd)" and "t1 \<le> t2" and "t2 \<le> t"
    and "sessions_at rd t1 (nc_to_hex N pk) = Some s" and "request_permitted request s"
    and "challenged s" and "\<not> is_expired t s"
  shows "sessions_at (fst (handle_request N t1 t2 rd pk rid request)) t (nc_to_hex N pk) =
    Some (s\<lparr>ns_pending_request :=
      Some \<lparr>pr_request_id = rid, pr_client_pubkey = pk, pr_request = request\<rparr>\<rparr>)"
  using assms
  by (cases request)
    (simp_all add: run_live_all request_permitted_def del: handle_request.simps)

lemma key_action_frame: "key_action N (rd\<lparr>rd_sessions := st\<rparr>) request = key_action N rd request"
  by (cases request) (simp_all add: sign_response_def)

section \<open>Properties\<close>

text \<open>A remote signer that answers \<open>ack\<close>, and a URL naming it.\<close>

definition signer_crate :: nostr_crate where
  "signer_crate = sample_crate\<lparr>
     nc_message_from_json := (\<lambda>j. Inr (MsgResponse j (Some ''ack'') None)),
     nc_to_response := (\<lambda>m meth. Inr \<lparr>resp_result = Some (RSignEvent \<lparr>ev_id = ''id'', ev_pubkey = ''r'',
       ev_created_at = 0, ev_kind = 1, ev_tags = [], ev_content = ''hi'', ev_sig = ''s''\<rparr>), resp_error = None\<rparr>)\<rparr>"

definition signer_urls :: url_crates where
  "signer_urls =
     \<lparr>uc_parse = (\<lambda>u. Inr \<lparr>pu_scheme = ''bunker'', pu_host = Some ''r'', pu_query = Some u\<rparr>),
      uc_query = (\<lambda>q. Inr \<lparr>cq_relay = Some (RelayOne ''wss://a''), cq_secret = Some q, cq_perms = None,
        cq_name = None, cq_url = None, cq_image = None\<rparr>)\<rparr>"

definition sample_exchange :: exchange where
  "sample_exchange =
     \<lparr>ex_keys = ''k'', ex_client = ''c'', ex_add_relay = (\<lambda>_. Inr ()), ex_request_id = ''r1'',
      ex_filter = Inr (), ex_subscribe = Inr ''sub'', ex_send = (\<lambda>_. Inr ()),
      ex_outcomes = [Polled RecvLagged, TimedOut], ex_session_id = ''sid'', ex_now = 0\<rparr>"

definition answering_exchange :: exchange where
  "answering_exchange = sample_exchange\<lparr>ex_outcomes :=
     [Polled (Received (NotifyEvent \<lparr>ev_id = ''e'', ev_pubkey = ''r'', ev_created_at = 0,
        ev_kind = kind_nostr_connect, ev_tags = [], ev_content = ''r1'', ev_sig = ''s''\<rparr>))]\<rparr>"

definition signing_daemon :: radrootsd where
  "signing_daemon = sample_daemon\<lparr>rd_sessions :=
     insert_session (sample_session\<lparr>ns_perms := [''sign_event'']\<rparr>) new_store\<rparr>"

lemma sample_trims: "trim ''wss://a'' = ''wss://a''" "trim ''x'' = ''x''"
  by (simp_all add: trim_def strip_start.simps leading_def white_space_def)

lemmas rpc_sample_simps = sample_simps signer_crate_def signer_urls_def sample_exchange_def
  answering_exchange_def signing_daemon_def

text \<open>C16. A remote signer cannot pass off another event: when \<open>nip46.sign_event\<close> returns an event,
  the session exists and has not expired, is authorised and permits the kind, and the event has
  the identifier of the event asked for, is authored by the remote signer's key, and its
  signature verifies; the subscription is closed.\<close>

theorem remote_signature_checked:
  assumes "nip46_sign_event N x now rd (Inr (session_id, u)) = Some (rd', sub, Inr e)"
  shows "sub = Unsubscribed \<and> nc_verify N e \<and> ev_id e = nc_unsigned_id N u \<and> ev_pubkey e = ue_pubkey u \<and>
    (\<exists>s. sessions_at rd now session_id = Some s \<and> \<not> challenged s \<and>
       sign_event_allowed (ns_perms s) (ucast (ue_kind u)) \<and> ev_pubkey e = ns_remote_signer_pubkey s)"
  using assms
  by (auto simp: nip46_sign_event_def with_session_def parse_params_def rpc_get_session_eq method_error_def
      require_sign_event_permission_ok split: sum.splits if_splits option.splits
      dest!: client_sign_event_value)

theorem remote_signature_checked_witness:
  "\<exists>rd' sub e. nip46_sign_event signer_crate answering_exchange 0 signing_daemon
      (Inr (''s1'', sample_note\<lparr>ue_pubkey := ''r''\<rparr>)) = Some (rd', sub, Inr e) \<and>
    sub = Unsubscribed \<and> ev_id e = ''id''"
proof -
  obtain rd' sub e where *: "nip46_sign_event signer_crate answering_exchange 0 signing_daemon
      (Inr (''s1'', sample_note\<lparr>ue_pubkey := ''r''\<rparr>)) = Some (rd', sub, Inr e)"
    by (simp add: rpc_sample_simps nip46_sign_event_def with_session_def parse_params_def rpc_get_session_eq
        require_sign_event_permission_def sign_event_allowed_def client_sign_event_def
        client_request_def wait_for_response_def response_value_def sign_nip46_message_def
        validate_signed_event_response_def)
  from remote_signature_checked [OF this] * show ?thesis
    by (auto simp: signer_crate_def sample_crate_def)
qed



text \<open>A successful connection stores a session under the identifier it returns, whose
  permissions are the requested ones filtered by the configuration and which is not waiting for
  authorisation, and it consumes the secret of the URL, which was not used before.\<close>

theorem connect_stores_session:
  assumes "connect_nip46 N U rd x url key authority = Some (rd', sub, Inr (Inr r))"
  shows "\<exists>info s. parse_connect_url N U url = Inr info \<and>
    map_of (inner (rd_sessions rd')) (cr_session_id r) = Some s \<and> \<not> challenged s \<and>
    ns_perms s = filter_perms (ci_perms info) (n46_perms (rd_nip46_config rd)) \<and>
    (\<forall>secret. ci_secret info = Some secret \<longrightarrow>
       trim secret \<notin> used_secrets (rd_sessions rd) \<and> trim secret \<in> used_secrets (rd_sessions rd'))"
  using assms
proof (cases rule: connect_nip46_cases)
  case (2 info a ks pk remote raw sub0)
  from 2(2) [symmetric] show ?thesis
  proof (rule finish_connect_ok)
    fix rd1 u expires_at
    assume claim: "rpc_claim_secret rd (ci_secret info) = (rd1, Inr u)"
      and rd': "rd' = rd1\<lparr>rd_sessions := insert_session
         (outbound_session rd1 x info a (ex_client x) ks pk remote expires_at) (rd_sessions rd1)\<rparr>"
      and id: "cr_session_id r = ex_session_id x"
    let ?s = "outbound_session rd1 x info a (ex_client x) ks pk remote expires_at"
    have "rd_nip46_config rd1 = rd_nip46_config rd"
      using rpc_claim_secret_frame [OF claim]
      by (metis radrootsd.select_convs(5) radrootsd.surjective radrootsd.update_convs(4))
    then have "map_of (inner (rd_sessions rd')) (cr_session_id r) = Some ?s \<and> \<not> challenged ?s \<and>
        ns_perms ?s = filter_perms (ci_perms info) (n46_perms (rd_nip46_config rd))"
      by (simp add: rd' id insert_session_def outbound_session_def AList.update_conv' challenged_def)
    moreover have "\<forall>secret. ci_secret info = Some secret \<longrightarrow>
        trim secret \<notin> used_secrets (rd_sessions rd) \<and> trim secret \<in> used_secrets (rd_sessions rd')"
      using rpc_claim_secret_won [OF claim] by (simp add: rd' insert_session_def)
    ultimately show ?thesis using 2(1) by blast
  qed
qed simp

theorem connect_stores_session_witness:
  "\<exists>rd' sub r s. connect_nip46 signer_crate signer_urls sample_daemon answering_exchange ''x'' None None =
      Some (rd', sub, Inr (Inr r)) \<and>
    map_of (inner (rd_sessions rd')) (cr_session_id r) = Some s \<and> \<not> challenged s"
proof -
  obtain rd' sub r where *: "connect_nip46 signer_crate signer_urls sample_daemon answering_exchange ''x'' None None =
      Some (rd', sub, Inr (Inr r))"
    by (simp add: rpc_sample_simps connect_nip46_def normalize_authority_def parse_connect_url_def
        parse_bunker_url_def url_query_def connect_bunker_def relay_list_def sample_trims Let_def
        send_connect_request_def sign_nip46_message_def
        wait_for_connect_response_def finish_connect_def rpc_claim_secret_def claim_secret_def
        session_expires_at_def kind_nostr_connect_def)
  from connect_stores_session [OF this] * show ?thesis by blast
qed

text \<open>A connection that fails, at any step, leaves the stored sessions exactly as they were.\<close>

theorem failed_connect_stores_nothing:
  assumes "connect_nip46 N U rd x url key authority = Some (rd', sub, Inr (Inl e))"
  shows "inner (rd_sessions rd') = inner (rd_sessions rd)"
  using assms
proof (cases rule: connect_nip46_cases)
  case (2 info a ks pk remote raw sub0)
  then show ?thesis using finish_connect_failed by (metis Inl_Inr_False old.sum.inject(2))
qed simp

theorem failed_connect_stores_nothing_witness:
  "\<exists>rd' sub e. connect_nip46 signer_crate signer_urls sample_daemon sample_exchange ''x'' None None =
      Some (rd', sub, Inr (Inl e)) \<and> inner (rd_sessions rd') = inner (rd_sessions sample_daemon)"
proof -
  obtain rd' sub e where *: "connect_nip46 signer_crate signer_urls sample_daemon sample_exchange ''x'' None None =
      Some (rd', sub, Inr (Inl e))"
    by (simp add: rpc_sample_simps connect_nip46_def normalize_authority_def parse_connect_url_def
        parse_bunker_url_def url_query_def connect_bunker_def relay_list_def sample_trims Let_def
        send_connect_request_def sign_nip46_message_def
        wait_for_connect_response_def fail_with_def)
  from failed_connect_stores_nothing [OF this] * show ?thesis by blast
qed



text \<open>The permission list of a connection URL round-trips: joining trimmed, non-empty entries
  without commas by commas and parsing gives the entries back, and whatever is parsed is a list
  of such entries.\<close>

theorem parse_perms_roundtrip:
  "(list_all (\<lambda>p. p \<noteq> [] \<and> trim p = p \<and> CHR '','' \<notin> set p) perms \<longrightarrow>
      parse_perms (Some (join_with CHR '','' perms)) = perms) \<and>
   list_all (\<lambda>p. p \<noteq> [] \<and> trim p = p) (parse_perms raw)"
proof
  show "list_all (\<lambda>p. p \<noteq> [] \<and> trim p = p \<and> CHR '','' \<notin> set p) perms \<longrightarrow>
      parse_perms (Some (join_with CHR '','' perms)) = perms"
  proof
    assume *: "list_all (\<lambda>p. p \<noteq> [] \<and> trim p = p \<and> CHR '','' \<notin> set p) perms"
    then have "map trim perms = perms" and "filter (\<lambda>p. p \<noteq> []) perms = perms"
      by (auto simp: list_all_iff filter_id_conv intro: map_idI)
    moreover have "trim [] = []"
      by (simp add: trim_def strip_start.simps)
    moreover have "perms \<noteq> [] \<Longrightarrow> split_on CHR '','' (join_with CHR '','' perms) = perms"
      using * by (intro split_join) (auto simp: list_all_iff)
    ultimately show "parse_perms (Some (join_with CHR '','' perms)) = perms"
      by (cases "perms = []") (simp_all add: parse_perms_def)
  qed
  show "list_all (\<lambda>p. p \<noteq> [] \<and> trim p = p) (parse_perms raw)"
    by (auto simp: parse_perms_def list_all_iff)
qed

theorem parse_perms_roundtrip_witness:
  "parse_perms (Some ''nip04_encrypt,sign_event:1'') = [''nip04_encrypt'', ''sign_event:1'']"
proof -
  have "list_all (\<lambda>p. p \<noteq> [] \<and> trim p = p \<and> CHR '','' \<notin> set p) [''nip04_encrypt'', ''sign_event:1'']"
    by (simp add: trim_def strip_start.simps leading_def white_space_def)
  with parse_perms_roundtrip [of "[''nip04_encrypt'', ''sign_event:1'']" None] show ?thesis by simp
qed

end
