(* ===== verification/Runtime_Paths.thy ===== *)
theory Runtime_Paths
  imports Prelude
begin

text \<open>
  The daemon's paths, \<open>src/app/paths.rs\<close>: the path profile chosen by the environment, the roots of
  each profile on each platform, and the four paths the daemon uses in them, with the contract that
  reports them.  Paths and variables are byte strings; whether a variable is valid UTF-8 is a
  parameter.
\<close>

section \<open>Paths\<close>

datatype platform = Linux | Macos | Windows

text \<open>\<open>PathBuf::join\<close> with a relative path.\<close>

definition separator :: "platform \<Rightarrow> char" where
  "separator p = (if p = Windows then CHR 0x5C else CHR ''/'')"

definition ends_with_separator :: "platform \<Rightarrow> string \<Rightarrow> bool" where
  "ends_with_separator p s \<longleftrightarrow> s \<noteq> [] \<and> (last s = CHR ''/'' \<or> (p = Windows \<and> last s = CHR 0x5C))"

definition path_join :: "platform \<Rightarrow> string \<Rightarrow> string \<Rightarrow> string" where
  "path_join p base rel =
     (if base = [] \<or> ends_with_separator p base then base @ rel else base @ separator p # rel)"

section \<open>Profiles and roots\<close>

record host_environment =
  he_home_dir :: "string option"
  he_appdata_dir :: "string option"
  he_localappdata_dir :: "string option"
  he_programdata_dir :: "string option"

definition current_environment :: "(string \<Rightarrow> string option) \<Rightarrow> host_environment" where
  "current_environment env =
     \<lparr>he_home_dir = env ''HOME'', he_appdata_dir = env ''APPDATA'',
      he_localappdata_dir = env ''LOCALAPPDATA'', he_programdata_dir = env ''PROGRAMDATA''\<rparr>"

datatype path_profile = InteractiveUser | ServiceHost | RepoLocal

definition parse_profile :: "string \<Rightarrow> string + path_profile" where
  "parse_profile v =
     (if v = ''interactive_user'' then Inr InteractiveUser
      else if v = ''service_host'' then Inr ServiceHost
      else if v = ''repo_local'' then Inr RepoLocal
      else Inl (''unknown radrootsd path profile `'' @ v @ ''`''))"

fun profile_as_str :: "path_profile \<Rightarrow> string" where
  "profile_as_str InteractiveUser = ''interactive_user''"
| "profile_as_str ServiceHost = ''service_host''"
| "profile_as_str RepoLocal = ''repo_local''"

record path_resolver =
  pr_platform :: platform
  pr_environment :: host_environment

record runtime_roots =
  rt_config :: string
  rt_data :: string
  rt_logs :: string
  rt_secrets :: string

definition roots_from_base :: "platform \<Rightarrow> string \<Rightarrow> runtime_roots" where
  "roots_from_base p base =
     \<lparr>rt_config = path_join p base ''config'', rt_data = path_join p base ''data'',
      rt_logs = path_join p base ''logs'', rt_secrets = path_join p base ''secrets''\<rparr>"

definition service_roots :: "platform \<Rightarrow> runtime_roots \<Rightarrow> runtime_roots" where
  "service_roots p r =
     (let service = (\<lambda>root. path_join p (path_join p root ''services'') ''radrootsd'')
      in \<lparr>rt_config = service (rt_config r), rt_data = service (rt_data r),
          rt_logs = service (rt_logs r), rt_secrets = service (rt_secrets r)\<rparr>)"

definition roots :: "path_resolver \<Rightarrow> path_profile \<Rightarrow> string option \<Rightarrow> string + runtime_roots" where
  "roots R profile repo_local_root =
     (let p = pr_platform R; e = pr_environment R in
      case profile of
        RepoLocal \<Rightarrow> map_ok (roots_from_base p) (ok_or ''repo_local requires an explicit root'' repo_local_root)
      | ServiceHost \<Rightarrow>
          if p \<noteq> Windows then
            Inr \<lparr>rt_config = ''/etc/radroots'', rt_data = ''/var/lib/radroots'',
                 rt_logs = ''/var/log/radroots'', rt_secrets = ''/etc/radroots/secrets''\<rparr>
          else map_ok (\<lambda>dir. roots_from_base p (path_join p dir ''Radroots''))
                 (ok_or ''PROGRAMDATA is required'' (he_programdata_dir e))
      | InteractiveUser \<Rightarrow>
          if p \<noteq> Windows then
            map_ok (\<lambda>dir. roots_from_base p (path_join p dir ''.radroots'')) (ok_or ''HOME is required'' (he_home_dir e))
          else
            and_then (ok_or ''APPDATA is required'' (he_appdata_dir e)) (\<lambda>appdata.
            and_then (ok_or ''LOCALAPPDATA is required'' (he_localappdata_dir e)) (\<lambda>localappdata.
              let roaming = path_join p appdata ''Radroots''; local = path_join p localappdata ''Radroots''
              in Inr \<lparr>rt_config = path_join p roaming ''config'', rt_data = path_join p local ''data'',
                      rt_logs = path_join p local ''logs'', rt_secrets = path_join p roaming ''secrets''\<rparr>)))"

section \<open>The selection of the environment\<close>

record path_selection =
  ps_profile :: path_profile
  ps_repo_local_root :: "string option"
  ps_profile_source :: string
  ps_repo_local_root_source :: "string option"

definition env_text :: "(string \<Rightarrow> bool) \<Rightarrow> (string \<Rightarrow> string option) \<Rightarrow> string \<Rightarrow> string option" where
  "env_text utf8 env name = (case env name of Some v \<Rightarrow> if utf8 v then Some v else None | None \<Rightarrow> None)"

definition selection_from_env ::
  "(string \<Rightarrow> bool) \<Rightarrow> (string \<Rightarrow> string option) \<Rightarrow> string + path_selection" where
  "selection_from_env utf8 env =
     (let profile_value = env_text utf8 env ''RADROOTSD_PATHS_PROFILE'' in
      and_then (map_transpose parse_profile profile_value) (\<lambda>parsed.
        let profile = (case parsed of Some p \<Rightarrow> p | None \<Rightarrow> InteractiveUser);
            root = (case env ''RADROOTSD_PATHS_REPO_LOCAL_ROOT'' of
                Some v \<Rightarrow> if v = [] then None else Some v
              | None \<Rightarrow> None)
        in if profile = RepoLocal \<and> root = None
           then Inl ''RADROOTSD_PATHS_REPO_LOCAL_ROOT is required for repo_local''
           else Inr
             \<lparr>ps_profile = profile, ps_repo_local_root = root,
              ps_profile_source = (if profile_value \<noteq> None then ''RADROOTSD_PATHS_PROFILE'' else ''default''),
              ps_repo_local_root_source = map_option (\<lambda>_. ''RADROOTSD_PATHS_REPO_LOCAL_ROOT'')
                (env ''RADROOTSD_PATHS_REPO_LOCAL_ROOT'')\<rparr>))"

section \<open>The daemon's paths\<close>

record runtime_paths =
  rp_config_path :: string
  rp_logs_dir :: string
  rp_identity_path :: string
  rp_database_path :: string

definition resolve_runtime_paths :: "path_resolver \<Rightarrow> path_profile \<Rightarrow> string option \<Rightarrow> string + runtime_paths" where
  "resolve_runtime_paths R profile repo_local_root =
     map_ok (\<lambda>found.
       let p = pr_platform R; r = service_roots p found
       in \<lparr>rp_config_path = path_join p (rt_config r) ''config.toml'', rp_logs_dir = rt_logs r,
           rp_identity_path = path_join p (rt_secrets r) ''identity.secret.json'',
           rp_database_path = path_join p (rt_data r) ''transport_publish.sqlite''\<rparr>)
       (roots R profile repo_local_root)"

definition default_runtime_paths_for_process ::
  "platform \<Rightarrow> (string \<Rightarrow> bool) \<Rightarrow> (string \<Rightarrow> string option) \<Rightarrow> string + runtime_paths" where
  "default_runtime_paths_for_process p utf8 env =
     and_then (selection_from_env utf8 env) (\<lambda>s.
       resolve_runtime_paths \<lparr>pr_platform = p, pr_environment = current_environment env\<rparr>
         (ps_profile s) (ps_repo_local_root s))"

record path_overrides =
  po_profile_source :: string
  po_root_source :: string
  po_repo_local_root :: "string option"
  po_repo_local_root_source :: "string option"
  po_subordinate_path_override_source :: string
  po_subordinate_path_override_keys :: "string list"

record runtime_contract =
  rc_active_profile :: string
  rc_allowed_profiles :: "string list"
  rc_path_overrides :: path_overrides
  rc_default_shared_secret_backend :: string
  rc_allowed_shared_secret_backends :: "string list"
  rc_canonical_paths :: runtime_paths

definition runtime_contract_with_selection :: "path_resolver \<Rightarrow> path_selection \<Rightarrow> string + runtime_contract" where
  "runtime_contract_with_selection R s =
     map_ok (\<lambda>paths.
       \<lparr>rc_active_profile = profile_as_str (ps_profile s),
        rc_allowed_profiles = [''interactive_user'', ''service_host'', ''repo_local''],
        rc_path_overrides =
          \<lparr>po_profile_source = ps_profile_source s,
           po_root_source = (if ps_profile s = RepoLocal then ''explicit_repo_local_root'' else ''host_defaults''),
           po_repo_local_root = ps_repo_local_root s,
           po_repo_local_root_source = ps_repo_local_root_source s,
           po_subordinate_path_override_source = ''config_artifact'',
           po_subordinate_path_override_keys =
             [''config.service.logs_dir'', ''config.transport_publish.database_path'']\<rparr>,
        rc_default_shared_secret_backend = ''encrypted_file'',
        rc_allowed_shared_secret_backends = [''encrypted_file''],
        rc_canonical_paths = paths\<rparr>)
       (resolve_runtime_paths R (ps_profile s) (ps_repo_local_root s))"

section \<open>Properties\<close>

lemma profile_roundtrip:
  "parse_profile (profile_as_str p) = Inr p"
  "parse_profile v = Inr p \<Longrightarrow> profile_as_str p = v"
  by (cases p; simp add: parse_profile_def) (auto simp: parse_profile_def split: if_splits)

lemma prefix_path_join: "prefix base (path_join p base rel)"
  by (simp add: path_join_def)

lemma prefix_path_joinI: "prefix s base \<Longrightarrow> prefix s (path_join p base rel)"
  using prefix_path_join prefix_order.trans by blast

definition all_paths :: "runtime_paths \<Rightarrow> string list" where
  "all_paths P = [rp_config_path P, rp_logs_dir P, rp_identity_path P, rp_database_path P]"

lemma path_join_stem: "\<exists>stem. \<forall>rel. path_join p base rel = stem @ rel"
  by (auto simp: path_join_def intro: exI [of _ base] exI [of _ "base @ [separator p]"])

lemma path_join_name:
  "name \<noteq> [] \<Longrightarrow> last name \<noteq> CHR ''/'' \<Longrightarrow> last name \<noteq> CHR 0x5C \<Longrightarrow>
     path_join p (stem @ name) rel = stem @ name @ separator p # rel"
  by (simp add: path_join_def ends_with_separator_def)

lemma service_path:
  assumes "name \<in> {''config'', ''data'', ''logs'', ''secrets''}"
  shows "path_join p (path_join p (stem @ name) ''services'') ''radrootsd'' =
    stem @ name @ separator p # ''services'' @ separator p # ''radrootsd''"
proof -
  have first: "path_join p (stem @ name) ''services'' = (stem @ name @ [separator p]) @ ''services''"
    using assms by (subst path_join_name) auto
  show ?thesis unfolding first by (subst path_join_name) simp_all
qed

text \<open>The repository-local profile stays in its root: whatever the environment, when it selects
  that profile the daemon starts only with a root that is set and not empty, and the
  configuration, the logs, the identity and the database all lie below that root, whatever the
  home directory.\<close>

theorem repo_local_confined:
  assumes "env_text utf8 env ''RADROOTSD_PATHS_PROFILE'' = Some ''repo_local''"
  shows "case env ''RADROOTSD_PATHS_REPO_LOCAL_ROOT'' of
      Some root \<Rightarrow>
        if root = [] then default_runtime_paths_for_process p utf8 env =
          Inl ''RADROOTSD_PATHS_REPO_LOCAL_ROOT is required for repo_local''
        else (\<exists>P. default_runtime_paths_for_process p utf8 env = Inr P \<and> list_all (prefix root) (all_paths P) \<and>
          distinct (all_paths P))
    | None \<Rightarrow> default_runtime_paths_for_process p utf8 env =
        Inl ''RADROOTSD_PATHS_REPO_LOCAL_ROOT is required for repo_local''"
proof (cases "env ''RADROOTSD_PATHS_REPO_LOCAL_ROOT''")
  case None
  then show ?thesis
    by (simp add: default_runtime_paths_for_process_def selection_from_env_def assms parse_profile_def)
next
  case (Some root)
  show ?thesis
  proof (cases "root = []")
    case False
    let ?P = "\<lparr>rp_config_path = path_join p (rt_config (service_roots p (roots_from_base p root))) ''config.toml'',
      rp_logs_dir = rt_logs (service_roots p (roots_from_base p root)),
      rp_identity_path = path_join p (rt_secrets (service_roots p (roots_from_base p root))) ''identity.secret.json'',
      rp_database_path = path_join p (rt_data (service_roots p (roots_from_base p root))) ''transport_publish.sqlite''\<rparr>"
    have "default_runtime_paths_for_process p utf8 env = Inr ?P"
      using False by (simp add: default_runtime_paths_for_process_def selection_from_env_def assms parse_profile_def
          Some resolve_runtime_paths_def roots_def Let_def)
    moreover have "list_all (prefix root) (all_paths ?P)"
      by (simp add: all_paths_def service_roots_def roots_from_base_def Let_def prefix_path_joinI prefix_path_join)
    moreover obtain stem where stem: "\<And>rel. path_join p root rel = stem @ rel" using path_join_stem by blast
    have "distinct (all_paths ?P)"
      by (simp add: all_paths_def service_roots_def roots_from_base_def Let_def stem service_path)
        (simp add: path_join_def)
    ultimately show ?thesis using Some False by auto
  qed (simp add: Some default_runtime_paths_for_process_def selection_from_env_def assms parse_profile_def)
qed

theorem repo_local_confined_witness:
  "\<exists>P. default_runtime_paths_for_process Linux (\<lambda>_. True)
      [''RADROOTSD_PATHS_PROFILE'' \<mapsto> ''repo_local'', ''RADROOTSD_PATHS_REPO_LOCAL_ROOT'' \<mapsto> ''/repo''] = Inr P \<and>
    list_all (prefix ''/repo'') (all_paths P)"
proof -
  let ?env = "[''RADROOTSD_PATHS_PROFILE'' \<mapsto> ''repo_local'', ''RADROOTSD_PATHS_REPO_LOCAL_ROOT'' \<mapsto> ''/repo'']"
  have "env_text (\<lambda>_. True) ?env ''RADROOTSD_PATHS_PROFILE'' = Some ''repo_local''" by (simp add: env_text_def)
  from repo_local_confined [OF this, of Linux] show ?thesis by auto
qed

end
