(* ===== verification/Daemon_Settings.thy ===== *)
theory Daemon_Settings
  imports Daemon_Config Runtime_Paths
begin

text \<open>
  The settings file, \<open>src/app/config.rs\<close>: what serde makes of a parsed TOML document, with the
  defaults of absent keys, the settings derived from it and the runtime paths, their validation and
  the authored Profile.  The TOML parser, the file system, and the types of the Profile
  (\<open>radroots_event::profile\<close>) and of the metadata's JSON values are parameters.
\<close>

section \<open>Configuration of the service and of the RPC server\<close>

record service_config =
  sc_logs_dir :: string
  sc_relays :: "string list"
  sc_nip89_identifier :: "string option"
  sc_nip89_extra_tags :: "string list list"

record rpc_config =
  rpc_cfg_addr :: string
  rpc_cfg_max_request_body_size :: u32
  rpc_cfg_max_response_body_size :: u32
  rpc_cfg_max_connections :: u32
  rpc_cfg_max_subscriptions_per_connection :: u32
  rpc_cfg_message_buffer_capacity :: u32
  rpc_cfg_batch_request_limit :: "u32 option"

definition default_rpc_config :: rpc_config where
  "default_rpc_config =
     \<lparr>rpc_cfg_addr = ''127.0.0.1:7070'', rpc_cfg_max_request_body_size = 10 * 1024 * 1024,
      rpc_cfg_max_response_body_size = 10 * 1024 * 1024, rpc_cfg_max_connections = 100,
      rpc_cfg_max_subscriptions_per_connection = 1024, rpc_cfg_message_buffer_capacity = 1024,
      rpc_cfg_batch_request_limit = Some 0\<rparr>"

section \<open>What the file says\<close>

text \<open>The keys of a section: an absent key is None, and its default is filled in by serde.\<close>

record rpc_keys =
  rk_addr :: "string option"
  rk_max_request_body_size :: "u32 option"
  rk_max_response_body_size :: "u32 option"
  rk_max_connections :: "u32 option"
  rk_max_subscriptions_per_connection :: "u32 option"
  rk_message_buffer_capacity :: "u32 option"
  rk_batch_request_limit :: "u32 option option"

definition or_default :: "'a option \<Rightarrow> 'a \<Rightarrow> 'a" where
  "or_default v x = (case v of Some y \<Rightarrow> y | None \<Rightarrow> x)"

definition deserialize_rpc :: "rpc_keys option \<Rightarrow> rpc_config" where
  "deserialize_rpc keys =
     (case keys of
        None \<Rightarrow> default_rpc_config
      | Some k \<Rightarrow>
          \<lparr>rpc_cfg_addr = or_default (rk_addr k) ''127.0.0.1:7070'',
           rpc_cfg_max_request_body_size = or_default (rk_max_request_body_size k) (10 * 1024 * 1024),
           rpc_cfg_max_response_body_size = or_default (rk_max_response_body_size k) (10 * 1024 * 1024),
           rpc_cfg_max_connections = or_default (rk_max_connections k) 100,
           rpc_cfg_max_subscriptions_per_connection = or_default (rk_max_subscriptions_per_connection k) 1024,
           rpc_cfg_message_buffer_capacity = or_default (rk_message_buffer_capacity k) 1024,
           rpc_cfg_batch_request_limit = or_default (rk_batch_request_limit k) (Some 0)\<rparr>)"

record nip46_keys =
  nk_session_ttl_secs :: "u64 option"
  nk_perms :: "string list option"
  nk_public_jsonrpc_enabled :: "bool option"
  nk_nostrconnect_url :: "string option"

definition deserialize_nip46 :: "nip46_keys option \<Rightarrow> nip46_config" where
  "deserialize_nip46 keys =
     (case keys of
        None \<Rightarrow> default_nip46_config
      | Some k \<Rightarrow>
          \<lparr>n46_session_ttl_secs = or_default (nk_session_ttl_secs k) 900,
           n46_perms = or_default (nk_perms k) [],
           n46_public_jsonrpc_enabled = or_default (nk_public_jsonrpc_enabled k) False,
           n46_nostrconnect_url = nk_nostrconnect_url k\<rparr>)"

record nostr_keys =
  ok_relay_url_policy :: "nostr_relay_url_policy option"
  ok_author_relay_discovery_relays :: "string list option"
  ok_daemon_default_relays :: "string list option"

definition deserialize_nostr :: "nostr_keys option \<Rightarrow> transport_publish_nostr_config" where
  "deserialize_nostr keys =
     (case keys of
        None \<Rightarrow> default_nostr_config
      | Some k \<Rightarrow>
          \<lparr>pn_relay_url_policy = or_default (ok_relay_url_policy k) ConfigPublic,
           pn_author_relay_discovery_relays = or_default (ok_author_relay_discovery_relays k) [],
           pn_daemon_default_relays = or_default (ok_daemon_default_relays k) []\<rparr>)"

record transport_publish_keys =
  tk_enabled :: "bool option"
  tk_connect_timeout_secs :: "u64 option"
  tk_max_event_bytes :: "nat option"
  tk_max_targets_per_request :: "nat option"
  tk_job_list_limit :: "nat option"
  tk_max_concurrent_publish_jobs :: "nat option"
  tk_database_path :: "string option"
  tk_nostr :: "nostr_keys option"

record raw_transport_publish =
  rw_enabled :: bool
  rw_connect_timeout_secs :: u64
  rw_max_event_bytes :: nat
  rw_max_targets_per_request :: nat
  rw_job_list_limit :: nat
  rw_max_concurrent_publish_jobs :: nat
  rw_database_path :: "string option"
  rw_nostr :: transport_publish_nostr_config

definition default_raw_transport_publish :: raw_transport_publish where
  "default_raw_transport_publish =
     \<lparr>rw_enabled = True, rw_connect_timeout_secs = 10, rw_max_event_bytes = 128 * 1024,
      rw_max_targets_per_request = 20, rw_job_list_limit = 100, rw_max_concurrent_publish_jobs = 8,
      rw_database_path = None, rw_nostr = default_nostr_config\<rparr>"

definition deserialize_transport_publish :: "transport_publish_keys option \<Rightarrow> raw_transport_publish" where
  "deserialize_transport_publish keys =
     (case keys of
        None \<Rightarrow> default_raw_transport_publish
      | Some k \<Rightarrow>
          \<lparr>rw_enabled = or_default (tk_enabled k) True,
           rw_connect_timeout_secs = or_default (tk_connect_timeout_secs k) 10,
           rw_max_event_bytes = or_default (tk_max_event_bytes k) (128 * 1024),
           rw_max_targets_per_request = or_default (tk_max_targets_per_request k) 20,
           rw_job_list_limit = or_default (tk_job_list_limit k) 100,
           rw_max_concurrent_publish_jobs = or_default (tk_max_concurrent_publish_jobs k) 8,
           rw_database_path = tk_database_path k,
           rw_nostr = deserialize_nostr (tk_nostr k)\<rparr>)"

text \<open>A missing section has the defaults of a section without keys.\<close>

lemma absent_sections:
  "deserialize_rpc None = deserialize_rpc (Some \<lparr>rk_addr = None, rk_max_request_body_size = None,
     rk_max_response_body_size = None, rk_max_connections = None, rk_max_subscriptions_per_connection = None,
     rk_message_buffer_capacity = None, rk_batch_request_limit = None\<rparr>)"
  "deserialize_nip46 None = deserialize_nip46 (Some \<lparr>nk_session_ttl_secs = None, nk_perms = None,
     nk_public_jsonrpc_enabled = None, nk_nostrconnect_url = None\<rparr>)"
  "deserialize_transport_publish None = deserialize_transport_publish (Some \<lparr>tk_enabled = None,
     tk_connect_timeout_secs = None, tk_max_event_bytes = None, tk_max_targets_per_request = None,
     tk_job_list_limit = None, tk_max_concurrent_publish_jobs = None, tk_database_path = None, tk_nostr = None\<rparr>)"
  by (simp_all add: deserialize_rpc_def default_rpc_config_def deserialize_nip46_def default_nip46_config_def
      deserialize_transport_publish_def default_raw_transport_publish_def deserialize_nostr_def or_default_def)

section \<open>Settings\<close>

text \<open>The metadata of the service; a custom field that is a Boolean is told apart from the others.\<close>

datatype json_value = JsonBool bool | JsonOther

record metadata =
  md_name :: "string option"
  md_display_name :: "string option"
  md_about :: "string option"
  md_website :: "string option"
  md_picture :: "string option"
  md_banner :: "string option"
  md_nip05 :: "string option"
  md_lud06 :: "string option"
  md_lud16 :: "string option"
  md_custom :: "(string \<times> json_value) list"

record raw_service =
  rs_logs_dir :: "string option"
  rs_relays :: "string list"
  rs_nip89_identifier :: "string option"
  rs_nip89_extra_tags :: "string list list"

record raw_settings =
  rw_metadata :: metadata
  rw_service :: raw_service
  rw_rpc :: "rpc_keys option"
  rw_rpc_addr :: "string option"
  rw_nip46 :: "nip46_keys option"
  rw_transport_publish :: "transport_publish_keys option"

record settings =
  st_metadata :: metadata
  st_service :: service_config
  st_rpc :: rpc_config
  st_rpc_addr :: "string option"
  st_nip46 :: nip46_config
  st_transport_publish :: transport_publish_config

definition into_service_config :: "raw_service \<Rightarrow> runtime_paths \<Rightarrow> service_config" where
  "into_service_config raw paths =
     \<lparr>sc_logs_dir = or_default (rs_logs_dir raw) (rp_logs_dir paths), sc_relays = rs_relays raw,
      sc_nip89_identifier = rs_nip89_identifier raw, sc_nip89_extra_tags = rs_nip89_extra_tags raw\<rparr>"

definition into_transport_publish_config :: "raw_transport_publish \<Rightarrow> runtime_paths \<Rightarrow> transport_publish_config" where
  "into_transport_publish_config raw paths =
     \<lparr>tp_enabled = rw_enabled raw, tp_connect_timeout_secs = rw_connect_timeout_secs raw,
      tp_max_event_bytes = rw_max_event_bytes raw, tp_max_targets_per_request = rw_max_targets_per_request raw,
      tp_job_list_limit = rw_job_list_limit raw,
      tp_max_concurrent_publish_jobs = rw_max_concurrent_publish_jobs raw,
      tp_database_path = or_default (rw_database_path raw) (rp_database_path paths), tp_nostr = rw_nostr raw\<rparr>"

definition into_settings :: "raw_settings \<Rightarrow> runtime_paths \<Rightarrow> settings" where
  "into_settings raw paths =
     \<lparr>st_metadata = rw_metadata raw, st_service = into_service_config (rw_service raw) paths,
      st_rpc = deserialize_rpc (rw_rpc raw), st_rpc_addr = rw_rpc_addr raw,
      st_nip46 = deserialize_nip46 (rw_nip46 raw),
      st_transport_publish = into_transport_publish_config
        (deserialize_transport_publish (rw_transport_publish raw)) paths\<rparr>"

definition settings_rpc_addr :: "settings \<Rightarrow> string" where
  "settings_rpc_addr s = or_default (st_rpc_addr s) (rpc_cfg_addr (st_rpc s))"

section \<open>The authored Profile\<close>

text \<open>\<open>AuthoredProfile\<close> and \<open>Nip05Identifier\<close> are of the crate \<open>radroots_event\<close>.\<close>

record 'p profile_crate =
  pf_new :: "string \<Rightarrow> string + 'p"
  pf_parse_nip05 :: "string \<Rightarrow> string + string"
  pf_with_display_name :: "string \<Rightarrow> 'p \<Rightarrow> 'p"
  pf_with_about :: "string \<Rightarrow> 'p \<Rightarrow> 'p"
  pf_with_nip05 :: "string \<Rightarrow> 'p \<Rightarrow> 'p"
  pf_with_bot :: "bool \<Rightarrow> 'p \<Rightarrow> 'p"

definition apply_some :: "('a \<Rightarrow> 'p \<Rightarrow> 'p) \<Rightarrow> 'a option \<Rightarrow> 'p \<Rightarrow> 'p" where
  "apply_some f v p = (case v of Some x \<Rightarrow> f x p | None \<Rightarrow> p)"

fun join_sep :: "string \<Rightarrow> string list \<Rightarrow> string" where
  "join_sep s [] = []"
| "join_sep s [x] = x"
| "join_sep s (x # y # xs) = x @ s @ join_sep s (y # xs)"

definition media_fields :: "metadata \<Rightarrow> string list" where
  "media_fields m =
     (if md_picture m \<noteq> None then [''picture''] else []) @ (if md_banner m \<noteq> None then [''banner''] else [])"

definition bot_of :: "metadata \<Rightarrow> string + bool option" where
  "bot_of m =
     (case map_of (md_custom m) ''bot'' of
        Some (JsonBool b) \<Rightarrow> Inr (Some b)
      | Some JsonOther \<Rightarrow> Inl ''metadata.bot must be a Boolean for the authored Profile''
      | None \<Rightarrow> Inr None)"

definition unsupported_fields :: "metadata \<Rightarrow> string list" where
  "unsupported_fields m =
     (if md_website m \<noteq> None then [''website''] else []) @
     (if md_lud06 m \<noteq> None then [''lud06''] else []) @
     (if md_lud16 m \<noteq> None then [''lud16''] else []) @
     filter (\<lambda>k. k \<noteq> ''bot'') (map fst (md_custom m))"

definition authored_profile :: "'p profile_crate \<Rightarrow> metadata \<Rightarrow> string + 'p" where
  "authored_profile F m =
     and_then (ok_or ''metadata.name is required for the authored Profile'' (md_name m)) (\<lambda>name.
     and_then (map_err (\<lambda>_. ''metadata.name is invalid for the authored Profile'') (pf_new F name)) (\<lambda>p0.
       let p1 = apply_some (pf_with_about F) (md_about m) (apply_some (pf_with_display_name F) (md_display_name m) p0) in
     and_then (map_err (\<lambda>_. ''metadata.nip05 is invalid for the authored Profile'')
         (map_transpose (pf_parse_nip05 F) (md_nip05 m))) (\<lambda>nip05.
       let p2 = apply_some (pf_with_nip05 F) nip05 p1 in
       if media_fields m \<noteq> [] then
         Inl (''metadata.'' @ join_sep '' and metadata.'' (media_fields m) @
           '' cannot be authored from URL-only configuration; Profile media requires a byte-verified Blossom descriptor'')
       else and_then (bot_of m) (\<lambda>bot.
         if unsupported_fields m \<noteq> [] then
           Inl (''metadata fields are not supported by the strict authored Profile contract: '' @
             join_sep '', '' (unsupported_fields m))
         else Inr (apply_some (pf_with_bot F) bot p2)))))"

definition validate_settings :: "'p profile_crate \<Rightarrow> settings \<Rightarrow> string + unit" where
  "validate_settings F s =
     and_then (validate_transport_publish (st_transport_publish s)) (\<lambda>_.
       map_ok (\<lambda>_. ()) (authored_profile F (st_metadata s)))"

definition load_settings_from_path ::
  "'p profile_crate \<Rightarrow> (string \<Rightarrow> string + string) \<Rightarrow> (string \<Rightarrow> string + raw_settings)
     \<Rightarrow> path_resolver \<Rightarrow> path_profile \<Rightarrow> string option \<Rightarrow> string \<Rightarrow> string + settings" where
  "load_settings_from_path F read_file parse_toml R profile root path =
     and_then (map_err (\<lambda>_. ''read configuration from '' @ path) (read_file path)) (\<lambda>source.
     and_then (map_err (\<lambda>_. ''parse configuration from '' @ path) (parse_toml source)) (\<lambda>raw.
     and_then (resolve_runtime_paths R profile root) (\<lambda>paths.
       let s = into_settings raw paths in map_ok (\<lambda>_. s) (validate_settings F s))))"

section \<open>Properties\<close>

lemma validate_settings_iff:
  "validate_settings F s = Inr () \<longleftrightarrow>
     validate_transport_publish (st_transport_publish s) = Inr () \<and> is_ok (authored_profile F (st_metadata s))"
  by (auto simp: validate_settings_def result_eqs and_then_eq_Inr map_ok_eq_Inr is_ok_def split: sum.splits)

text \<open>The authored Profile carries exactly what the strict contract allows: it is built if and only
  if the name is present and accepted, the NIP-05 identifier, if any, is accepted, there is no
  picture, banner, website or Lightning address, and the only custom field is a Boolean \<open>bot\<close>; then
  it holds every field that was given.\<close>

theorem authored_profile_exact:
  "authored_profile F m = Inr p \<longleftrightarrow>
     (\<exists>name p0 nip05. md_name m = Some name \<and> pf_new F name = Inr p0 \<and>
        map_transpose (pf_parse_nip05 F) (md_nip05 m) = Inr nip05 \<and>
        md_picture m = None \<and> md_banner m = None \<and> md_website m = None \<and> md_lud06 m = None \<and> md_lud16 m = None \<and>
        (\<forall>(k, v) \<in> set (md_custom m). k = ''bot'') \<and>
        (\<exists>bot. map_option JsonBool bot = map_of (md_custom m) ''bot'' \<and>
           p = apply_some (pf_with_bot F) bot (apply_some (pf_with_nip05 F) nip05
             (apply_some (pf_with_about F) (md_about m) (apply_some (pf_with_display_name F) (md_display_name m) p0)))))"
proof -
  have bot: "bot_of m = Inr b \<longleftrightarrow> map_option JsonBool b = map_of (md_custom m) ''bot''" for b
    by (cases b) (auto simp: bot_of_def split: option.splits json_value.splits)
  have media: "media_fields m = [] \<longleftrightarrow> md_picture m = None \<and> md_banner m = None"
    by (auto simp: media_fields_def)
  have fields: "unsupported_fields m = [] \<longleftrightarrow> md_website m = None \<and> md_lud06 m = None \<and> md_lud16 m = None \<and>
      (\<forall>(k, v) \<in> set (md_custom m). k = ''bot'')"
    by (auto simp: unsupported_fields_def filter_empty_conv)
  show ?thesis
    unfolding authored_profile_def Let_def and_then_eq_Inr ok_or_eq_Inr map_err_eq_Inr
    using media fields by (auto simp: and_then_eq_Inr bot split: if_splits)
qed

definition sample_profile_crate :: "(string \<times> string) list profile_crate" where
  "sample_profile_crate =
     \<lparr>pf_new = (\<lambda>name. if name = [] then Inl ''empty'' else Inr [(''name'', name)]), pf_parse_nip05 = Inr,
      pf_with_display_name = (\<lambda>v p. p @ [(''display_name'', v)]), pf_with_about = (\<lambda>v p. p @ [(''about'', v)]),
      pf_with_nip05 = (\<lambda>v p. p @ [(''nip05'', v)]), pf_with_bot = (\<lambda>b p. p @ [(''bot'', if b then ''1'' else ''0'')])\<rparr>"

definition sample_metadata :: metadata where
  "sample_metadata =
     \<lparr>md_name = Some ''radrootsd'', md_display_name = None, md_about = Some ''daemon'', md_website = None,
      md_picture = None, md_banner = None, md_nip05 = None, md_lud06 = None, md_lud16 = None,
      md_custom = [(''bot'', JsonBool True)]\<rparr>"

theorem authored_profile_exact_witness:
  "authored_profile sample_profile_crate sample_metadata =
     Inr [(''name'', ''radrootsd''), (''about'', ''daemon''), (''bot'', ''1'')]"
  unfolding authored_profile_exact
  by (simp add: sample_profile_crate_def sample_metadata_def apply_some_def) (rule exI [of _ "Some True"], auto)

end
