(* ===== verification/Identity_Storage.thy ===== *)
theory Identity_Storage
  imports Prelude
begin

text \<open>
  The daemon's identity on disk, \<open>src/app/identity_storage.rs\<close>: a secret key sealed into an envelope
  whose data key is wrapped with a key kept in a file beside it.  The wrapping, its associated data
  and the handling of the two files are the daemon's; the envelope (\<open>radroots_secrets\<close>), the cipher
  (\<open>chacha20poly1305\<close>), JSON and the keys (\<open>nostr\<close>) are parameters, with what the daemon relies on
  stated as \<open>secrets_ok\<close>.  Random values are arguments, and so is which file operation fails.
\<close>

section \<open>Files\<close>

record disk_file =
  fl_bytes :: string
  fl_mode :: nat

type_synonym files = "string \<rightharpoonup> disk_file"

datatype io_op = IoStat | IoRead | IoCreateDir | IoOpen | IoWrite | IoSync | IoPermissions | IoTemp | IoPersist | IoSyncParent

text \<open>Which operation on which path fails, the bytes written before a failing write, and the mode of
  a file created with the default permissions.\<close>

record io =
  io_fails :: "io_op \<Rightarrow> string \<Rightarrow> bool"
  io_written :: nat
  io_default_mode :: nat

definition read_file :: "io \<Rightarrow> string \<Rightarrow> files \<Rightarrow> string option" where
  "read_file os path fs = (if io_fails os IoRead path then None else map_option fl_bytes (fs path))"

section \<open>The crates\<close>

datatype operation = OpRead | OpWrite | OpProvision | OpWrap | OpUnwrap

datatype secrets_error = BackendFailure operation | SecretsOther string

definition secret_backend_failure :: "operation \<Rightarrow> secrets_error" where
  "secret_backend_failure op = BackendFailure op"

datatype backend_kind = External | OtherBackend

record secret_ref =
  sr_id :: string
  sr_backend :: backend_kind
  sr_key_version :: nat

record envelope_context =
  ec_purpose :: string
  ec_subject :: "string \<times> string"
  ec_schema :: string

record wrap_request =
  wr_reference :: secret_ref
  wr_context :: envelope_context
  wr_plaintext :: string

record unwrap_request =
  ur_reference :: secret_ref
  ur_context :: envelope_context
  ur_wrapped :: string

record seal_request =
  sq_reference :: secret_ref
  sq_context :: envelope_context
  sq_plaintext :: string
  sq_data_key :: string
  sq_nonce :: string

record identity_file =
  if_secret_key :: string
  if_public_key :: "string option"
  if_identifier :: "string option"
  if_metadata :: "string option"
  if_application_handler :: "string option"

type_synonym wrapper = "wrap_request \<Rightarrow> files \<Rightarrow> files \<times> (secrets_error + string)"
type_synonym unwrapper = "unwrap_request \<Rightarrow> secrets_error + string"

record ('s, 'e) secret_crates =
  ic_encrypt :: "string \<Rightarrow> string \<Rightarrow> string \<Rightarrow> string \<Rightarrow> string option"
  ic_decrypt :: "string \<Rightarrow> string \<Rightarrow> string \<Rightarrow> string \<Rightarrow> string option"
  ic_material :: "string \<Rightarrow> secrets_error + string"
  ic_wrapped :: "string \<Rightarrow> secrets_error + string"
  ic_parse_id :: "string \<Rightarrow> secrets_error + string"
  ic_key_version :: "nat \<Rightarrow> secrets_error + nat"
  ic_parse_purpose :: "string \<Rightarrow> secrets_error + string"
  ic_parse_subject :: "string \<Rightarrow> string \<Rightarrow> secrets_error + string \<times> string"
  ic_parse_schema :: "string \<Rightarrow> secrets_error + string"
  ic_digest :: "envelope_context \<Rightarrow> string"
  ic_seal :: "wrapper \<Rightarrow> seal_request \<Rightarrow> files \<Rightarrow> files \<times> (secrets_error + 'e)"
  ic_open :: "unwrapper \<Rightarrow> 'e \<Rightarrow> envelope_context \<Rightarrow> secrets_error + string"
  ic_reseal_legacy :: "wrapper \<Rightarrow> unwrapper \<Rightarrow> (string \<Rightarrow> bool) \<Rightarrow> secret_ref \<Rightarrow> seal_request \<Rightarrow> 'e \<Rightarrow> files
     \<Rightarrow> files \<times> (secrets_error + 'e)"
  ic_version :: "'e \<Rightarrow> nat"
  ic_current_version :: nat
  ic_legacy_version :: nat
  ic_encode :: "'e \<Rightarrow> secrets_error + string"
  ic_decode :: "string \<Rightarrow> secrets_error + 'e"
  ic_to_json :: "identity_file \<Rightarrow> string + string"
  ic_from_json :: "string \<Rightarrow> string + identity_file"
  ic_parse_secret :: "string \<Rightarrow> string + 's"
  ic_secret_hex :: "'s \<Rightarrow> string"
  ic_public_hex :: "'s \<Rightarrow> string"
  ic_error_text :: "secrets_error \<Rightarrow> string"

section \<open>The wrapping key\<close>

definition encrypted_identity_key_path :: "string \<Rightarrow> string" where
  "encrypted_identity_key_path path = path @ ''.key''"

definition key_from_bytes :: "string \<Rightarrow> secrets_error + string" where
  "key_from_bytes raw = (if length raw = 32 then Inr raw else Inl (secret_backend_failure OpRead))"

definition read_key :: "io \<Rightarrow> string \<Rightarrow> files \<Rightarrow> secrets_error + string" where
  "read_key os key_path fs =
     and_then (ok_or (secret_backend_failure OpRead) (read_file os key_path fs)) key_from_bytes"

text \<open>A new key file is written, synced, and only then made private.\<close>

definition create_key_file :: "io \<Rightarrow> string \<Rightarrow> string \<Rightarrow> files \<Rightarrow> files \<times> (secrets_error + string)" where
  "create_key_file os key_path key fs =
     (let mode = io_default_mode os;
          full = fs(key_path \<mapsto> \<lparr>fl_bytes = key, fl_mode = mode\<rparr>) in
      if io_fails os IoWrite key_path
      then (fs(key_path \<mapsto> \<lparr>fl_bytes = take (io_written os) key, fl_mode = mode\<rparr>), Inl (secret_backend_failure OpWrite))
      else if io_fails os IoSync key_path \<or> io_fails os IoPermissions key_path
      then (full, Inl (secret_backend_failure OpWrite))
      else (fs(key_path \<mapsto> \<lparr>fl_bytes = key, fl_mode = 384\<rparr>), Inr key))"

definition load_or_create_key ::
  "io \<Rightarrow> string \<Rightarrow> string \<Rightarrow> files \<Rightarrow> files \<times> (secrets_error + string)" where
  "load_or_create_key os key_path random fs =
     (case read_file os key_path fs of
        Some raw \<Rightarrow> (fs, key_from_bytes raw)
      | None \<Rightarrow>
          if io_fails os IoCreateDir key_path then (fs, Inl (secret_backend_failure OpProvision))
          else if fs key_path \<noteq> None then (fs, read_key os key_path fs)
          else if io_fails os IoOpen key_path then (fs, Inl (secret_backend_failure OpProvision))
          else create_key_file os key_path random fs)"

section \<open>Wrapping\<close>

definition be_bytes :: "nat \<Rightarrow> nat \<Rightarrow> string" where
  "be_bytes k n = map (\<lambda>i. char_of (n div 256 ^ (k - 1 - i) mod 256)) [0..<k]"

definition wrapping_aad :: "('s, 'e) secret_crates \<Rightarrow> secret_ref \<Rightarrow> envelope_context \<Rightarrow> string" where
  "wrapping_aad C reference context =
     ''radrootsd.wrapped_data_key.v2'' @ be_bytes 2 (length (sr_id reference)) @ sr_id reference @
     be_bytes 4 (sr_key_version reference) @ ic_digest C context"

definition validate_daemon_reference :: "secret_ref \<Rightarrow> operation \<Rightarrow> secrets_error + unit" where
  "validate_daemon_reference reference op =
     (if sr_backend reference \<noteq> External \<or> sr_key_version reference \<noteq> 1 \<or> sr_id reference \<noteq> ''radrootsd_identity''
      then Inl (secret_backend_failure op) else Inr ())"

text \<open>\<open>random_key\<close> and \<open>random_nonce\<close> are the bytes drawn.\<close>

definition wrap_secret ::
  "('s, 'e) secret_crates \<Rightarrow> io \<Rightarrow> string \<Rightarrow> string \<Rightarrow> string \<Rightarrow> wrapper" where
  "wrap_secret C os key_path random_key random_nonce request fs =
     (case validate_daemon_reference (wr_reference request) OpWrap of
        Inl e \<Rightarrow> (fs, Inl e)
      | Inr _ \<Rightarrow>
          (case load_or_create_key os key_path random_key fs of
             (fs', Inl e) \<Rightarrow> (fs', Inl e)
           | (fs', Inr key) \<Rightarrow>
               (fs', and_then (ok_or (secret_backend_failure OpWrap)
                  (ic_encrypt C key random_nonce (wrapping_aad C (wr_reference request) (wr_context request))
                     (wr_plaintext request)))
                (\<lambda>ciphertext. ic_wrapped C (CHR 0x02 # random_nonce @ ciphertext)))))"

definition unwrap_with_aad ::
  "('s, 'e) secret_crates \<Rightarrow> io \<Rightarrow> string \<Rightarrow> files \<Rightarrow> string \<Rightarrow> char \<Rightarrow> string \<Rightarrow> secrets_error + string" where
  "unwrap_with_aad C os key_path fs wrapped expected_version aad =
     (if length wrapped \<le> 1 + 24 \<or> hd wrapped \<noteq> expected_version then Inl (secret_backend_failure OpUnwrap)
      else and_then (read_key os key_path fs) (\<lambda>key.
        and_then (ok_or (secret_backend_failure OpUnwrap)
          (ic_decrypt C key (take 24 (drop 1 wrapped)) aad (drop 25 wrapped))) (ic_material C)))"

definition unwrap_secret :: "('s, 'e) secret_crates \<Rightarrow> io \<Rightarrow> string \<Rightarrow> files \<Rightarrow> unwrapper" where
  "unwrap_secret C os key_path fs request =
     and_then (validate_daemon_reference (ur_reference request) OpUnwrap) (\<lambda>_.
       unwrap_with_aad C os key_path fs (ur_wrapped request) CHR 0x02
         (wrapping_aad C (ur_reference request) (ur_context request)))"

definition unwrap_legacy_v1 :: "('s, 'e) secret_crates \<Rightarrow> io \<Rightarrow> string \<Rightarrow> files \<Rightarrow> unwrapper" where
  "unwrap_legacy_v1 C os key_path fs request =
     and_then (validate_daemon_reference (ur_reference request) OpUnwrap) (\<lambda>_.
       unwrap_with_aad C os key_path fs (ur_wrapped request) CHR 0x01 (sr_id (ur_reference request)))"

section \<open>Identities\<close>

definition identity_secret_ref :: "('s, 'e) secret_crates \<Rightarrow> secrets_error + secret_ref" where
  "identity_secret_ref C =
     and_then (ic_parse_id C ''radrootsd_identity'') (\<lambda>id.
     and_then (ic_key_version C 1) (\<lambda>version. Inr
       \<lparr>sr_id = id, sr_backend = External, sr_key_version = version\<rparr>))"

definition identity_envelope_context :: "('s, 'e) secret_crates \<Rightarrow> secrets_error + envelope_context" where
  "identity_envelope_context C =
     and_then (ic_parse_purpose C ''radroots.service_identity'') (\<lambda>purpose.
     and_then (ic_parse_subject C ''service'' ''radrootsd'') (\<lambda>subject.
     and_then (ic_parse_schema C ''radroots.daemon_identity.v1'') (\<lambda>schema. Inr
       \<lparr>ec_purpose = purpose, ec_subject = subject, ec_schema = schema\<rparr>)))"

definition to_file :: "('s, 'e) secret_crates \<Rightarrow> 's \<Rightarrow> identity_file" where
  "to_file C keys =
     \<lparr>if_secret_key = ic_secret_hex C keys, if_public_key = Some (ic_public_hex C keys), if_identifier = None,
      if_metadata = None, if_application_handler = None\<rparr>"

definition from_file :: "('s, 'e) secret_crates \<Rightarrow> identity_file \<Rightarrow> string + 's" where
  "from_file C f =
     and_then (map_err (\<lambda>_. ''invalid daemon identity secret'') (ic_parse_secret C (if_secret_key f))) (\<lambda>keys.
       if if_public_key f \<noteq> None \<and> if_public_key f \<noteq> Some (ic_public_hex C keys)
       then Inl ''daemon identity public key does not match encrypted secret''
       else Inr keys)"

definition valid_identity_payload :: "('s, 'e) secret_crates \<Rightarrow> string \<Rightarrow> bool" where
  "valid_identity_payload C bytes \<longleftrightarrow> is_ok (and_then (ic_from_json C bytes) (from_file C))"

definition open_identity ::
  "('s, 'e) secret_crates \<Rightarrow> unwrapper \<Rightarrow> 'e \<Rightarrow> envelope_context \<Rightarrow> string + 's" where
  "open_identity C unwrap envelope context =
     and_then (map_err (\<lambda>_. ''open encrypted daemon identity'') (ic_open C unwrap envelope context)) (\<lambda>payload.
     and_then (ic_from_json C payload) (from_file C))"

section \<open>Storing and loading\<close>

text \<open>A temporary file is written, synced and made private, and then renamed to the path.\<close>

definition persist_envelope :: "io \<Rightarrow> string \<Rightarrow> string \<Rightarrow> files \<Rightarrow> files \<times> (string + unit)" where
  "persist_envelope os path encoded fs =
     (if io_fails os IoTemp path then (fs, Inl ''create temporary file'')
      else if io_fails os IoWrite path then (fs, Inl ''write temporary file'')
      else if io_fails os IoSync path then (fs, Inl ''sync temporary file'')
      else if io_fails os IoPermissions path then (fs, Inl ''set permissions of temporary file'')
      else if io_fails os IoPersist path then (fs, Inl ''persist temporary file'')
      else (fs(path \<mapsto> \<lparr>fl_bytes = encoded, fl_mode = 384\<rparr>),
            if io_fails os IoSyncParent path then Inl ''sync parent directory'' else Inr ()))"

record randoms =
  rn_wrapping_key :: string
  rn_wrapping_nonce :: string
  rn_data_key :: string
  rn_envelope_nonce :: string

definition seal_request_of ::
  "('s, 'e) secret_crates \<Rightarrow> randoms \<Rightarrow> string \<Rightarrow> secrets_error + seal_request" where
  "seal_request_of C rnd payload =
     and_then (ic_material C payload) (\<lambda>plaintext.
     and_then (ic_material C (rn_data_key rnd)) (\<lambda>data_key.
     and_then (identity_envelope_context C) (\<lambda>context.
     and_then (identity_secret_ref C) (\<lambda>reference. Inr
       \<lparr>sq_reference = reference, sq_context = context, sq_plaintext = plaintext, sq_data_key = data_key,
        sq_nonce = rn_envelope_nonce rnd\<rparr>))))"

definition store_encrypted_identity ::
  "('s, 'e) secret_crates \<Rightarrow> io \<Rightarrow> randoms \<Rightarrow> string \<Rightarrow> 's \<Rightarrow> files \<Rightarrow> files \<times> (string + unit)" where
  "store_encrypted_identity C os rnd path identity fs =
     (if io_fails os IoCreateDir path then (fs, Inl ''create parent directory'')
      else case and_then (ic_to_json C (to_file C identity)) (\<lambda>payload.
             map_err (ic_error_text C) (seal_request_of C rnd payload)) of
          Inl e \<Rightarrow> (fs, Inl e)
        | Inr request \<Rightarrow>
            (case ic_seal C (wrap_secret C os (encrypted_identity_key_path path) (rn_wrapping_key rnd) (rn_wrapping_nonce rnd))
                request fs of
               (fs', Inl e) \<Rightarrow> (fs', Inl (ic_error_text C e))
             | (fs', Inr envelope) \<Rightarrow>
                 (case map_err (ic_error_text C) (ic_encode C envelope) of
                    Inl e \<Rightarrow> (fs', Inl e)
                  | Inr encoded \<Rightarrow> persist_envelope os path encoded fs')))"

definition migrate_legacy_identity ::
  "('s, 'e) secret_crates \<Rightarrow> io \<Rightarrow> randoms \<Rightarrow> string \<Rightarrow> 'e \<Rightarrow> envelope_context \<Rightarrow> files \<Rightarrow> files \<times> (string + 's)" where
  "migrate_legacy_identity C os rnd path envelope context fs =
     (let key_path = encrypted_identity_key_path path in
      case map_err (ic_error_text C) (and_then (identity_secret_ref C) (\<lambda>reference.
             and_then (ic_material C (rn_data_key rnd)) (\<lambda>data_key. Inr (reference, data_key)))) of
        Inl e \<Rightarrow> (fs, Inl e)
      | Inr (reference, data_key) \<Rightarrow>
          (case ic_reseal_legacy C (wrap_secret C os key_path (rn_wrapping_key rnd) (rn_wrapping_nonce rnd))
              (unwrap_legacy_v1 C os key_path fs) (valid_identity_payload C) reference
              \<lparr>sq_reference = reference, sq_context = context, sq_plaintext = [], sq_data_key = data_key,
               sq_nonce = rn_envelope_nonce rnd\<rparr> envelope fs of
             (fs', Inl e) \<Rightarrow> (fs', Inl ''migrate legacy encrypted daemon identity'')
           | (fs', Inr resealed) \<Rightarrow>
               (case and_then (open_identity C (unwrap_secret C os key_path fs') resealed context) (\<lambda>identity.
                      map_ok (Pair identity) (map_err (ic_error_text C) (ic_encode C resealed))) of
                  Inl e \<Rightarrow> (fs', Inl e)
                | Inr (identity, encoded) \<Rightarrow>
                    (case persist_envelope os path encoded fs' of
                       (fs'', r) \<Rightarrow> (fs'', map_ok (\<lambda>_. identity) r)))))"

definition load_encrypted_identity ::
  "('s, 'e) secret_crates \<Rightarrow> io \<Rightarrow> randoms \<Rightarrow> string \<Rightarrow> files \<Rightarrow> files \<times> (string + 's)" where
  "load_encrypted_identity C os rnd path fs =
     (case and_then (ok_or ''read identity'' (read_file os path fs)) (\<lambda>encoded.
           and_then (map_err (\<lambda>_. ''decode encrypted daemon identity'') (ic_decode C encoded)) (\<lambda>envelope.
             map_ok (Pair envelope) (map_err (ic_error_text C) (identity_envelope_context C)))) of
        Inl e \<Rightarrow> (fs, Inl e)
      | Inr (envelope, context) \<Rightarrow>
          if ic_version C envelope = ic_legacy_version C
          then migrate_legacy_identity C os rnd path envelope context fs
          else if ic_version C envelope \<noteq> ic_current_version C
          then (fs, Inl ''unsupported encrypted daemon identity version'')
          else (fs, open_identity C (unwrap_secret C os (encrypted_identity_key_path path) fs) envelope context))"

text \<open>\<open>default_path\<close> is what the runtime paths give when no path was chosen, \<open>generated\<close> the fresh keys.\<close>

definition load_service_identity ::
  "('s, 'e) secret_crates \<Rightarrow> io \<Rightarrow> randoms \<Rightarrow> 's \<Rightarrow> string \<Rightarrow> string option \<Rightarrow> bool \<Rightarrow> files \<Rightarrow> files \<times> (string + 's)" where
  "load_service_identity C os rnd generated default_path chosen allow_generate fs =
     (let path = (case chosen of Some p \<Rightarrow> p | None \<Rightarrow> default_path) in
      if fs path \<noteq> None \<and> \<not> io_fails os IoStat path then load_encrypted_identity C os rnd path fs
      else if \<not> allow_generate then (fs, Inl (''daemon identity generation is not allowed at '' @ path))
      else (case store_encrypted_identity C os rnd path generated fs of
              (fs', r) \<Rightarrow> (fs', map_ok (\<lambda>_. generated) r)))"

section \<open>What the crates promise\<close>

definition secrets_ok :: "('s, 'e) secret_crates \<Rightarrow> bool" where
  "secrets_ok C \<longleftrightarrow> ic_current_version C \<noteq> ic_legacy_version C \<and>
     (\<forall>b m. ic_material C b = Inr m \<longrightarrow> m = b) \<and> (\<forall>b m. ic_wrapped C b = Inr m \<longrightarrow> m = b) \<and>
     (\<forall>b m. ic_parse_id C b = Inr m \<longrightarrow> m = b) \<and> (\<forall>n m. ic_key_version C n = Inr m \<longrightarrow> m = n) \<and>
     (\<forall>k n a m c. ic_encrypt C k n a m = Some c \<longrightarrow> ic_decrypt C k n a c = Some m \<and> length c = length m + 16) \<and>
     (\<forall>f b. ic_to_json C f = Inr b \<longrightarrow> ic_from_json C b = Inr f) \<and>
     (\<forall>s. ic_parse_secret C (ic_secret_hex C s) = Inr s) \<and>
     (\<forall>e b. ic_encode C e = Inr b \<longrightarrow> ic_decode C b = Inr e) \<and>
     (\<forall>wrap unwrap valid reference q e fs fs' e'.
        ic_reseal_legacy C wrap unwrap valid reference q e fs = (fs', Inr e') \<longrightarrow> ic_version C e' = ic_current_version C)"

text \<open>Sealing wraps the data key once; the envelope opens to its plaintext for whoever unwraps that key.\<close>

definition sealing_ok :: "('s, 'e) secret_crates \<Rightarrow> bool" where
  "sealing_ok C \<longleftrightarrow> (\<forall>wrap q fs fs' e. ic_seal C wrap q fs = (fs', Inr e) \<longrightarrow>
     ic_version C e = ic_current_version C \<and>
     (\<exists>w. wrap \<lparr>wr_reference = sq_reference q, wr_context = sq_context q, wr_plaintext = sq_data_key q\<rparr> fs = (fs', Inr w) \<and>
        (\<forall>unwrap. unwrap \<lparr>ur_reference = sq_reference q, ur_context = sq_context q, ur_wrapped = w\<rparr> = Inr (sq_data_key q) \<longrightarrow>
           ic_open C unwrap e (sq_context q) = Inr (sq_plaintext q))))"

definition randoms_ok :: "randoms \<Rightarrow> bool" where
  "randoms_ok rnd \<longleftrightarrow> length (rn_wrapping_key rnd) = 32 \<and> length (rn_wrapping_nonce rnd) = 24"

definition reads_ok :: "io \<Rightarrow> bool" where
  "reads_ok os \<longleftrightarrow> (\<forall>p. \<not> io_fails os IoRead p \<and> \<not> io_fails os IoStat p)"

section \<open>Lemmas\<close>

lemma key_path_neq [simp]: "encrypted_identity_key_path path \<noteq> path" "path \<noteq> encrypted_identity_key_path path"
  by (simp_all add: encrypted_identity_key_path_def)

lemma read_key_frame: "fs key_path = fs' key_path \<Longrightarrow> read_key os key_path fs = read_key os key_path fs'"
  by (simp add: read_key_def read_file_def)

lemma unwrap_frame: "fs key_path = fs' key_path \<Longrightarrow> unwrap_secret C os key_path fs = unwrap_secret C os key_path fs'"
  by (simp add: fun_eq_iff unwrap_secret_def unwrap_with_aad_def read_key_frame [of fs key_path fs'])

lemma created_key_reads:
  assumes "load_or_create_key os key_path random fs = (fs', Inr key)" and "length random = 32" and "reads_ok os"
  shows "read_key os key_path fs' = Inr key" and "\<forall>p. p \<noteq> key_path \<longrightarrow> fs' p = fs p"
  using assms
  by (auto simp: load_or_create_key_def create_key_file_def read_key_def read_file_def reads_ok_def key_from_bytes_def Let_def
      split: option.splits if_splits)

lemma wrapped_unwraps:
  assumes "secrets_ok C" and "randoms_ok rnd" and "reads_ok os"
    and "wrap_secret C os key_path (rn_wrapping_key rnd) (rn_wrapping_nonce rnd)
      \<lparr>wr_reference = reference, wr_context = context', wr_plaintext = data_key\<rparr> fs = (fs', Inr w)"
    and "ic_material C data_key = Inr data_key"
  shows "unwrap_secret C os key_path fs' \<lparr>ur_reference = reference, ur_context = context', ur_wrapped = w\<rparr> = Inr data_key"
    and "\<forall>p. p \<noteq> key_path \<longrightarrow> fs' p = fs p"
proof -
  let ?aad = "wrapping_aad C reference context'"
  obtain key c where valid: "validate_daemon_reference reference OpWrap = Inr ()"
    and key: "load_or_create_key os key_path (rn_wrapping_key rnd) fs = (fs', Inr key)"
    and c: "ic_encrypt C key (rn_wrapping_nonce rnd) ?aad data_key = Some c"
    and w: "ic_wrapped C (CHR 0x02 # rn_wrapping_nonce rnd @ c) = Inr w"
    using assms(4) by (auto simp: wrap_secret_def and_then_eq_Inr split: sum.splits prod.splits)
  have w': "w = CHR 0x02 # rn_wrapping_nonce rnd @ c" using w assms(1) by (simp add: secrets_ok_def)
  have "length (rn_wrapping_nonce rnd) = 24" "length (rn_wrapping_key rnd) = 32" using assms(2) by (simp_all add: randoms_ok_def)
  note reads = created_key_reads [OF key this(2) assms(3)]
  have dec: "ic_decrypt C key (rn_wrapping_nonce rnd) ?aad c = Some data_key" "length c = length data_key + 16"
    using c assms(1) unfolding secrets_ok_def by blast+
  then have "c \<noteq> []" by auto
  have ok: "validate_daemon_reference reference OpUnwrap = Inr ()"
    using valid by (simp add: validate_daemon_reference_def split: if_splits)
  show "unwrap_secret C os key_path fs' \<lparr>ur_reference = reference, ur_context = context', ur_wrapped = w\<rparr> = Inr data_key"
    using reads(1) dec(1) \<open>c \<noteq> []\<close> assms(5) \<open>length (rn_wrapping_nonce rnd) = 24\<close>
    by (simp add: unwrap_secret_def unwrap_with_aad_def ok w')
  show "\<forall>p. p \<noteq> key_path \<longrightarrow> fs' p = fs p" by (rule reads(2))
qed

lemma is_ok_map_ok: "is_ok (map_ok g r) = is_ok r"
  by (cases r) simp_all

text \<open>What sealing needs of a way of wrapping keys, and what it gives: an envelope that was sealed opens
  on the files that sealing left.\<close>

locale key_wrapping =
  fixes usable :: bool
    and wrap :: wrapper
    and unwrap :: "files \<Rightarrow> unwrapper"
    and admits :: "string \<Rightarrow> bool"
  assumes wrapped_opens: "usable \<Longrightarrow> admits data_key \<Longrightarrow>
    wrap \<lparr>wr_reference = reference, wr_context = context', wr_plaintext = data_key\<rparr> fs = (fs', Inr w) \<Longrightarrow>
    unwrap fs' \<lparr>ur_reference = reference, ur_context = context', ur_wrapped = w\<rparr> = Inr data_key"
begin

lemma sealed_opens:
  assumes "usable" and "sealing_ok C" and "ic_seal C wrap q fs = (fs', Inr e)" and "admits (sq_data_key q)"
  shows "ic_version C e = ic_current_version C \<and> ic_open C (unwrap fs') e (sq_context q) = Inr (sq_plaintext q)"
proof -
  obtain w where "ic_version C e = ic_current_version C"
    and w: "wrap \<lparr>wr_reference = sq_reference q, wr_context = sq_context q, wr_plaintext = sq_data_key q\<rparr> fs = (fs', Inr w)"
    and opens: "\<forall>u. u \<lparr>ur_reference = sq_reference q, ur_context = sq_context q, ur_wrapped = w\<rparr> = Inr (sq_data_key q) \<longrightarrow>
        ic_open C u e (sq_context q) = Inr (sq_plaintext q)"
    using assms(2,3) unfolding sealing_ok_def by blast
  then show ?thesis using opens [THEN spec, of "unwrap fs'"] wrapped_opens [OF assms(1,4) w] by blast
qed

end

interpretation key_file: key_wrapping "secrets_ok C \<and> randoms_ok rnd \<and> reads_ok os"
  "wrap_secret C os key_path (rn_wrapping_key rnd) (rn_wrapping_nonce rnd)" "unwrap_secret C os key_path"
  "\<lambda>data_key. ic_material C data_key = Inr data_key" for C os key_path rnd
  by unfold_locales (use wrapped_unwraps(1) in blast)

lemma from_to_file: "secrets_ok C \<Longrightarrow> from_file C (to_file C s) = Inr s"
  by (simp add: from_file_def to_file_def secrets_ok_def)

lemma persisted:
  assumes "persist_envelope os path encoded fs = (fs', Inr ())"
  shows "fs' = fs(path \<mapsto> \<lparr>fl_bytes = encoded, fl_mode = 384\<rparr>)"
  using assms by (auto simp: persist_envelope_def split: if_splits)

text \<open>A persisted envelope of the current version opens again.\<close>

lemma persisted_loads:
  assumes "secrets_ok C" and "reads_ok os" and "persist_envelope os path encoded fs = (fs', Inr ())"
    and "ic_encode C e = Inr encoded" and "ic_version C e = ic_current_version C"
    and "identity_envelope_context C = Inr context'"
    and "open_identity C (unwrap_secret C os (encrypted_identity_key_path path) fs) e context' = Inr s"
  shows "load_encrypted_identity C os rnd path fs' = (fs', Inr s)"
proof -
  have fs': "fs' = fs(path \<mapsto> \<lparr>fl_bytes = encoded, fl_mode = 384\<rparr>)" using assms(3) by (rule persisted)
  have "ic_decode C encoded = Inr e" using assms(1,4) by (simp add: secrets_ok_def)
  moreover have "read_file os path fs' = Some encoded" using assms(2) by (simp add: fs' read_file_def reads_ok_def)
  moreover have "unwrap_secret C os (encrypted_identity_key_path path) fs' = unwrap_secret C os (encrypted_identity_key_path path) fs"
    by (rule unwrap_frame) (simp add: fs')
  ultimately show ?thesis
    using assms(1,5-7) by (simp add: load_encrypted_identity_def secrets_ok_def)
qed

lemma stored_identity_loads:
  assumes "secrets_ok C" and "sealing_ok C" and "randoms_ok rnd" and "reads_ok os"
    and "store_encrypted_identity C os rnd path s fs = (fs', Inr ())"
  shows "load_encrypted_identity C os rnd' path fs' = (fs', Inr s)" and "fs' path \<noteq> None"
proof -
  let ?kp = "encrypted_identity_key_path path"
  obtain payload q fs1 e encoded where json: "ic_to_json C (to_file C s) = Inr payload"
    and q: "seal_request_of C rnd payload = Inr q"
    and seal: "ic_seal C (wrap_secret C os ?kp (rn_wrapping_key rnd) (rn_wrapping_nonce rnd)) q fs = (fs1, Inr e)"
    and enc: "ic_encode C e = Inr encoded" and persist: "persist_envelope os path encoded fs1 = (fs', Inr ())"
    using assms(5)
    by (auto simp: store_encrypted_identity_def and_then_eq_Inr split: if_splits sum.splits prod.splits)
  obtain context' where context': "identity_envelope_context C = Inr context'" "sq_context q = context'"
    and plaintext: "ic_material C payload = Inr (sq_plaintext q)" and data_key: "ic_material C (rn_data_key rnd) = Inr (sq_data_key q)"
    using q by (auto simp: seal_request_of_def and_then_eq_Inr)
  have material: "m = b" if "ic_material C b = Inr m" for b m using assms(1) that by (simp add: secrets_ok_def)
  have same: "sq_plaintext q = payload" "sq_data_key q = rn_data_key rnd"
    using material [OF plaintext] material [OF data_key] by simp_all
  have usable: "secrets_ok C \<and> randoms_ok rnd \<and> reads_ok os" using assms(1,3,4) by blast
  have "ic_material C (sq_data_key q) = Inr (sq_data_key q)" using data_key same(2) by simp
  note sealed = key_file.sealed_opens [OF usable assms(2) seal this]
  then have version: "ic_version C e = ic_current_version C" and
    "ic_open C (unwrap_secret C os ?kp fs1) e (sq_context q) = Inr payload" by (simp_all add: same(1))
  moreover have "ic_from_json C payload = Inr (to_file C s)" using json assms(1) unfolding secrets_ok_def by blast
  ultimately have "open_identity C (unwrap_secret C os ?kp fs1) e context' = Inr s"
    using from_to_file [OF assms(1), of s] by (simp add: open_identity_def context'(2))
  from persisted_loads [OF assms(1,4) persist enc version context'(1) this]
  show "load_encrypted_identity C os rnd' path fs' = (fs', Inr s)" .
  show "fs' path \<noteq> None" using persisted [OF persist] by simp
qed

lemma migrated_identity_loads:
  assumes "secrets_ok C" and "reads_ok os" and "identity_envelope_context C = Inr context'"
    and "migrate_legacy_identity C os rnd path e context' fs = (fs', Inr s)"
  shows "load_encrypted_identity C os rnd' path fs' = (fs', Inr s)" and "fs' path \<noteq> None"
proof -
  let ?kp = "encrypted_identity_key_path path"
  obtain q fs1 e' reference encoded where
    reseal: "ic_reseal_legacy C (wrap_secret C os ?kp (rn_wrapping_key rnd) (rn_wrapping_nonce rnd))
      (unwrap_legacy_v1 C os ?kp fs) (valid_identity_payload C) reference q e fs = (fs1, Inr e')"
    and opened: "open_identity C (unwrap_secret C os ?kp fs1) e' context' = Inr s"
    and enc: "ic_encode C e' = Inr encoded" and persist: "persist_envelope os path encoded fs1 = (fs', Inr ())"
    using assms(4)
    by (auto simp: migrate_legacy_identity_def Let_def and_then_eq_Inr map_ok_eq_Inr split: sum.splits prod.splits)
  have "ic_version C e' = ic_current_version C" using reseal assms(1) unfolding secrets_ok_def by blast
  from persisted_loads [OF assms(1,2) persist enc this assms(3) opened]
  show "load_encrypted_identity C os rnd' path fs' = (fs', Inr s)" .
  show "fs' path \<noteq> None" using persisted [OF persist] by simp
qed

lemma loaded_identity_loads:
  assumes "secrets_ok C" and "reads_ok os" and "load_encrypted_identity C os rnd path fs = (fs', Inr s)"
  shows "load_encrypted_identity C os rnd' path fs' = (fs', Inr s)" and "fs' path \<noteq> None"
proof -
  obtain encoded e context' where read: "read_file os path fs = Some encoded" "ic_decode C encoded = Inr e"
    and context': "identity_envelope_context C = Inr context'"
    and loaded: "(if ic_version C e = ic_legacy_version C then migrate_legacy_identity C os rnd path e context' fs
      else if ic_version C e \<noteq> ic_current_version C then (fs, Inl ''unsupported encrypted daemon identity version'')
      else (fs, open_identity C (unwrap_secret C os (encrypted_identity_key_path path) fs) e context')) = (fs', Inr s)"
    using assms(3) unfolding load_encrypted_identity_def
    by (cases "read_file os path fs"; cases "ic_decode C (the (read_file os path fs))"; cases "identity_envelope_context C") auto
  have "load_encrypted_identity C os rnd' path fs' = (fs', Inr s) \<and> fs' path \<noteq> None"
  proof (cases "ic_version C e = ic_legacy_version C")
    case True
    then have "migrate_legacy_identity C os rnd path e context' fs = (fs', Inr s)" using loaded by simp
    from migrated_identity_loads [OF assms(1,2) context' this] show ?thesis by blast
  next
    case False
    then have same: "fs' = fs" and version: "ic_version C e = ic_current_version C" using loaded by (auto split: if_splits)
    moreover have "fs path \<noteq> None" using read(1) by (auto simp: read_file_def split: if_splits)
    moreover have "open_identity C (unwrap_secret C os (encrypted_identity_key_path path) fs) e context' = Inr s"
      using loaded False version by auto
    ultimately show ?thesis
      using read context' False by (simp add: load_encrypted_identity_def same)
  qed
  then show "load_encrypted_identity C os rnd' path fs' = (fs', Inr s)" and "fs' path \<noteq> None" by auto
qed

section \<open>Properties\<close>

text \<open>C14. The daemon keeps its identity: whatever the first start did, generate an identity, load the
  stored one, or migrate one in the legacy format, every later start on the files it left gives
  the same identity and changes no file, whether or not it may generate identities, given that
  files can be read and the cryptographic crates keep their promises.\<close>

theorem identity_survives_restart:
  assumes "secrets_ok C" and "sealing_ok C" and "randoms_ok rnd" and "reads_ok os"
    and "load_service_identity C os rnd generated default_path chosen allow fs = (fs', Inr s)"
  shows "load_service_identity C os rnd' generated' default_path chosen allow' fs' = (fs', Inr s)"
proof -
  let ?path = "case chosen of Some p \<Rightarrow> p | None \<Rightarrow> default_path"
  have stat: "\<not> io_fails os IoStat ?path" using assms(4) by (simp add: reads_ok_def)
  have "load_encrypted_identity C os rnd' ?path fs' = (fs', Inr s) \<and> fs' ?path \<noteq> None"
  proof (cases "fs ?path")
    case None
    then have "store_encrypted_identity C os rnd ?path generated fs = (fs', Inr ()) \<and> s = generated"
      using assms(5) by (auto simp: load_service_identity_def Let_def map_ok_eq_Inr split: if_splits prod.splits)
    then show ?thesis using stored_identity_loads [OF assms(1-4)] by blast
  next
    case (Some f)
    then have "load_encrypted_identity C os rnd ?path fs = (fs', Inr s)"
      using assms(5) stat by (simp add: load_service_identity_def Let_def)
    then show ?thesis using loaded_identity_loads [OF assms(1,4)] by blast
  qed
  then show ?thesis using stat by (auto simp: load_service_identity_def Let_def)
qed


section \<open>A sample of the crates\<close>

text \<open>A cipher that adds a tag, an envelope that keeps its parts, and codecs of one file.\<close>

definition sample_file :: identity_file where
  "sample_file = \<lparr>if_secret_key = ''k'', if_public_key = Some ''k'', if_identifier = None, if_metadata = None,
     if_application_handler = None\<rparr>"

definition sample_reference :: secret_ref where
  "sample_reference = \<lparr>sr_id = ''radrootsd_identity'', sr_backend = External, sr_key_version = 1\<rparr>"

definition sample_randoms :: randoms where
  "sample_randoms = \<lparr>rn_wrapping_key = replicate 32 CHR ''w'', rn_wrapping_nonce = replicate 24 CHR ''n'',
     rn_data_key = ''d'', rn_envelope_nonce = ''o''\<rparr>"

definition sample_envelope :: "nat \<times> secret_ref \<times> string \<times> string" where
  "sample_envelope = (2, sample_reference, CHR 0x02 # replicate 24 CHR ''n'' @ replicate 16 CHR ''t'' @ ''d'', ''json'')"

definition sample_seal ::
  "wrapper \<Rightarrow> seal_request \<Rightarrow> files \<Rightarrow> files \<times> (secrets_error + nat \<times> secret_ref \<times> string \<times> string)" where
  "sample_seal wrap q fs =
     (case wrap \<lparr>wr_reference = sq_reference q, wr_context = sq_context q, wr_plaintext = sq_data_key q\<rparr> fs of
        (fs', Inl e) \<Rightarrow> (fs', Inl e)
      | (fs', Inr w) \<Rightarrow> (fs', Inr (2, sq_reference q, w, sq_plaintext q)))"

definition sample_open ::
  "unwrapper \<Rightarrow> nat \<times> secret_ref \<times> string \<times> string \<Rightarrow> envelope_context \<Rightarrow> secrets_error + string" where
  "sample_open unwrap e context' = (case e of (v, reference, w, plaintext) \<Rightarrow>
     and_then (unwrap \<lparr>ur_reference = reference, ur_context = context', ur_wrapped = w\<rparr>) (\<lambda>_. Inr plaintext))"

definition sample_secrets :: "(string, nat \<times> secret_ref \<times> string \<times> string) secret_crates" where
  "sample_secrets =
     \<lparr>ic_encrypt = \<lambda>k n a m. Some (replicate 16 CHR ''t'' @ m), ic_decrypt = \<lambda>k n a c. Some (drop 16 c),
      ic_material = Inr, ic_wrapped = Inr, ic_parse_id = Inr, ic_key_version = Inr,
      ic_parse_purpose = Inr, ic_parse_subject = \<lambda>a b. Inr (a, b), ic_parse_schema = Inr,
      ic_digest = \<lambda>c. replicate 32 CHR ''0'', ic_seal = sample_seal, ic_open = sample_open,
      ic_reseal_legacy = \<lambda>wrap unwrap valid reference q e fs. (fs, Inl (SecretsOther ''unsupported'')),
      ic_version = fst, ic_current_version = 2, ic_legacy_version = 1,
      ic_encode = \<lambda>e. if e = sample_envelope then Inr ''envelope'' else Inl (SecretsOther ''encode''),
      ic_decode = \<lambda>b. if b = ''envelope'' then Inr sample_envelope else Inl (SecretsOther ''decode''),
      ic_to_json = \<lambda>f. if f = sample_file then Inr ''json'' else Inl ''encode'',
      ic_from_json = \<lambda>b. if b = ''json'' then Inr sample_file else Inl ''decode'',
      ic_parse_secret = Inr, ic_secret_hex = id, ic_public_hex = id, ic_error_text = \<lambda>_. ''error''\<rparr>"

definition sample_io :: io where
  "sample_io = \<lparr>io_fails = \<lambda>_ _. False, io_written = 0, io_default_mode = 420\<rparr>"

lemma sample_secrets_ok: "secrets_ok sample_secrets"
  by (simp add: secrets_ok_def sample_secrets_def)

lemma sample_sealing_ok: "sealing_ok sample_secrets"
  by (auto simp: sealing_ok_def sample_secrets_def sample_seal_def sample_open_def split: prod.splits sum.splits)

lemma sample_randoms_ok: "randoms_ok sample_randoms"
  by (simp add: randoms_ok_def sample_randoms_def)

lemma sample_reads_ok: "reads_ok sample_io"
  by (simp add: reads_ok_def sample_io_def)

definition identity_files :: files where
  "identity_files = [''id'' \<mapsto> \<lparr>fl_bytes = ''envelope'', fl_mode = 384\<rparr>,
     ''id.key'' \<mapsto> \<lparr>fl_bytes = replicate 32 CHR ''w'', fl_mode = 384\<rparr>]"

lemma sample_generates:
  assumes "fs ''id'' = None" and "fs ''id.key'' = None" and "chosen \<in> {None, Some ''id''}"
  shows "load_service_identity sample_secrets sample_io sample_randoms ''k'' ''id'' chosen True fs =
    (fs ++ identity_files, Inr ''k'')"
proof -
  have request: "seal_request_of sample_secrets sample_randoms ''json'' = Inr
     \<lparr>sq_reference = sample_reference,
      sq_context = \<lparr>ec_purpose = ''radroots.service_identity'', ec_subject = (''service'', ''radrootsd''), ec_schema = ''radroots.daemon_identity.v1''\<rparr>,
      sq_plaintext = ''json'', sq_data_key = ''d'', sq_nonce = ''o''\<rparr>"
    by (simp add: seal_request_of_def sample_secrets_def sample_randoms_def identity_envelope_context_def identity_secret_ref_def
        sample_reference_def)
  have json: "ic_to_json sample_secrets (to_file sample_secrets ''k'') = Inr ''json''"
    by (simp add: sample_secrets_def to_file_def sample_file_def)
  let ?key = "fs(''id.key'' \<mapsto> \<lparr>fl_bytes = replicate 32 CHR ''w'', fl_mode = 384\<rparr>)"
  have key: "load_or_create_key sample_io ''id.key'' (replicate 32 CHR ''w'') fs = (?key, Inr (replicate 32 CHR ''w''))"
    by (simp add: load_or_create_key_def create_key_file_def read_file_def sample_io_def assms)
  have wrap: "wrap_secret sample_secrets sample_io ''id.key'' (replicate 32 CHR ''w'') (replicate 24 CHR ''n'')
      \<lparr>wr_reference = sample_reference, wr_context = c, wr_plaintext = ''d''\<rparr> fs =
      (?key, Inr (CHR 0x02 # replicate 24 CHR ''n'' @ replicate 16 CHR ''t'' @ ''d''))" for c
    by (simp add: wrap_secret_def key validate_daemon_reference_def sample_reference_def) (simp add: sample_secrets_def)
  have seal: "ic_seal sample_secrets (wrap_secret sample_secrets sample_io ''id.key'' (replicate 32 CHR ''w'') (replicate 24 CHR ''n''))
     \<lparr>sq_reference = sample_reference, sq_context = c, sq_plaintext = ''json'', sq_data_key = ''d'', sq_nonce = ''o''\<rparr> fs =
     (?key, Inr sample_envelope)" for c
    using wrap [of c] by (simp add: sample_seal_def sample_envelope_def) (simp add: sample_secrets_def sample_seal_def)
  have encoded: "ic_encode sample_secrets sample_envelope = Inr ''envelope''" by (simp add: sample_secrets_def)
  have randoms: "rn_wrapping_key sample_randoms = replicate 32 CHR ''w''" "rn_wrapping_nonce sample_randoms = replicate 24 CHR ''n''"
    by (simp_all add: sample_randoms_def)
  have io: "\<not> io_fails sample_io op p" for op p by (simp add: sample_io_def)
  have "store_encrypted_identity sample_secrets sample_io sample_randoms ''id'' ''k'' fs = (fs ++ identity_files, Inr ())"
    by (simp add: store_encrypted_identity_def json request seal encrypted_identity_key_path_def randoms io encoded
        persist_envelope_def identity_files_def fun_upd_twist del: replicate.simps)
  then show ?thesis using assms(3) by (auto simp: load_service_identity_def assms(1,2))
qed

lemma sample_first_start:
  "load_service_identity sample_secrets sample_io sample_randoms ''k'' ''id'' None True Map.empty = (identity_files, Inr ''k'')"
  using sample_generates [of Map.empty None] by simp

lemma identity_survives_restart_witness:
  "load_service_identity sample_secrets sample_io sample_randoms ''other'' ''id'' None False identity_files = (identity_files, Inr ''k'')"
  by (rule identity_survives_restart [OF sample_secrets_ok sample_sealing_ok sample_randoms_ok sample_reads_ok sample_first_start])



end
