(* ===== verification/Daemon_Runtime.thy ===== *)
theory Daemon_Runtime
  imports Store_Schema Publish_Rpc Nip46_Rpc Daemon_Settings Identity_Storage
begin

text \<open>
  The daemon as a process, \<open>src/app/runtime.rs\<close> with the arguments of \<open>src/app/cli.rs\<close>: loading the
  settings, the command that creates a principal and writes its token (\<open>write_token_file\<close> of
  \<open>src/core/transport_publish.rs\<close>), the start of the service (\<open>src/core/state.rs\<close>,
  \<open>src/transport/jsonrpc/mod.rs\<close>, \<open>server.rs\<close>), and its presence on the relays.  The command-line and
  TOML parsers, logging, sockets, relays and the tokio runtime are parameters.
\<close>

section \<open>Arguments\<close>

record service_cli_args =
  sa_config :: "string option"
  sa_identity :: "string option"
  sa_allow_generate_identity :: bool

record principal_init_args =
  pa_label :: string
  pa_token_file :: string
  pa_allowed_pubkey :: "string list"
  pa_allowed_kind :: "u32 list"
  pa_allowed_target_policy :: "string list"
  pa_allowed_explicit_transport_kind :: "string list"
  pa_allowed_nostr_source_policy :: "string list"
  pa_job_visibility :: string
  pa_allow_request_targets :: bool

datatype command = PrincipalInit principal_init_args

record cli_args =
  ca_service :: service_cli_args
  ca_command :: "command option"

section \<open>The machine\<close>

text \<open>Ordinary files, and the databases with what SQLite finds in them.\<close>

record machine =
  mc_files :: files
  mc_stores :: "string \<rightharpoonup> store_file"

text \<open>The two writes of a token file are one sequence of bytes; a failing write leaves its first bytes.\<close>

definition write_token_file :: "io \<Rightarrow> string \<Rightarrow> string \<Rightarrow> machine \<Rightarrow> machine \<times> (tp_error + unit)" where
  "write_token_file os path token M =
     (let bytes = token @ [CHR 0x0A];
          written = (\<lambda>bs. M\<lparr>mc_files := (mc_files M)(path \<mapsto> \<lparr>fl_bytes = bs, fl_mode = 384\<rparr>)\<rparr>) in
      if io_fails os IoCreateDir path then (M, Inl (TpIo ''create parent directory''))
      else if mc_files M path \<noteq> None \<or> mc_stores M path \<noteq> None then (M, Inl (TpIo ''File exists''))
      else if io_fails os IoOpen path then (M, Inl (TpIo ''create token file''))
      else if io_fails os IoWrite path
      then (written (take (io_written os) bytes), Inl (TpIo ''write token file''))
      else (written bytes, Inr ()))"

text \<open>Connecting fails when SQLite cannot open or create the file, or it is not a database.\<close>

definition connect_sqlite :: "io \<Rightarrow> string \<Rightarrow> machine \<Rightarrow> tp_error + store_file" where
  "connect_sqlite os path M =
     (if io_fails os IoOpen path then Inl (TpSqlite (SqlxOther ''unable to open database file''))
      else Inr (case mc_stores M path of Some f \<Rightarrow> f | None \<Rightarrow> new_file))"

definition open_store ::
  "io \<Rightarrow> publish_crates \<Rightarrow> codecs \<Rightarrow> int \<Rightarrow> string \<Rightarrow> machine \<Rightarrow> machine \<times> (tp_error + unit)" where
  "open_store os P K now path M =
     (if io_fails os IoCreateDir path then (M, Inl (TpIo ''create parent directory''))
      else case connect_sqlite os path M of
          Inl e \<Rightarrow> (M, Inl e)
        | Inr f \<Rightarrow>
            (case from_connection P K now f of
               (f', r) \<Rightarrow> (M\<lparr>mc_stores := (mc_stores M)(path \<mapsto> f')\<rparr>, r)))"

section \<open>Making a principal\<close>

record 's draws =
  dr_token_bytes :: string
  dr_principal_id :: string
  dr_opened_at :: int
  dr_created_at :: int
  dr_identity :: 's
  dr_randoms :: randoms

definition principal_init_of ::
  "publish_crates \<Rightarrow> string \<Rightarrow> principal_init_args \<Rightarrow> tp_error + principal_init" where
  "principal_init_of P token_hash a =
     and_then (collect_results parse_target_policy (pa_allowed_target_policy a)) (\<lambda>policies.
     and_then (collect_results (parse_explicit_transport_kind P) (pa_allowed_explicit_transport_kind a)) (\<lambda>kinds.
     and_then (collect_results parse_nostr_source_policy (pa_allowed_nostr_source_policy a)) (\<lambda>sources.
     and_then (visibility_from_str (pa_job_visibility a)) (\<lambda>visibility. Inr
       \<lparr>pi_label = pa_label a, pi_token_hash = token_hash, pi_allowed_pubkeys = pa_allowed_pubkey a,
        pi_allowed_kinds = pa_allowed_kind a, pi_allowed_target_policies = policies,
        pi_allowed_explicit_transport_kinds = kinds, pi_allowed_nostr_source_policies = sources,
        pi_allow_request_targets = pa_allow_request_targets a, pi_job_visibility = visibility,
        pi_expires_at_unix = None\<rparr>))))"

record printed =
  out_principal_id :: string
  out_label :: string
  out_token_file :: string
  out_database_path :: string

definition store_principal ::
  "publish_crates \<Rightarrow> codecs \<Rightarrow> string \<Rightarrow> int \<Rightarrow> principal_init \<Rightarrow> string \<Rightarrow> machine
     \<Rightarrow> machine \<times> (tp_error + principal)" where
  "store_principal P K principal_id now i path M =
     (case mc_stores M path of
        None \<Rightarrow> (M, Inl (TpSqlite (SqlxOther ''closed'')))
      | Some f \<Rightarrow>
          (case create_principal P K principal_id now i (sf_data f) of
             (d, r) \<Rightarrow> (M\<lparr>mc_stores := (mc_stores M)(path \<mapsto> f\<lparr>sf_data := d\<rparr>)\<rparr>, r)))"

definition handle_command ::
  "io \<Rightarrow> publish_crates \<Rightarrow> codecs \<Rightarrow> 's draws \<Rightarrow> command \<Rightarrow> settings \<Rightarrow> machine \<Rightarrow> machine \<times> (tp_error + printed)" where
  "handle_command os P K dr command s M = (case command of PrincipalInit a \<Rightarrow>
     (let token = bearer_token (dr_token_bytes dr); token_hash = hash_bearer_token P token;
          path = tp_database_path (st_transport_publish s) in
      case open_store os P K (dr_opened_at dr) path M of
        (M1, Inl e) \<Rightarrow> (M1, Inl e)
      | (M1, Inr _) \<Rightarrow>
          (case principal_init_of P token_hash a of
             Inl e \<Rightarrow> (M1, Inl e)
           | Inr i \<Rightarrow>
               (case store_principal P K (dr_principal_id dr) (dr_created_at dr) i path M1 of
                  (M2, Inl e) \<Rightarrow> (M2, Inl e)
                | (M2, Inr p) \<Rightarrow>
                    (case write_token_file os (pa_token_file a) token M2 of
                       (M3, r) \<Rightarrow> (M3, map_ok (\<lambda>_.
                          \<lparr>out_principal_id = pp_principal_id p, out_label = pp_label p,
                           out_token_file = pa_token_file a, out_database_path = path\<rparr>) r))))))"

section \<open>Presence\<close>

record handler_spec =
  hs_kinds :: "u32 list"
  hs_identifier :: "string option"
  hs_metadata :: metadata
  hs_extra_tags :: "string list list"
  hs_relays :: "string list"
  hs_nostr_connect_url :: "string option"

text \<open>The builders of \<open>radroots_nostr\<close>, and what the relay client sees: whether a relay is connected
  after the wait, and the relays that took an event.\<close>

record ('p, 'u) presence_crates =
  pz_build_profile :: "'p \<Rightarrow> string + 'u"
  pz_build_handler :: "handler_spec \<Rightarrow> string + 'u"
  pz_sign :: "keys \<Rightarrow> 'u \<Rightarrow> string + event"
  pz_connected :: bool
  pz_send :: "event \<Rightarrow> string + string list"

text \<open>The kind of NIP-46 events is 24133.\<close>

definition service_presence_kinds :: "u32 list" where
  "service_presence_kinds = remdups_adj (sort [24133])"

definition build_service_presence_events ::
  "('p, 'u) presence_crates \<Rightarrow> keys \<Rightarrow> 'p \<Rightarrow> handler_spec \<Rightarrow> string + event \<times> event" where
  "build_service_presence_events X ks profile spec =
     and_then (map_err (\<lambda>_. ''build service Profile event'') (pz_build_profile X profile)) (\<lambda>u.
     and_then (map_err (\<lambda>_. ''sign service Profile event'') (pz_sign X ks u)) (\<lambda>profile_event.
     and_then (map_err (\<lambda>_. ''build NIP-89 application handler event'') (pz_build_handler X spec)) (\<lambda>v.
     and_then (map_err (\<lambda>_. ''sign NIP-89 application handler event'') (pz_sign X ks v)) (\<lambda>handler_event.
       Inr (profile_event, handler_event)))))"

definition publish_presence_event ::
  "('p, 'u) presence_crates \<Rightarrow> event \<Rightarrow> string \<Rightarrow> string + unit" where
  "publish_presence_event X e event_name =
     and_then (map_err (\<lambda>_. ''publish '' @ event_name) (pz_send X e)) (\<lambda>success.
       if success = [] then Inl (event_name @ '' publication did not succeed on any relay'') else Inr ())"

text \<open>The events that were handed to the relay client, in order, and the result.\<close>

definition bootstrap_presence ::
  "('p, 'u) presence_crates \<Rightarrow> keys \<Rightarrow> 'p \<Rightarrow> handler_spec \<Rightarrow> event list \<times> (string + unit)" where
  "bootstrap_presence X ks profile spec =
     (case build_service_presence_events X ks profile spec of
        Inl e \<Rightarrow> ([], Inl e)
      | Inr (profile_event, handler_event) \<Rightarrow>
          if \<not> pz_connected X then ([], Inl ''service presence requires at least one connected relay'')
          else case publish_presence_event X profile_event ''service Profile'' of
              Inl e \<Rightarrow> ([profile_event], Inl e)
            | Inr _ \<Rightarrow> ([profile_event, handler_event],
                 publish_presence_event X handler_event ''NIP-89 application handler''))"

definition publish_service_presence ::
  "('p, 'u) presence_crates \<Rightarrow> keys \<Rightarrow> 'p \<Rightarrow> metadata \<Rightarrow> service_config \<Rightarrow> nip46_config \<Rightarrow> event list \<times> (string + unit)" where
  "publish_service_presence X ks profile md service nip46 =
     bootstrap_presence X ks profile
       \<lparr>hs_kinds = service_presence_kinds, hs_identifier = sc_nip89_identifier service, hs_metadata = md,
        hs_extra_tags = sc_nip89_extra_tags service, hs_relays = sc_relays service,
        hs_nostr_connect_url = n46_nostrconnect_url nip46\<rparr>"

section \<open>The startup report\<close>

definition config_or_profile_path_source :: "string \<Rightarrow> string \<Rightarrow> string" where
  "config_or_profile_path_source actual canonical =
     (if actual = canonical then ''profile_default'' else ''config_artifact'')"

definition cli_or_profile_path_source :: "bool \<Rightarrow> string \<Rightarrow> string \<Rightarrow> string" where
  "cli_or_profile_path_source is_cli_arg actual canonical =
     (if is_cli_arg then ''cli_arg'' else config_or_profile_path_source actual canonical)"

record startup_report =
  sr_active_profile :: string
  sr_paths :: runtime_paths
  sr_config_source :: string
  sr_logs_source :: string
  sr_identity_source :: string
  sr_database_source :: string
  sr_canonical_paths :: runtime_paths
  sr_path_overrides :: path_overrides
  sr_default_shared_secret_backend :: string
  sr_allowed_shared_secret_backends :: "string list"

definition runtime_startup_report :: "cli_args \<Rightarrow> settings \<Rightarrow> runtime_contract \<Rightarrow> startup_report" where
  "runtime_startup_report args s c =
     (let canonical = rc_canonical_paths c; config = sa_config (ca_service args);
          identity = sa_identity (ca_service args);
          config_path = or_default config (rp_config_path canonical);
          identity_path = or_default identity (rp_identity_path canonical);
          logs_dir = sc_logs_dir (st_service s); database_path = tp_database_path (st_transport_publish s) in
      \<lparr>sr_active_profile = rc_active_profile c,
       sr_paths = \<lparr>rp_config_path = config_path, rp_logs_dir = logs_dir, rp_identity_path = identity_path,
         rp_database_path = database_path\<rparr>,
       sr_config_source = cli_or_profile_path_source (config \<noteq> None) config_path (rp_config_path canonical),
       sr_logs_source = config_or_profile_path_source logs_dir (rp_logs_dir canonical),
       sr_identity_source = cli_or_profile_path_source (identity \<noteq> None) identity_path (rp_identity_path canonical),
       sr_database_source = config_or_profile_path_source database_path (rp_database_path canonical),
       sr_canonical_paths = canonical, sr_path_overrides = rc_path_overrides c,
       sr_default_shared_secret_backend = rc_default_shared_secret_backend c,
       sr_allowed_shared_secret_backends = rc_allowed_shared_secret_backends c\<rparr>)"

section \<open>Starting\<close>

record server_config =
  sv_max_request_body_size :: u32
  sv_max_response_body_size :: u32
  sv_max_connections :: u32
  sv_max_subscriptions_per_connection :: u32
  sv_message_buffer_capacity :: u32
  sv_batch_request_config :: batch_request_config

definition server_config_of :: "rpc_config \<Rightarrow> server_config" where
  "server_config_of rpc =
     \<lparr>sv_max_request_body_size = rpc_cfg_max_request_body_size rpc,
      sv_max_response_body_size = rpc_cfg_max_response_body_size rpc,
      sv_max_connections = rpc_cfg_max_connections rpc,
      sv_max_subscriptions_per_connection = rpc_cfg_max_subscriptions_per_connection rpc,
      sv_message_buffer_capacity = rpc_cfg_message_buffer_capacity rpc,
      sv_batch_request_config = batch_config (rpc_cfg_batch_request_limit rpc)\<rparr>"

text \<open>What a process finds around it, and the crates it is linked with.\<close>

record ('p, 's, 'e) host =
  ho_platform :: platform
  ho_utf8 :: "string \<Rightarrow> bool"
  ho_env :: "string \<Rightarrow> string option"
  ho_args :: "string + cli_args option"
  ho_parse_toml :: "string \<Rightarrow> string + raw_settings"
  ho_init_logging :: "string \<Rightarrow> string + unit"
  ho_profile :: "'p profile_crate"
  ho_secrets :: "('s, 'e) secret_crates"
  ho_publish :: publish_crates
  ho_codecs :: codecs
  ho_nostr :: nostr_crate
  ho_keys :: "'s \<Rightarrow> keys"
  ho_client :: "keys \<Rightarrow> client"
  ho_io :: io
  ho_add_relay :: "string \<Rightarrow> string + bool"
  ho_parse_addr :: "string \<Rightarrow> string + string"
  ho_bind :: "string \<Rightarrow> server_config \<Rightarrow> string + unit"

definition process_paths :: "('p, 's, 'e) host \<Rightarrow> string + runtime_paths" where
  "process_paths H = default_runtime_paths_for_process (ho_platform H) (ho_utf8 H) (ho_env H)"

definition load_settings :: "('p, 's, 'e) host \<Rightarrow> machine \<Rightarrow> string \<Rightarrow> string + settings" where
  "load_settings H M path =
     and_then (selection_from_env (ho_utf8 H) (ho_env H)) (\<lambda>selection.
       load_settings_from_path (ho_profile H) (\<lambda>p. ok_or ''read'' (read_file (ho_io H) p (mc_files M)))
         (ho_parse_toml H) \<lparr>pr_platform = ho_platform H, pr_environment = current_environment (ho_env H)\<rparr>
         (ps_profile selection) (ps_repo_local_root selection) path)"

text \<open>None when the arguments asked for help or the version.\<close>

definition load_args_and_settings ::
  "('p, 's, 'e) host \<Rightarrow> machine \<Rightarrow> string + (cli_args \<times> settings) option" where
  "load_args_and_settings H M =
     and_then (ho_args H) (\<lambda>parsed. case parsed of
         None \<Rightarrow> Inr None
       | Some args \<Rightarrow>
           and_then (case sa_config (ca_service args) of
               Some path \<Rightarrow> Inr path
             | None \<Rightarrow> map_ok rp_config_path (process_paths H)) (\<lambda>path.
           and_then (map_err (\<lambda>_. ''load configuration'') (load_settings H M path)) (\<lambda>s.
           and_then (ho_init_logging H (sc_logs_dir (st_service s))) (\<lambda>_.
             Inr (Some (args, s))))))"

definition resolved_identity_path :: "('p, 's, 'e) host \<Rightarrow> string option \<Rightarrow> string + string" where
  "resolved_identity_path H chosen =
     (case chosen of
        Some path \<Rightarrow> Inr path
      | None \<Rightarrow> map_err (\<lambda>_. ''panic: resolve canonical radrootsd identity path'')
          (map_ok rp_identity_path (process_paths H)))"

definition daemon_identity ::
  "('p, 's, 'e) host \<Rightarrow> 's draws \<Rightarrow> service_cli_args \<Rightarrow> machine \<Rightarrow> machine \<times> (string + 's)" where
  "daemon_identity H dr a M =
     (case resolved_identity_path H (sa_identity a) of
        Inl e \<Rightarrow> (M, Inl e)
      | Inr path \<Rightarrow>
          (case load_service_identity (ho_secrets H) (ho_io H) (dr_randoms dr) (dr_identity dr) path (sa_identity a)
              (sa_allow_generate_identity a) (mc_files M) of
             (fs, r) \<Rightarrow> (M\<lparr>mc_files := fs\<rparr>, r)))"

text \<open>\<open>Radrootsd::new\<close>; the publishing part keeps its configuration and its free permits.\<close>

record transport_publish =
  tb_config :: transport_publish_config
  tb_permits :: nat

definition new_radrootsd ::
  "('p, 's, 'e) host \<Rightarrow> int \<Rightarrow> 's \<Rightarrow> transport_publish_config \<Rightarrow> nip46_config \<Rightarrow> machine
     \<Rightarrow> machine \<times> (tp_error + radrootsd \<times> transport_publish)" where
  "new_radrootsd H now identity config nip46 M =
     (let ks = ho_keys H identity in
      case open_store (ho_io H) (ho_publish H) (ho_codecs H) now (tp_database_path config) M of
        (M', r) \<Rightarrow> (M', map_ok (\<lambda>_.
          (\<lparr>rd_client = ho_client H ks, rd_keys = ks, rd_pubkey = nc_public_key (ho_nostr H) ks, rd_sessions = new_store,
            rd_nip46_config = nip46\<rparr>,
           \<lparr>tb_config = config, tb_permits = tp_max_concurrent_publish_jobs config\<rparr>)) r))"

record running =
  ru_daemon :: radrootsd
  ru_publish :: transport_publish
  ru_methods :: "string list"
  ru_server :: server_config
  ru_address :: string
  ru_listener :: bool
  ru_presence :: bool

definition start_rpc ::
  "('p, 's, 'e) host \<Rightarrow> transport_publish \<Rightarrow> nip46_config \<Rightarrow> string \<Rightarrow> rpc_config \<Rightarrow> string + string list" where
  "start_rpc H t nip46 address rpc =
     and_then (validate_transport_publish (tb_config t)) (\<lambda>_.
     map_ok (\<lambda>_. register_all (tb_config t) nip46 nip46_methods) (ho_bind H address (server_config_of rpc)))"

definition start_service ::
  "('p, 's, 'e) host \<Rightarrow> settings \<Rightarrow> radrootsd \<times> transport_publish \<Rightarrow> string + running" where
  "start_service H s rt =
     and_then (collect_results (ho_add_relay H) (sc_relays (st_service s))) (\<lambda>_.
     and_then (ho_parse_addr H (settings_rpc_addr s)) (\<lambda>address.
     map_ok (\<lambda>methods.
       \<lparr>ru_daemon = fst rt, ru_publish = snd rt, ru_methods = methods, ru_server = server_config_of (st_rpc s),
        ru_address = address, ru_listener = (sc_relays (st_service s) \<noteq> []), ru_presence = (sc_relays (st_service s) \<noteq> [])\<rparr>)
       (start_rpc H (snd rt) (st_nip46 s) address (st_rpc s))))"

text \<open>The process ends after a command and otherwise serves until it is told to stop.  The presence is
  published by a task of its own, and its failure is only logged.\<close>

datatype outcome = HelpShown | CommandDone printed | Serving running

definition run_daemon ::
  "('p, 's, 'e) host \<Rightarrow> 's draws \<Rightarrow> machine \<Rightarrow> machine \<times> (string + outcome)" where
  "run_daemon H dr M =
     (case load_args_and_settings H M of
        Inl e \<Rightarrow> (M, Inl e)
      | Inr None \<Rightarrow> (M, Inr HelpShown)
      | Inr (Some (args, s)) \<Rightarrow>
          (case and_then (validate_settings (ho_profile H) s) (\<lambda>_.
                and_then (authored_profile (ho_profile H) (st_metadata s)) (\<lambda>_.
                  map_err (\<lambda>_. ''resolve runtime contract'') (process_paths H))) of
             Inl e \<Rightarrow> (M, Inl e)
           | Inr _ \<Rightarrow>
               (case ca_command args of
                  Some command \<Rightarrow>
                    (case handle_command (ho_io H) (ho_publish H) (ho_codecs H) dr command s M of
                       (M', r) \<Rightarrow> (M', map_ok CommandDone (map_err tp_error_text r)))
                | None \<Rightarrow>
                    (case daemon_identity H dr (ca_service args) M of
                       (M1, Inl e) \<Rightarrow> (M1, Inl e)
                     | (M1, Inr identity) \<Rightarrow>
                         (case new_radrootsd H (dr_opened_at dr) identity (st_transport_publish s) (st_nip46 s) M1 of
                            (M2, r) \<Rightarrow> (M2, map_ok Serving
                              (and_then (map_err tp_error_text r) (start_service H s))))))))"

text \<open>\<open>main\<close> maps the result of the run to the exit code.\<close>

definition exit_code_from_run :: "string + 'a \<Rightarrow> nat" where
  "exit_code_from_run r = (if is_ok r then 0 else 1)"

section \<open>Tokens that were issued\<close>

lemma write_token_ok:
  assumes "write_token_file os path token M = (M', Inr ())"
  shows "mc_files M' path = Some \<lparr>fl_bytes = token @ [CHR 0x0A], fl_mode = 384\<rparr>" and "mc_stores M' = mc_stores M"
  using assms by (auto simp: write_token_file_def Let_def split: if_splits)

lemma open_store_ok:
  assumes "open_store os P K now path M = (M', Inr ())"
  shows "\<exists>f f'. connect_sqlite os path M = Inr f \<and> from_connection P K now f = (f', Inr ()) \<and>
    M' = M\<lparr>mc_stores := (mc_stores M)(path \<mapsto> f')\<rparr>"
  using assms by (auto simp: open_store_def split: if_splits sum.splits prod.splits)

lemma commandE:
  assumes "handle_command os P K dr (PrincipalInit a) s M = (M', Inr out)"
  obtains M1 i f d p where
    "open_store os P K (dr_opened_at dr) (tp_database_path (st_transport_publish s)) M = (M1, Inr ())"
    "principal_init_of P (hash_bearer_token P (bearer_token (dr_token_bytes dr))) a = Inr i"
    "mc_stores M1 (tp_database_path (st_transport_publish s)) = Some f"
    "create_principal P K (dr_principal_id dr) (dr_created_at dr) i (sf_data f) = (d, Inr p)"
    "mc_files M' (pa_token_file a) = Some \<lparr>fl_bytes = bearer_token (dr_token_bytes dr) @ [CHR 0x0A], fl_mode = 384\<rparr>"
    "mc_stores M' (tp_database_path (st_transport_publish s)) = Some (f\<lparr>sf_data := d\<rparr>)"
    "out_principal_id out = pp_principal_id p"
proof -
  let ?path = "tp_database_path (st_transport_publish s)" and ?token = "bearer_token (dr_token_bytes dr)"
  obtain M1 where opened: "open_store os P K (dr_opened_at dr) ?path M = (M1, Inr ())"
    using assms by (auto simp: handle_command_def Let_def split: prod.splits sum.splits)
  obtain i where i: "principal_init_of P (hash_bearer_token P ?token) a = Inr i"
    using assms opened by (cases "principal_init_of P (hash_bearer_token P ?token) a") (auto simp: handle_command_def Let_def)
  obtain M2 p where stored: "store_principal P K (dr_principal_id dr) (dr_created_at dr) i ?path M1 = (M2, Inr p)"
    using assms opened i by (auto simp: handle_command_def Let_def split: prod.splits sum.splits)
  have written: "write_token_file os (pa_token_file a) ?token M2 = (M', Inr ()) \<and> out_principal_id out = pp_principal_id p"
    using assms opened i stored by (auto simp: handle_command_def Let_def map_ok_eq_Inr split: prod.splits)
  obtain f d where "mc_stores M1 ?path = Some f" "create_principal P K (dr_principal_id dr) (dr_created_at dr) i (sf_data f) = (d, Inr p)"
    "M2 = M1\<lparr>mc_stores := (mc_stores M1)(?path \<mapsto> f\<lparr>sf_data := d\<rparr>)\<rparr>"
    using stored by (auto simp: store_principal_def split: option.splits prod.splits)
  with that [OF opened i] write_token_ok written show thesis by fastforce
qed

lemma principal_init_of_fields:
  assumes "principal_init_of P h a = Inr i"
  shows "pi_token_hash i = h" and "pi_expires_at_unix i = None" and "pi_allowed_pubkeys i = pa_allowed_pubkey a"
    and "pi_allowed_kinds i = pa_allowed_kind a" and "pi_allow_request_targets i = pa_allow_request_targets a"
    and "visibility_from_str (pa_job_visibility a) = Inr (pi_job_visibility i)"
  using assms by (auto simp: principal_init_of_def result_eqs and_then_eq_Inr)

lemma found_authorizes:
  assumes "principal_for_token_hash K now d (hash_bearer_token P (bearer_token bytes)) = Inr (Some p)"
  shows "authorize_transport_publish_request P K now (Some (''Bearer '' @ bearer_token bytes)) d = Authorized p"
proof -
  have "eq_ignore_ascii_case ''Bearer'' ''bearer''" by code_simp
  moreover have "bearer_token bytes \<noteq> []" by (simp add: bearer_token_def)
  ultimately show ?thesis
    unfolding authorize_transport_publish_request_def using bearer_header_words [of bytes] assms by simp
qed

text \<open>An issued token is good: after the command that creates a principal succeeds, the token file,
  readable by its owner only, holds the token and a newline, and a request whose header is
  \<open>Bearer\<close> and that token is authorized, at any time, as the principal that was printed, with the
  public keys, kinds, visibility and use of request targets of the command line.\<close>

theorem issued_token_authorizes:
  assumes "codecs_ok K" and "handle_command os P K dr (PrincipalInit a) s M = (M', Inr out)"
  shows "\<exists>token f p. mc_files M' (pa_token_file a) = Some \<lparr>fl_bytes = token @ [CHR 0x0A], fl_mode = 384\<rparr> \<and>
    mc_stores M' (tp_database_path (st_transport_publish s)) = Some f \<and>
    authorize_transport_publish_request P K now (Some (''Bearer '' @ token)) (sf_data f) = Authorized p \<and>
    pp_principal_id p = out_principal_id out \<and> pp_allowed_pubkeys p = pa_allowed_pubkey a \<and>
    pp_allowed_kinds p = pa_allowed_kind a \<and> pp_allow_request_targets p = pa_allow_request_targets a \<and>
    visibility_from_str (pa_job_visibility a) = Inr (pp_job_visibility p)"
proof -
  from assms(2) obtain M1 i f d p where
    i: "principal_init_of P (hash_bearer_token P (bearer_token (dr_token_bytes dr))) a = Inr i"
    and made: "create_principal P K (dr_principal_id dr) (dr_created_at dr) i (sf_data f) = (d, Inr p)"
    and token: "mc_files M' (pa_token_file a) = Some \<lparr>fl_bytes = bearer_token (dr_token_bytes dr) @ [CHR 0x0A], fl_mode = 384\<rparr>"
    and stored: "mc_stores M' (tp_database_path (st_transport_publish s)) = Some (f\<lparr>sf_data := d\<rparr>)"
    and out: "out_principal_id out = pp_principal_id p"
    by (rule commandE)
  note scope = principal_init_of_fields [OF i]
  note found = created_principal_lookup [OF assms(1) made, of now]
  have "principal_for_token_hash K now d (hash_bearer_token P (bearer_token (dr_token_bytes dr))) = Inr (Some p)"
    using found scope(1,2) by simp
  from found_authorizes [OF this] show ?thesis
    using token stored out found scope(3-6) by (intro exI conjI) (assumption | simp)+
qed

text \<open>A token that cannot be written leaves its principal behind: when the token file exists, the
  command fails after the principal was stored; no file is written, and the principal, whose token
  nobody has, stays authorized for good.\<close>

theorem unwritten_token_orphans_principal:
  assumes "codecs_ok K" and "open_store os P K (dr_opened_at dr) (tp_database_path (st_transport_publish s)) M = (M1, Inr ())"
    and "mc_stores M1 (tp_database_path (st_transport_publish s)) = Some f"
    and "principal_init_of P (hash_bearer_token P (bearer_token (dr_token_bytes dr))) a = Inr i"
    and "create_principal P K (dr_principal_id dr) (dr_created_at dr) i (sf_data f) = (d, Inr p)"
    and "mc_files M (pa_token_file a) = Some old"
    and "handle_command os P K dr (PrincipalInit a) s M = (M', r)"
  shows "\<not> is_ok r \<and> mc_files M' = mc_files M \<and>
    (\<exists>f'. mc_stores M' (tp_database_path (st_transport_publish s)) = Some f' \<and>
       authorize_transport_publish_request P K now (Some (''Bearer '' @ bearer_token (dr_token_bytes dr))) (sf_data f') =
         Authorized p)"
proof -
  let ?path = "tp_database_path (st_transport_publish s)"
  let ?M2 = "M1\<lparr>mc_stores := (mc_stores M1)(?path \<mapsto> f\<lparr>sf_data := d\<rparr>)\<rparr>"
  have files: "mc_files M1 = mc_files M" using open_store_ok [OF assms(2)] by auto
  have stored: "store_principal P K (dr_principal_id dr) (dr_created_at dr) i ?path M1 = (?M2, Inr p)"
    by (simp add: store_principal_def assms(3,5))
  have "\<exists>e. write_token_file os (pa_token_file a) (bearer_token (dr_token_bytes dr)) ?M2 = (?M2, Inl e)"
    by (simp add: write_token_file_def Let_def files assms(6))
  then have "M' = ?M2 \<and> \<not> is_ok r"
    using assms(7) by (auto simp: handle_command_def Let_def assms(2,4) stored)
  moreover have "principal_for_token_hash K now d (hash_bearer_token P (bearer_token (dr_token_bytes dr))) = Inr (Some p)"
    using created_principal_lookup [OF assms(1,5), of now] principal_init_of_fields(1,2) [OF assms(4)] by simp
  ultimately show ?thesis using found_authorizes by (simp add: files)
qed

section \<open>Commands beside a running daemon\<close>

lemma job_by_id_principals: "job_by_id P K (d\<lparr>db_principals := rows\<rparr>) k = job_by_id P K d k"
proof -
  have "finalize_job_row_for_egress P K (d\<lparr>db_principals := rows\<rparr>) = finalize_job_row_for_egress P K d"
    by (simp add: fun_eq_iff finalize_job_row_for_egress_def target_outcomes_def)
  note egress = this
  show ?thesis unfolding job_by_id_def egress by simp
qed

lemma created_jobs: "job_by_id P K (fst (create_principal P K pid now i d)) k = job_by_id P K d k"
  by (auto simp: create_principal_def insert_principal_def result_eqs job_by_id_principals split: sum.split if_splits)

lemma stored_principal_data:
  assumes "store_principal P K pid now i path M = (M', r)" and "mc_stores M path = Some f"
  shows "\<exists>f'. mc_stores M' path = Some f' \<and> sf_data f' = fst (create_principal P K pid now i (sf_data f))"
  using assms by (auto simp: store_principal_def split: prod.splits)

lemma write_token_stores: "mc_stores (fst (write_token_file os path token M)) = mc_stores M"
  by (simp add: write_token_file_def Let_def)

lemma command_effect:
  assumes "handle_command os P K dr (PrincipalInit a) s M = (M', r)"
    and "open_store os P K (dr_opened_at dr) (tp_database_path (st_transport_publish s)) M = (M1, Inr ())"
    and "mc_stores M1 (tp_database_path (st_transport_publish s)) = Some f"
  shows "\<exists>f'. mc_stores M' (tp_database_path (st_transport_publish s)) = Some f' \<and>
    (sf_data f' = sf_data f \<or> (\<exists>i. sf_data f' = fst (create_principal P K (dr_principal_id dr) (dr_created_at dr) i (sf_data f))))"
proof (cases "principal_init_of P (hash_bearer_token P (bearer_token (dr_token_bytes dr))) a")
  case (Inl e)
  then show ?thesis using assms by (auto simp: handle_command_def Let_def)
next
  case (Inr i)
  let ?path = "tp_database_path (st_transport_publish s)"
  obtain M2 r2 where stored: "store_principal P K (dr_principal_id dr) (dr_created_at dr) i ?path M1 = (M2, r2)" by force
  have "mc_stores M' = mc_stores M2"
    using assms(1,2) Inr stored write_token_stores [of os "pa_token_file a" "bearer_token (dr_token_bytes dr)" M2]
    by (cases r2) (auto simp: handle_command_def Let_def split: prod.splits)
  then show ?thesis using stored_principal_data [OF stored assms(3)] by auto
qed

text \<open>C35. The command line interferes with a running daemon: opening the store runs the recovery, so
  that creating a principal, whether it succeeds or fails on its arguments, ends every job that a
  daemon on the same database is publishing at that moment; the store stays a state that a run can
  leave.\<close>

theorem command_interrupts_running_jobs:
  assumes "codecs_ok K" and "reachable_db P K d"
    and "mc_stores M (tp_database_path (st_transport_publish s)) = Some \<lparr>sf_catalog = daemon_catalog, sf_data = d\<rparr>"
    and "\<not> io_fails os IoCreateDir (tp_database_path (st_transport_publish s))"
    and "\<not> io_fails os IoOpen (tp_database_path (st_transport_publish s))"
    and "handle_command os P K dr (PrincipalInit a) s M = (M', r)"
  shows "\<exists>f. mc_stores M' (tp_database_path (st_transport_publish s)) = Some f \<and> reachable_db P K (sf_data f) \<and>
    (\<forall>k v. job_by_id P K (sf_data f) k = Inr v \<longrightarrow> jb_status v \<noteq> JsPublishing)"
proof -
  let ?path = "tp_database_path (st_transport_publish s)"
  obtain d1 where d1: "recover_interrupted_publish_jobs P K (dr_opened_at dr) d = (d1, Inr ())"
    "\<And>k v. job_by_id P K d1 k = Inr v \<Longrightarrow> jb_status v \<noteq> JsPublishing"
    using recovery_clears [OF assms(2,1)] by blast
  have reach: "reachable_db P K d1" using reachable_db.recover [OF assms(2), of "dr_opened_at dr"] d1(1) by simp
  let ?M1 = "M\<lparr>mc_stores := (mc_stores M)(?path \<mapsto> \<lparr>sf_catalog = daemon_catalog, sf_data = d1\<rparr>)\<rparr>"
  have opened: "open_store os P K (dr_opened_at dr) ?path M = (?M1, Inr ())"
    using assms(3-5) d1(1) by (simp add: open_store_def connect_sqlite_def from_connection_def prepare_again)
  have "mc_stores ?M1 ?path = Some \<lparr>sf_catalog = daemon_catalog, sf_data = d1\<rparr>" by simp
  from command_effect [OF assms(6) opened this] obtain f where f: "mc_stores M' ?path = Some f"
    "sf_data f = d1 \<or> (\<exists>i. sf_data f = fst (create_principal P K (dr_principal_id dr) (dr_created_at dr) i d1))"
    by auto
  have "reachable_db P K (sf_data f)" using f(2) reach reachable_db.create by metis
  moreover have "job_by_id P K (sf_data f) k = job_by_id P K d1 k" for k using f(2) created_jobs by metis
  ultimately show ?thesis using f(1) d1(2) by auto
qed

section \<open>A daemon that serves\<close>

lemma prepared_valid:
  assumes "prepare_schema c = (c', Inr ())"
  shows "validate_transport_publish_schema c' = Inr () \<and> validate_transport_publish_schema_version c' = Inr ()"
  using assms
  by (auto simp: prepare_schema_def Let_def validate_transport_publish_schema_version_def and_then_eq_Inr
      split: sum.splits schema_state.splits if_splits)

lemma from_connection_valid:
  assumes "from_connection P K now f = (f', Inr ())"
  shows "validate_transport_publish_schema (sf_catalog f') = Inr () \<and>
    validate_transport_publish_schema_version (sf_catalog f') = Inr ()"
  using assms prepared_valid by (auto simp: from_connection_def split: prod.splits sum.splits)

lemma servingE:
  assumes "run_daemon H dr M = (M', Inr (Serving r))"
  obtains args s identity M1 rt where "load_args_and_settings H M = Inr (Some (args, s))"
    "validate_settings (ho_profile H) s = Inr ()"
    "daemon_identity H dr (ca_service args) M = (M1, Inr identity)"
    "new_radrootsd H (dr_opened_at dr) identity (st_transport_publish s) (st_nip46 s) M1 = (M', Inr rt)"
    "start_service H s rt = Inr r"
proof -
  obtain args s where loaded: "load_args_and_settings H M = Inr (Some (args, s))"
    using assms by (cases "load_args_and_settings H M") (auto simp: run_daemon_def split: option.splits)
  have valid: "validate_settings (ho_profile H) s = Inr ()"
    using assms by (cases "validate_settings (ho_profile H) s") (auto simp: run_daemon_def loaded)
  obtain x where checked: "and_then (validate_settings (ho_profile H) s) (\<lambda>_.
      and_then (authored_profile (ho_profile H) (st_metadata s)) (\<lambda>_.
        map_err (\<lambda>_. ''resolve runtime contract'') (process_paths H))) = Inr x"
    using assms unfolding run_daemon_def loaded by (auto split: sum.splits)
  have "ca_command args = None"
    using assms unfolding run_daemon_def loaded by (auto simp: checked map_ok_eq_Inr split: option.splits prod.splits)
  then have run: "run_daemon H dr M =
      (case daemon_identity H dr (ca_service args) M of
         (M1, Inl e) \<Rightarrow> (M1, Inl e)
       | (M1, Inr identity) \<Rightarrow>
           (case new_radrootsd H (dr_opened_at dr) identity (st_transport_publish s) (st_nip46 s) M1 of
              (M2, r) \<Rightarrow> (M2, map_ok Serving (and_then (map_err tp_error_text r) (start_service H s)))))"
    unfolding run_daemon_def loaded by (simp add: checked)
  obtain M1 identity where identity: "daemon_identity H dr (ca_service args) M = (M1, Inr identity)"
    using assms run by (auto split: prod.splits sum.splits)
  obtain M2 r2 where opened: "new_radrootsd H (dr_opened_at dr) identity (st_transport_publish s) (st_nip46 s) M1 = (M2, r2)"
    by force
  show thesis
    using that [OF loaded valid identity] assms run opened by (auto simp: identity map_ok_eq_Inr and_then_eq_Inr map_err_eq_Inr)
qed

text \<open>C22. A daemon that serves is able to: when the start succeeds, every limit of the configuration is
  positive, the first request gets a permit and, without a time limit of its own, a positive
  one, the database has the daemon's schema, no NIP-46 session exists yet, and each group of
  methods is registered exactly when the configuration enables it.\<close>

theorem started_daemon_ready:
  assumes "run_daemon H dr M = (M', Inr (Serving r))"
  shows "let c = tb_config (ru_publish r) in
    0 < tp_max_event_bytes c \<and> 0 < tp_max_targets_per_request c \<and> 0 < tp_job_list_limit c \<and>
    is_ok (acquire_publish_permit (tb_permits (ru_publish r))) \<and>
    (\<exists>ms. effective_publish_timeout_ms c None = Inr ms \<and> 0 < unat ms) \<and>
    (\<exists>f. mc_stores M' (tp_database_path c) = Some f \<and> validate_transport_publish_schema (sf_catalog f) = Inr () \<and>
       validate_transport_publish_schema_version (sf_catalog f) = Inr ()) \<and>
    inner (rd_sessions (ru_daemon r)) = [] \<and>
    set (ru_methods r) = (if tp_enabled c then set publish_methods else {}) \<union>
      (if n46_public_jsonrpc_enabled (rd_nip46_config (ru_daemon r)) then set nip46_methods else {})"
proof -
  from assms obtain args s identity M1 rt where valid: "validate_settings (ho_profile H) s = Inr ()"
    and opened: "new_radrootsd H (dr_opened_at dr) identity (st_transport_publish s) (st_nip46 s) M1 = (M', Inr rt)"
    and served: "start_service H s rt = Inr r" by (rule servingE)
  let ?c = "st_transport_publish s"
  have limits: "0 < tp_max_event_bytes ?c" "0 < tp_max_targets_per_request ?c" "0 < tp_job_list_limit ?c"
    "0 < tp_max_concurrent_publish_jobs ?c" "0 < unat (tp_connect_timeout_secs ?c)"
    using valid by (simp_all add: validate_settings_iff validate_transport_publish_iff)
  have rt: "rd_sessions (fst rt) = new_store" "rd_nip46_config (fst rt) = st_nip46 s" "tb_config (snd rt) = ?c"
    "tb_permits (snd rt) = tp_max_concurrent_publish_jobs ?c"
    and store: "open_store (ho_io H) (ho_publish H) (ho_codecs H) (dr_opened_at dr) (tp_database_path ?c) M1 = (M', Inr ())"
    using opened by (auto simp: new_radrootsd_def Let_def map_ok_eq_Inr split: prod.splits)
  obtain f where f: "mc_stores M' (tp_database_path ?c) = Some f" "validate_transport_publish_schema (sf_catalog f) = Inr ()"
    "validate_transport_publish_schema_version (sf_catalog f) = Inr ()"
    using open_store_ok [OF store] from_connection_valid by fastforce
  have r: "ru_daemon r = fst rt" "ru_publish r = snd rt" "ru_methods r = register_all (tb_config (snd rt)) (st_nip46 s) nip46_methods"
    using served by (auto simp: start_service_def start_rpc_def and_then_eq_Inr map_ok_eq_Inr)
  have "0 < unat (saturating_mul (tp_connect_timeout_secs ?c) 1000)"
    using limits(5) by (simp add: unat_saturating_mul)
  then have "\<exists>ms. effective_publish_timeout_ms ?c None = Inr ms \<and> 0 < unat ms"
    by (simp add: effective_publish_timeout_ms_def)
  then show ?thesis
    using limits f r rt by (simp add: Let_def acquire_publish_permit_def new_store_def register_all_def)
qed

section \<open>Presence on the relays\<close>

lemma publish_presence_ok:
  "publish_presence_event X e name = Inr () \<longleftrightarrow> (\<exists>relays. pz_send X e = Inr relays \<and> relays \<noteq> [])"
  by (auto simp: publish_presence_event_def and_then_eq_Inr map_err_eq_Inr split: if_splits)

text \<open>The presence is complete exactly when both events were signed, a relay was connected, and each
  event was taken by a relay; before both are signed nothing is sent, and the Profile goes first.\<close>

theorem presence_complete:
  "(snd (bootstrap_presence X ks profile spec) = Inr () \<longleftrightarrow>
      (\<exists>pe he. build_service_presence_events X ks profile spec = Inr (pe, he) \<and> pz_connected X \<and>
         (\<forall>e \<in> {pe, he}. \<exists>relays. pz_send X e = Inr relays \<and> relays \<noteq> []))) \<and>
   (fst (bootstrap_presence X ks profile spec) \<noteq> [] \<longrightarrow>
      (\<exists>pe he. build_service_presence_events X ks profile spec = Inr (pe, he) \<and> pz_connected X \<and>
         prefix (fst (bootstrap_presence X ks profile spec)) [pe, he]))"
proof (cases "build_service_presence_events X ks profile spec")
  case (Inr events)
  obtain pe he where "events = (pe, he)" by force
  then show ?thesis
    using publish_presence_ok [of X pe "''service Profile''"] publish_presence_ok [of X he "''NIP-89 application handler''"]
    by (cases "publish_presence_event X pe ''service Profile''") (auto simp: bootstrap_presence_def Inr)
qed (simp add: bootstrap_presence_def)

section \<open>A sample machine\<close>

definition sample_draws :: "string draws" where
  "sample_draws = \<lparr>dr_token_bytes = ''0123'', dr_principal_id = ''p1'', dr_opened_at = 5, dr_created_at = 6,
     dr_identity = ''k'', dr_randoms = sample_randoms\<rparr>"

definition sample_command :: principal_init_args where
  "sample_command = \<lparr>pa_label = ''app'', pa_token_file = ''token'', pa_allowed_pubkey = [replicate 64 CHR ''a''],
     pa_allowed_kind = [1], pa_allowed_target_policy = [''nostr''], pa_allowed_explicit_transport_kind = [],
     pa_allowed_nostr_source_policy = [''daemon_default_only''], pa_job_visibility = ''own'', pa_allow_request_targets = False\<rparr>"

definition sample_raw :: raw_settings where
  "sample_raw = \<lparr>rw_metadata = sample_metadata,
     rw_service = \<lparr>rs_logs_dir = None, rs_relays = [], rs_nip89_identifier = None, rs_nip89_extra_tags = []\<rparr>,
     rw_rpc = None, rw_rpc_addr = None, rw_nip46 = None, rw_transport_publish = Some
       \<lparr>tk_enabled = None, tk_connect_timeout_secs = None, tk_max_event_bytes = None, tk_max_targets_per_request = None,
        tk_job_list_limit = None, tk_max_concurrent_publish_jobs = None, tk_database_path = Some ''db'', tk_nostr = None\<rparr>\<rparr>"

definition sample_settings :: settings where
  "sample_settings = into_settings sample_raw \<lparr>rp_config_path = ''config'', rp_logs_dir = ''logs'', rp_identity_path = ''id'',
     rp_database_path = ''db''\<rparr>"

definition sample_machine :: machine where
  "sample_machine = \<lparr>mc_files = [''config'' \<mapsto> \<lparr>fl_bytes = ''toml'', fl_mode = 420\<rparr>], mc_stores = Map.empty\<rparr>"

lemma sample_database_path: "tp_database_path (st_transport_publish sample_settings) = ''db''"
  by (simp add: sample_settings_def into_settings_def into_transport_publish_config_def sample_raw_def
      deserialize_transport_publish_def default_raw_transport_publish_def or_default_def)

lemma sample_opened:
  assumes "mc_stores M path = None"
  shows "open_store sample_io sample_publish sample_codecs now path M =
    (M\<lparr>mc_stores := (mc_stores M)(path \<mapsto> \<lparr>sf_catalog = daemon_catalog, sf_data = empty_database\<rparr>)\<rparr>, Inr ())"
  by (simp add: open_store_def connect_sqlite_def sample_io_def assms from_connection_new [OF sample_codecs_ok])

definition sample_token_hash :: string where
  "sample_token_hash = hash_bearer_token sample_publish (bearer_token ''0123'')"

lemma sample_command_init:
  "principal_init_of sample_publish sample_token_hash sample_command =
     Inr (sample_init\<lparr>pi_token_hash := sample_token_hash, pi_allow_request_targets := False, pi_expires_at_unix := None\<rparr>)"
  by (simp add: principal_init_of_def sample_command_def sample_init_def parse_target_policy_def
      parse_nostr_source_policy_def visibility_from_str_def)

lemma sample_command_created:
  "\<exists>d p. create_principal sample_publish sample_codecs ''p1'' now
     (sample_init\<lparr>pi_token_hash := sample_token_hash, pi_allow_request_targets := False, pi_expires_at_unix := None\<rparr>)
     empty_database = (d, Inr p)"
proof -
  have "trim ''app'' \<noteq> []" by code_simp
  moreover have "prefix ''sha256:'' sample_token_hash" by (simp add: sample_token_hash_def hash_bearer_token_def)
  ultimately have "validate_principal_init sample_publish
      (sample_init\<lparr>pi_token_hash := sample_token_hash, pi_allow_request_targets := False, pi_expires_at_unix := None\<rparr>) = Inr ()"
    by (simp add: validate_principal_init_def sample_init_def ensure_lower_hex_def sample_pubkey_hex)
  then show ?thesis
    by (simp add: create_principal_def principal_row_of_def encode_def sample_codecs_def insert_principal_def
        empty_database_def principal_by_id_def principal_from_row_def json_text_def sample_init_def visibility_from_str_def)
qed

definition handled_machine :: "database \<Rightarrow> machine" where
  "handled_machine d = \<lparr>mc_files = [''config'' \<mapsto> \<lparr>fl_bytes = ''toml'', fl_mode = 420\<rparr>,
     ''token'' \<mapsto> \<lparr>fl_bytes = bearer_token ''0123'' @ [CHR 0x0A], fl_mode = 384\<rparr>],
     mc_stores = [''db'' \<mapsto> \<lparr>sf_catalog = daemon_catalog, sf_data = d\<rparr>]\<rparr>"

lemma sample_handled:
  "\<exists>d out. handle_command sample_io sample_publish sample_codecs sample_draws (PrincipalInit sample_command)
     sample_settings sample_machine = (handled_machine d, Inr out) \<and> out_database_path out = ''db'' \<and>
     reachable_db sample_publish sample_codecs d"
proof -
  obtain d p where made: "create_principal sample_publish sample_codecs ''p1'' 6
     (sample_init\<lparr>pi_token_hash := sample_token_hash, pi_allow_request_targets := False, pi_expires_at_unix := None\<rparr>)
     empty_database = (d, Inr p)" using sample_command_created by blast
  have opened: "open_store sample_io sample_publish sample_codecs 5 ''db'' sample_machine =
    (sample_machine\<lparr>mc_stores := [''db'' \<mapsto> \<lparr>sf_catalog = daemon_catalog, sf_data = empty_database\<rparr>]\<rparr>, Inr ())"
    by (subst sample_opened) (simp_all add: sample_machine_def)
  have draws: "dr_token_bytes sample_draws = ''0123''" "dr_principal_id sample_draws = ''p1''" "dr_opened_at sample_draws = 5"
    "dr_created_at sample_draws = 6" by (simp_all add: sample_draws_def)
  have token_path: "pa_token_file sample_command = ''token''" by (simp add: sample_command_def)
  have quiet: "\<not> io_fails sample_io op q" for op q by (simp add: sample_io_def)
  have "reachable_db sample_publish sample_codecs d"
    using reachable_db.create [OF reachable_db.fresh, of sample_publish sample_codecs "''p1''" 6
      "sample_init\<lparr>pi_token_hash := sample_token_hash, pi_allow_request_targets := False, pi_expires_at_unix := None\<rparr>"] made by simp
  moreover have "\<exists>out. handle_command sample_io sample_publish sample_codecs sample_draws (PrincipalInit sample_command)
     sample_settings sample_machine = (handled_machine d, Inr out) \<and> out_database_path out = ''db''"
    unfolding handle_command_def command.case Let_def draws sample_database_path opened prod.case sum.case
      sample_token_hash_def [symmetric] sample_command_init store_principal_def
    by (simp add: made write_token_file_def Let_def token_path quiet sample_machine_def handled_machine_def)
  ultimately show ?thesis by blast
qed

theorem issued_token_authorizes_witness:
  "\<exists>M' out f p. handle_command sample_io sample_publish sample_codecs sample_draws (PrincipalInit sample_command)
      sample_settings sample_machine = (M', Inr out) \<and> mc_stores M' ''db'' = Some f \<and>
    authorize_transport_publish_request sample_publish sample_codecs 99 (Some (''Bearer rrd_tp_30313233'')) (sf_data f) = Authorized p"
proof -
  obtain M' out where run: "handle_command sample_io sample_publish sample_codecs sample_draws (PrincipalInit sample_command)
     sample_settings sample_machine = (M', Inr out)" using sample_handled by blast
  have "mc_files M' ''token'' = Some \<lparr>fl_bytes = bearer_token ''0123'' @ [CHR 0x0A], fl_mode = 384\<rparr>"
    using run by (rule commandE) (simp add: sample_command_def sample_draws_def)
  moreover have "''Bearer '' @ bearer_token ''0123'' = ''Bearer rrd_tp_30313233''" by code_simp
  ultimately show ?thesis
    using issued_token_authorizes [OF sample_codecs_ok run, of 99] run sample_database_path
    by (auto simp: sample_command_def)
qed

theorem unwritten_token_orphans_principal_witness:
  "\<exists>M' r p f. handle_command sample_io sample_publish sample_codecs sample_draws
      (PrincipalInit (sample_command\<lparr>pa_token_file := ''config''\<rparr>)) sample_settings sample_machine = (M', r) \<and> \<not> is_ok r \<and>
    mc_stores M' ''db'' = Some f \<and>
    authorize_transport_publish_request sample_publish sample_codecs 99 (Some (''Bearer '' @ bearer_token ''0123'')) (sf_data f) =
      Authorized p"
proof -
  let ?a = "sample_command\<lparr>pa_token_file := ''config''\<rparr>"
  let ?M1 = "sample_machine\<lparr>mc_stores := [''db'' \<mapsto> \<lparr>sf_catalog = daemon_catalog, sf_data = empty_database\<rparr>]\<rparr>"
  have opened: "open_store sample_io sample_publish sample_codecs (dr_opened_at sample_draws)
      (tp_database_path (st_transport_publish sample_settings)) sample_machine = (?M1, Inr ())"
    unfolding sample_database_path by (subst sample_opened) (simp_all add: sample_machine_def)
  have stored: "mc_stores ?M1 (tp_database_path (st_transport_publish sample_settings)) =
      Some \<lparr>sf_catalog = daemon_catalog, sf_data = empty_database\<rparr>"
    by (simp add: sample_database_path)
  have init: "principal_init_of sample_publish (hash_bearer_token sample_publish (bearer_token (dr_token_bytes sample_draws))) ?a =
      Inr (sample_init\<lparr>pi_token_hash := sample_token_hash, pi_allow_request_targets := False, pi_expires_at_unix := None\<rparr>)"
    using sample_command_init by (simp add: principal_init_of_def sample_draws_def sample_token_hash_def)
  obtain d p where made: "create_principal sample_publish sample_codecs (dr_principal_id sample_draws) (dr_created_at sample_draws)
     (sample_init\<lparr>pi_token_hash := sample_token_hash, pi_allow_request_targets := False, pi_expires_at_unix := None\<rparr>)
     (sf_data \<lparr>sf_catalog = daemon_catalog, sf_data = empty_database\<rparr>) = (d, Inr p)"
    using sample_command_created [of 6] by (auto simp: sample_draws_def)
  have taken: "mc_files sample_machine (pa_token_file ?a) = Some \<lparr>fl_bytes = ''toml'', fl_mode = 420\<rparr>"
    by (simp add: sample_machine_def)
  obtain M' r where run: "handle_command sample_io sample_publish sample_codecs sample_draws (PrincipalInit ?a) sample_settings
      sample_machine = (M', r)" by force
  have "dr_token_bytes sample_draws = ''0123''" by (simp add: sample_draws_def)
  with unwritten_token_orphans_principal [OF sample_codecs_ok opened stored init made taken run, of 99] run
  show ?thesis unfolding sample_database_path by auto
qed

theorem command_interrupts_running_jobs_witness:
  "let d = fst (record_publish_job sample_publish sample_codecs ''j1'' 5 sample_insert
       (fst (create_principal sample_publish sample_codecs ''p1'' 0 sample_init empty_database)));
     M = sample_machine\<lparr>mc_stores := [''db'' \<mapsto> \<lparr>sf_catalog = daemon_catalog, sf_data = d\<rparr>]\<rparr>
   in \<exists>f. mc_stores (fst (handle_command sample_io sample_publish sample_codecs sample_draws
        (PrincipalInit (sample_command\<lparr>pa_job_visibility := ''nobody''\<rparr>)) sample_settings M)) ''db'' = Some f \<and>
      (\<forall>k v. job_by_id sample_publish sample_codecs (sf_data f) k = Inr v \<longrightarrow> jb_status v \<noteq> JsPublishing)"
proof -
  let ?d = "fst (record_publish_job sample_publish sample_codecs ''j1'' 5 sample_insert
       (fst (create_principal sample_publish sample_codecs ''p1'' 0 sample_init empty_database)))"
  let ?M = "sample_machine\<lparr>mc_stores := [''db'' \<mapsto> \<lparr>sf_catalog = daemon_catalog, sf_data = ?d\<rparr>]\<rparr>"
  have reach: "reachable_db sample_publish sample_codecs ?d"
    by (intro reachable_db.record_job reachable_db.create reachable_db.fresh)
  obtain M' r where run: "handle_command sample_io sample_publish sample_codecs sample_draws
      (PrincipalInit (sample_command\<lparr>pa_job_visibility := ''nobody''\<rparr>)) sample_settings ?M = (M', r)" by force
  have "mc_stores ?M (tp_database_path (st_transport_publish sample_settings)) = Some \<lparr>sf_catalog = daemon_catalog, sf_data = ?d\<rparr>"
    by (simp add: sample_database_path)
  from command_interrupts_running_jobs [OF sample_codecs_ok reach this _ _ run]
  show ?thesis unfolding sample_database_path Let_def run fst_conv by (auto simp: sample_io_def)
qed

text \<open>The process of a service that makes its identity at the first start.\<close>

definition sample_host :: "((string \<times> string) list, string, nat \<times> secret_ref \<times> string \<times> string) host" where
  "sample_host =
     \<lparr>ho_platform = Linux, ho_utf8 = \<lambda>_. True, ho_env = [''HOME'' \<mapsto> ''/h''],
      ho_args = Inr (Some \<lparr>ca_service = \<lparr>sa_config = Some ''config'', sa_identity = Some ''id'', sa_allow_generate_identity = True\<rparr>,
        ca_command = None\<rparr>),
      ho_parse_toml = \<lambda>_. Inr sample_raw, ho_init_logging = \<lambda>_. Inr (), ho_profile = sample_profile_crate,
      ho_secrets = sample_secrets, ho_publish = sample_publish, ho_codecs = sample_codecs, ho_nostr = sample_crate,
      ho_keys = id, ho_client = id, ho_io = sample_io, ho_add_relay = \<lambda>_. Inr True, ho_parse_addr = Inr,
      ho_bind = \<lambda>_ _. Inr ()\<rparr>"

lemma sample_profile_built: "authored_profile sample_profile_crate sample_metadata =
    Inr [(''name'', ''radrootsd''), (''about'', ''daemon''), (''bot'', ''1'')]"
  by (simp add: authored_profile_def sample_profile_crate_def sample_metadata_def apply_some_def Let_def media_fields_def
      bot_of_def unsupported_fields_def)

lemma sample_serves:
  assumes "mc_files M ''config'' = Some c" and "mc_files M ''id'' = None" and "mc_files M ''id.key'' = None"
    and "open_store sample_io sample_publish sample_codecs 5 ''db'' (M\<lparr>mc_files := mc_files M ++ identity_files\<rparr>) = (M', Inr ())"
  shows "\<exists>r. run_daemon sample_host sample_draws M = (M', Inr (Serving r)) \<and> tp_database_path (tb_config (ru_publish r)) = ''db''"
proof -
  have selection: "selection_from_env (ho_utf8 sample_host) (ho_env sample_host) = Inr
      \<lparr>ps_profile = InteractiveUser, ps_repo_local_root = None, ps_profile_source = ''default'', ps_repo_local_root_source = None\<rparr>"
    by (simp add: selection_from_env_def sample_host_def env_text_def)
  obtain paths where paths: "process_paths sample_host = Inr paths"
    "resolve_runtime_paths \<lparr>pr_platform = ho_platform sample_host, pr_environment = current_environment (ho_env sample_host)\<rparr>
       InteractiveUser None = Inr paths"
    using selection unfolding process_paths_def default_runtime_paths_for_process_def
    by (simp add: resolve_runtime_paths_def roots_def sample_host_def current_environment_def)
  define s where "s = into_settings sample_raw paths"
  have parts: "st_metadata s = sample_metadata" "sc_relays (st_service s) = []"
    by (simp_all add: s_def into_settings_def sample_raw_def into_service_config_def)
  have limits: "validate_transport_publish (st_transport_publish s) = Inr ()"
    by (simp add: s_def validate_transport_publish_def into_settings_def into_transport_publish_config_def sample_raw_def
        deserialize_transport_publish_def or_default_def)
  have valid: "validate_settings sample_profile_crate s = Inr ()"
    unfolding validate_settings_def parts(1) sample_profile_built by (simp add: limits)
  have crates: "ho_profile sample_host = sample_profile_crate" "ho_secrets sample_host = sample_secrets"
    "ho_io sample_host = sample_io" "ho_publish sample_host = sample_publish" "ho_codecs sample_host = sample_codecs"
    "ho_parse_toml sample_host x = Inr sample_raw" "ho_init_logging sample_host x = Inr ()" "ho_bind sample_host x y = Inr ()"
    "ho_parse_addr sample_host x = Inr x" for x y by (simp_all add: sample_host_def)
  let ?a = "\<lparr>sa_config = Some ''config'', sa_identity = Some ''id'', sa_allow_generate_identity = True\<rparr>"
  have args: "ho_args sample_host = Inr (Some \<lparr>ca_service = ?a, ca_command = None\<rparr>)" by (simp add: sample_host_def)
  have config: "read_file sample_io ''config'' (mc_files M) = Some (fl_bytes c)"
    by (simp add: read_file_def sample_io_def assms(1))
  have "load_settings sample_host M ''config'' = Inr s"
    unfolding load_settings_def selection
    using paths(2) valid by (simp add: load_settings_from_path_def config crates Let_def s_def)
  then have loaded: "load_args_and_settings sample_host M = Inr (Some (\<lparr>ca_service = ?a, ca_command = None\<rparr>, s))"
    by (simp add: load_args_and_settings_def args crates)
  have path: "tp_database_path (st_transport_publish s) = ''db''"
    by (simp add: s_def into_settings_def into_transport_publish_config_def sample_raw_def deserialize_transport_publish_def
        or_default_def)
  define M1 where "M1 = M\<lparr>mc_files := mc_files M ++ identity_files\<rparr>"
  have identity: "daemon_identity sample_host sample_draws ?a M = (M1, Inr ''k'')"
    by (simp add: daemon_identity_def resolved_identity_path_def crates sample_draws_def sample_generates [OF assms(2,3)] M1_def)
  obtain rt where opened: "new_radrootsd sample_host (dr_opened_at sample_draws) ''k'' (st_transport_publish s) (st_nip46 s) M1 = (M', Inr rt)"
    and config_of: "tb_config (snd rt) = st_transport_publish s"
    using assms(4) by (simp add: new_radrootsd_def Let_def crates sample_draws_def path M1_def)
  obtain r where started: "start_service sample_host s rt = Inr r" and "tb_config (ru_publish r) = st_transport_publish s"
    by (simp add: start_service_def start_rpc_def crates parts(2) limits config_of)
  have "run_daemon sample_host sample_draws M = (M', Inr (Serving r))"
    unfolding run_daemon_def loaded by (simp add: crates valid parts(1) sample_profile_built paths(1) identity opened started)
  then show ?thesis using \<open>tb_config (ru_publish r) = st_transport_publish s\<close> path by simp
qed

lemma sample_served: "\<exists>M' r. run_daemon sample_host sample_draws sample_machine = (M', Inr (Serving r))"
proof -
  have "mc_stores (sample_machine\<lparr>mc_files := mc_files sample_machine ++ identity_files\<rparr>) ''db'' = None"
    and files: "mc_files sample_machine ''config'' = Some \<lparr>fl_bytes = ''toml'', fl_mode = 420\<rparr>"
      "mc_files sample_machine ''id'' = None" "mc_files sample_machine ''id.key'' = None"
    by (simp_all add: sample_machine_def)
  from sample_serves [OF files sample_opened [OF this(1)]] show ?thesis by blast
qed

theorem started_daemon_ready_witness:
  "\<exists>M' r. run_daemon sample_host sample_draws sample_machine = (M', Inr (Serving r)) \<and>
    is_ok (acquire_publish_permit (tb_permits (ru_publish r)))"
proof -
  obtain M' r where run: "run_daemon sample_host sample_draws sample_machine = (M', Inr (Serving r))"
    using sample_served by blast
  from started_daemon_ready [OF this] run show ?thesis by (auto simp: Let_def)
qed

end
