(* ===== verification/Publish_Steps.thy ===== *)
theory Publish_Steps
  imports Publish_Engine
begin

text \<open>
  The atomic steps of a call of \<open>publish_event\<close> (\<open>src/core/transport_publish.rs\<close>).  The calls of the server run
  beside one another and share the store and the semaphore; another call can come in between wherever
  this one waits for the network or has given back the lock of the connection.  \<open>task_step\<close> is what a
  call does from one such point to the next, and \<open>alone_publishes\<close> says that the steps of a call that
  nothing disturbs are \<open>publish_event\<close>.
\<close>

section \<open>The parts between two waits\<close>

text \<open>The relays of the author: the cache is read under the lock, then the network is asked, and what was
  discovered is cached under the lock again.\<close>

definition plan_author_relays :: "publish_service \<Rightarrow> string \<Rightarrow> string list \<Rightarrow> tp_error + string list option \<times> resolution" where
  "plan_author_relays S pubkey cached =
     (let T = sv_nostr S; config = sv_config S; resolve = sv_resolver S;
          cached_resolution = resolve_author_relay_inputs T config resolve cached;
          discovery_relays = pn_author_relay_discovery_relays (tp_nostr config) in
      if rl_targets cached_resolution \<noteq> [] \<or> discovery_relays = [] then Inr (None, cached_resolution)
      else let discovery_targets = resolve_config_relays T config resolve discovery_relays TsDaemonDefault in
        if rl_targets discovery_targets = []
        then Inr (None, append_outcomes discovery_targets (rl_outcomes cached_resolution))
        else map_ok (\<lambda>discovered. (Some discovered,
            append_outcomes (resolve_author_relay_inputs T config resolve discovered)
              (rl_outcomes cached_resolution @ rl_outcomes discovery_targets)))
          (sv_discovery S pubkey (rl_targets discovery_targets) (tp_connect_timeout_secs config)))"

definition or_defaults :: "publish_service \<Rightarrow> resolution \<Rightarrow> resolution" where
  "or_defaults S author_relays =
     (if rl_targets author_relays = []
      then append_outcomes (resolve_daemon_default_relays (sv_nostr S) (sv_config S) (sv_resolver S)) (rl_outcomes author_relays)
      else author_relays)"

definition plan_targets ::
  "publish_service \<Rightarrow> string \<Rightarrow> event_request \<Rightarrow> tp_error + string list \<Rightarrow> tp_error + string list option \<times> resolution" where
  "plan_targets S pubkey request seen =
     (let T = sv_nostr S; config = sv_config S; resolve = sv_resolver S;
          author = map_ok (\<lambda>(discovered, r). (discovered, or_defaults S r)) (and_then seen (plan_author_relays S pubkey)) in
      case er_target_policy request of
        ExplicitTargets targets \<Rightarrow> map_ok (Pair None) (resolve_explicit_targets (sv_crates S) T config resolve targets)
      | NostrPolicy source_policy relay_urls \<Rightarrow>
          (case source_policy of
             ExplicitOnly \<Rightarrow> Inr (None, resolve_request_relays T config resolve relay_urls)
           | RequestThenAuthorWriteThenDaemonDefault \<Rightarrow>
               if relay_urls \<noteq> [] then Inr (None, resolve_request_relays T config resolve relay_urls) else author
           | AuthorWriteThenDaemonDefault \<Rightarrow> author
           | DaemonDefaultOnly \<Rightarrow> Inr (None, resolve_daemon_default_relays T config resolve)))"

definition store_discovered :: "publish_service \<Rightarrow> int \<Rightarrow> string \<Rightarrow> string list option \<Rightarrow> database \<Rightarrow> tp_error + database" where
  "store_discovered S now pubkey discovered d =
     (case discovered of None \<Rightarrow> Inr d | Some relays \<Rightarrow> cache_author_write_relays (sv_codecs S) now pubkey relays d)"

lemma resolve_targets_split:
  "resolve_targets_for_request S now pubkey request d =
     (case plan_targets S pubkey request (cached_author_write_relays (sv_codecs S) d pubkey) of
        Inl e \<Rightarrow> (d, Inl e)
      | Inr (discovered, r) \<Rightarrow>
          (case store_discovered S now pubkey discovered d of Inl e \<Rightarrow> (d, Inl e) | Inr d' \<Rightarrow> (d', Inr r)))"
proof -
  have author: "resolve_author_write_relays S now pubkey d =
     (case and_then (cached_author_write_relays (sv_codecs S) d pubkey) (plan_author_relays S pubkey) of
        Inl e \<Rightarrow> (d, Inl e)
      | Inr (discovered, r) \<Rightarrow>
          (case store_discovered S now pubkey discovered d of Inl e \<Rightarrow> (d, Inl e) | Inr d' \<Rightarrow> (d', Inr r)))"
    by (simp add: resolve_author_write_relays_def plan_author_relays_def store_discovered_def Let_def split: sum.split)
  have "resolve_author_or_default_relays S now pubkey d =
     (case map_ok (\<lambda>(discovered, r). (discovered, or_defaults S r))
           (and_then (cached_author_write_relays (sv_codecs S) d pubkey) (plan_author_relays S pubkey)) of
        Inl e \<Rightarrow> (d, Inl e)
      | Inr (discovered, r) \<Rightarrow>
          (case store_discovered S now pubkey discovered d of Inl e \<Rightarrow> (d, Inl e) | Inr d' \<Rightarrow> (d', Inr r)))"
    unfolding resolve_author_or_default_relays_def author or_defaults_def by (simp split: sum.split)
  note default = this
  show ?thesis
  proof (cases "er_target_policy request")
    case (ExplicitTargets targets)
    show ?thesis
      by (cases "resolve_explicit_targets (sv_crates S) (sv_nostr S) (sv_config S) (sv_resolver S) targets")
        (simp_all add: resolve_targets_for_request_def plan_targets_def ExplicitTargets Let_def store_discovered_def)
  next
    case (NostrPolicy source urls)
    then show ?thesis
      using default by (cases source) (simp_all add: resolve_targets_for_request_def plan_targets_def Let_def store_discovered_def)
  qed
qed

text \<open>The insertion of a job, up to \<open>COMMIT\<close>.\<close>

definition add_job_rows ::
  "publish_crates \<Rightarrow> codecs \<Rightarrow> string \<Rightarrow> int \<Rightarrow> job_insert \<Rightarrow> database \<Rightarrow> tp_error + database" where
  "add_job_rows P K job_id now i d =
     and_then (encode (cd_request K) (ji_request i)) (\<lambda>request_json.
     and_then (storage_count_i64 (pc_request_target_count P (er_target_policy (ji_request i))) ''requested_target_count'')
       (\<lambda>requested_count.
     and_then (storage_count_i64 (ji_effective_target_count i) ''effective_target_count'') (\<lambda>effective_count.
       record_transaction K job_id now request_json requested_count effective_count i d)))"

lemma insert_publish_job_split:
  "insert_publish_job P K job_id now i d =
     (case add_job_rows P K job_id now i d of
        Inl e \<Rightarrow> (d, Inl e)
      | Inr d' \<Rightarrow> (d', map_ok (\<lambda>j. \<lparr>rs_deduplicated = False, rs_job = j\<rparr>) (job_by_id P K d' job_id)))"
  by (simp add: insert_publish_job_def add_job_rows_def)

text \<open>The execution of a job: what is decided before the attempt, and what is made of its receipts.\<close>

datatype plan = FinishAs job_status "target_outcome list" "string option" | AttemptWith publish_request

definition execution_plan ::
  "publish_service \<Rightarrow> clocks \<Rightarrow> signed_event \<Rightarrow> delivery_policy \<Rightarrow> resolution \<Rightarrow> tp_error + plan" where
  "execution_plan S ck e policy r =
     (let P = sv_crates S; T = sv_nostr S; n = target_count r in
      if rl_targets r = [] then
        let status = (if rl_outcomes r = [] then JsRejected else delivery_status P policy n (rl_outcomes r))
        in Inr (FinishAs status (rl_outcomes r) (last_error_for_status status))
      else if n < pc_required_target_count P policy n then
        Inr (FinishAs JsRejected (rl_outcomes r) (Some ''delivery_quorum_exceeds_target_count''))
      else map_ok (\<lambda>target_set. AttemptWith \<lparr>rp_signed_event = e, rp_targets = target_set, rp_now_ms = ck_request_ms ck\<rparr>)
        (map_err (\<lambda>e. TpRelay (relay_publish_error_text e)) (from_urls T (map rv_url (rl_targets r)))))"

definition attempt_outcomes ::
  "publish_service \<Rightarrow> clocks \<Rightarrow> resolution \<Rightarrow> relay_publish_receipt list \<Rightarrow> target_outcome list" where
  "attempt_outcomes S ck r receipts =
     rl_outcomes r @ concat (map (publish_outcomes_from_receipt (sv_nostr S) (rl_targets r)
       (Some (latency_u64 (ck_latency_ms ck)))) receipts)"

lemma complete_job_execution_split:
  "complete_job_execution S adapter ck job_id e policy timeout_ms r d =
     (case execution_plan S ck e policy r of
        Inl error \<Rightarrow> (d, Inl error)
      | Inr (FinishAs status outcomes last_error) \<Rightarrow> finish_job S (ck_completed_ms ck) job_id status outcomes last_error d
      | Inr (AttemptWith request) \<Rightarrow>
          let outcomes = attempt_outcomes S ck r (job_receipts (sv_nostr S) adapter request timeout_ms);
              status = delivery_status (sv_crates S) policy (target_count r) outcomes
          in finish_job S (ck_completed_ms ck) job_id status outcomes (last_error_for_status status) d)"
  by (simp add: complete_job_execution_def execution_plan_def attempt_outcomes_def Let_def split: sum.split)

section \<open>The steps of a call\<close>

text \<open>A job is read in two steps, since its row and its outcomes are read under the lock one after the
  other; \<open>next\<close> is what the reading is for.\<close>

datatype "next" = ToExecute signed_event u64 resolution | ToAnswer

datatype phase =
  Received
| Resolving signed_event u64 string
| Caching signed_event u64 string "string list option" resolution
| Looking signed_event u64 job_insert resolution
| Known job_insert publish_job_row
| Inserting signed_event u64 job_insert resolution
| Fetching string "next"
| Showing publish_job_row "next"
| Starting string signed_event u64 resolution
| Attempting string u64 resolution publish_request
| Storing string job_status "target_outcome list" "string option"
| Answered "tp_error + event_response"
| Dropped

text \<open>A call, with the identifier of the job that it has put into the store, if it has.\<close>

record task =
  tk_principal :: principal
  tk_request :: event_request
  tk_inputs :: publish_inputs
  tk_phase :: phase
  tk_job :: "string option"

text \<open>A call has its permit until it returns.\<close>

fun holds_permit :: "phase \<Rightarrow> bool" where
  "holds_permit Received = False"
| "holds_permit (Answered r) = False"
| "holds_permit Dropped = False"
| "holds_permit ph = True"

text \<open>What calls share: the store, the free permits of the semaphore, and, to speak of what was sent, the
  attempts that were begun, each with its job, its principal, and the key of its request.\<close>

record attempt =
  at_job :: string
  at_principal :: string
  at_key :: "string option"

record shared =
  sh_database :: database
  sh_permits :: nat
  sh_attempts :: "attempt list"

definition answer :: "tp_error + event_response \<Rightarrow> task \<Rightarrow> shared \<Rightarrow> task \<times> shared" where
  "answer r t s = (t\<lparr>tk_phase := Answered r\<rparr>, s\<lparr>sh_permits := sh_permits s + (if holds_permit (tk_phase t) then 1 else 0)\<rparr>)"

definition proceed :: "phase \<Rightarrow> task \<Rightarrow> shared \<Rightarrow> task \<times> shared" where
  "proceed ph t s = (t\<lparr>tk_phase := ph\<rparr>, s)"

definition or_answer :: "tp_error + 'a \<Rightarrow> ('a \<Rightarrow> task \<Rightarrow> shared \<Rightarrow> task \<times> shared) \<Rightarrow> task \<Rightarrow> shared \<Rightarrow> task \<times> shared" where
  "or_answer r k t s = (case r of Inl error \<Rightarrow> answer (Inl error) t s | Inr x \<Rightarrow> k x t s)"

section \<open>One step\<close>

definition receive_step :: "publish_service \<Rightarrow> task \<Rightarrow> shared \<Rightarrow> task \<times> shared" where
  "receive_step S t s =
     or_answer (and_then (check_request S (tk_principal t) (tk_request t)) (\<lambda>checked.
         and_then (acquire_publish_permit (sh_permits s)) (\<lambda>left. Inr (checked, left))))
       (\<lambda>((e, timeout_ms), left) t s.
         or_answer (request_intent_fingerprint (sv_crates S) (in_to_vec (tk_inputs t)) (pp_principal_id (tk_principal t))
             (se_raw_json e) (tk_request t) timeout_ms)
           (\<lambda>fingerprint. proceed (Resolving e timeout_ms fingerprint))
           (t\<lparr>tk_phase := Resolving e timeout_ms []\<rparr>) (s\<lparr>sh_permits := left\<rparr>)) t s"

definition resolve_step :: "publish_service \<Rightarrow> signed_event \<Rightarrow> u64 \<Rightarrow> string \<Rightarrow> task \<Rightarrow> shared \<Rightarrow> task \<times> shared" where
  "resolve_step S e timeout_ms fingerprint t s =
     or_answer (plan_targets S (se_pubkey e) (tk_request t)
         (cached_author_write_relays (sv_codecs S) (sh_database s) (se_pubkey e)))
       (\<lambda>(discovered, r). proceed (Caching e timeout_ms fingerprint discovered r)) t s"

definition cache_step ::
  "publish_service \<Rightarrow> signed_event \<Rightarrow> u64 \<Rightarrow> string \<Rightarrow> string list option \<Rightarrow> resolution \<Rightarrow> task \<Rightarrow> shared \<Rightarrow> task \<times> shared" where
  "cache_step S e timeout_ms fingerprint discovered r t s =
     or_answer (store_discovered S (in_cache_ms (tk_inputs t)) (se_pubkey e) discovered (sh_database s))
       (\<lambda>d t s.
         let s' = s\<lparr>sh_database := d\<rparr>; i = job_insert_of S (tk_principal t) (tk_request t) e fingerprint r in
         or_answer (validate_delivery_policy_for_resolution (sv_crates S) (sv_nostr S) (er_delivery_policy (tk_request t)) r)
           (\<lambda>_. if ji_effective_target_count i \<noteq> length (ji_target_snapshots i)
              then answer (Inl (TpInvalidScope ''publish job target snapshot count must match effective target count''))
              else proceed (Looking e timeout_ms i r)) t s') t s"

definition look_step :: "publish_service \<Rightarrow> signed_event \<Rightarrow> u64 \<Rightarrow> job_insert \<Rightarrow> resolution \<Rightarrow> task \<Rightarrow> shared \<Rightarrow> task \<times> shared" where
  "look_step S e timeout_ms i r t s =
     (case ji_idempotency_key i of
        None \<Rightarrow> proceed (Inserting e timeout_ms i r) t s
      | Some key \<Rightarrow>
          or_answer (map_transpose (job_from_row (sv_codecs S))
              (find (\<lambda>w. jw_principal_id w = ji_principal_id i \<and> jw_idempotency_key w = Some key) (db_jobs (sh_database s))))
            (\<lambda>found. case found of None \<Rightarrow> proceed (Inserting e timeout_ms i r) | Some row \<Rightarrow> proceed (Known i row)) t s)"

definition known_step :: "publish_service \<Rightarrow> job_insert \<Rightarrow> publish_job_row \<Rightarrow> task \<Rightarrow> shared \<Rightarrow> task \<times> shared" where
  "known_step S i row t s =
     or_answer (finalize_job_row_for_egress (sv_crates S) (sv_codecs S) (sh_database s) row)
       (\<lambda>existing. answer (if pj_request_fingerprint existing \<noteq> ji_request_fingerprint i
          then Inl (TpIdempotencyConflict (case ji_idempotency_key i of Some k \<Rightarrow> k | None \<Rightarrow> []))
          else Inr \<lparr>rs_deduplicated = True, rs_job = pj_view existing\<rparr>)) t s"

definition insert_step :: "publish_service \<Rightarrow> signed_event \<Rightarrow> u64 \<Rightarrow> job_insert \<Rightarrow> resolution \<Rightarrow> task \<Rightarrow> shared \<Rightarrow> task \<times> shared" where
  "insert_step S e timeout_ms i r t s =
     (let job_id = in_job_id (tk_inputs t) in
      or_answer (add_job_rows (sv_crates S) (sv_codecs S) job_id (in_record_ms (tk_inputs t)) i (sh_database s))
        (\<lambda>d t s. (t\<lparr>tk_phase := Fetching job_id (ToExecute e timeout_ms r), tk_job := Some job_id\<rparr>, s\<lparr>sh_database := d\<rparr>)) t s)"

definition fetch_step :: "publish_service \<Rightarrow> string \<Rightarrow> next \<Rightarrow> task \<Rightarrow> shared \<Rightarrow> task \<times> shared" where
  "fetch_step S job_id n t s =
     or_answer (map_transpose (job_from_row (sv_codecs S)) (find (\<lambda>w. jw_job_id w = job_id) (db_jobs (sh_database s))))
       (\<lambda>found. case found of
          None \<Rightarrow> answer (Inl (TpInvalidScope ''unknown publish job''))
        | Some row \<Rightarrow> proceed (Showing row n)) t s"

definition show_step :: "publish_service \<Rightarrow> publish_job_row \<Rightarrow> next \<Rightarrow> task \<Rightarrow> shared \<Rightarrow> task \<times> shared" where
  "show_step S row n t s =
     or_answer (finalize_job_row_for_egress (sv_crates S) (sv_codecs S) (sh_database s) row)
       (\<lambda>shown. case n of
          ToExecute e timeout_ms r \<Rightarrow> proceed (Starting (jb_job_id (pj_view shown)) e timeout_ms r)
        | ToAnswer \<Rightarrow> answer (Inr \<lparr>rs_deduplicated = False, rs_job = pj_view shown\<rparr>)) t s"

definition start_step :: "publish_service \<Rightarrow> string \<Rightarrow> signed_event \<Rightarrow> u64 \<Rightarrow> resolution \<Rightarrow> task \<Rightarrow> shared \<Rightarrow> task \<times> shared" where
  "start_step S job_id e timeout_ms r t s =
     or_answer (execution_plan S (in_clocks (tk_inputs t)) e (er_delivery_policy (tk_request t)) r)
       (\<lambda>p t s. case p of
          FinishAs status outcomes last_error \<Rightarrow> proceed (Storing job_id status outcomes last_error) t s
        | AttemptWith request \<Rightarrow> (t\<lparr>tk_phase := Attempting job_id timeout_ms r request\<rparr>,
            s\<lparr>sh_attempts := sh_attempts s @ [\<lparr>at_job = job_id, at_principal = pp_principal_id (tk_principal t),
                at_key = er_idempotency_key (tk_request t)\<rparr>]\<rparr>)) t s"

definition receipts_step ::
  "publish_service \<Rightarrow> adapter \<Rightarrow> string \<Rightarrow> u64 \<Rightarrow> resolution \<Rightarrow> publish_request \<Rightarrow> task \<Rightarrow> shared \<Rightarrow> task \<times> shared" where
  "receipts_step S adapter job_id timeout_ms r request t s =
     (let outcomes = attempt_outcomes S (in_clocks (tk_inputs t)) r (job_receipts (sv_nostr S) adapter request timeout_ms);
          status = delivery_status (sv_crates S) (er_delivery_policy (tk_request t)) (target_count r) outcomes
      in proceed (Storing job_id status outcomes (last_error_for_status status)) t s)"

definition finish_step ::
  "publish_service \<Rightarrow> string \<Rightarrow> job_status \<Rightarrow> target_outcome list \<Rightarrow> string option \<Rightarrow> task \<Rightarrow> shared \<Rightarrow> task \<times> shared" where
  "finish_step S job_id status outcomes last_error t s =
     (case complete_publish_job (sv_codecs S) (ck_completed_ms (in_clocks (tk_inputs t))) job_id status outcomes last_error
         (sh_database s) of
        (d, result) \<Rightarrow> or_answer result (\<lambda>_. proceed (Fetching job_id ToAnswer)) t (s\<lparr>sh_database := d\<rparr>))"

fun task_step :: "publish_service \<Rightarrow> adapter \<Rightarrow> phase \<Rightarrow> task \<Rightarrow> shared \<Rightarrow> task \<times> shared" where
  "task_step S A Received = receive_step S"
| "task_step S A (Resolving e timeout_ms fingerprint) = resolve_step S e timeout_ms fingerprint"
| "task_step S A (Caching e timeout_ms fingerprint discovered r) = cache_step S e timeout_ms fingerprint discovered r"
| "task_step S A (Looking e timeout_ms i r) = look_step S e timeout_ms i r"
| "task_step S A (Known i row) = known_step S i row"
| "task_step S A (Inserting e timeout_ms i r) = insert_step S e timeout_ms i r"
| "task_step S A (Fetching job_id n) = fetch_step S job_id n"
| "task_step S A (Showing row n) = show_step S row n"
| "task_step S A (Starting job_id e timeout_ms r) = start_step S job_id e timeout_ms r"
| "task_step S A (Attempting job_id timeout_ms r request) = receipts_step S A job_id timeout_ms r request"
| "task_step S A (Storing job_id status outcomes last_error) = finish_step S job_id status outcomes last_error"
| "task_step S A (Answered r) = Pair"
| "task_step S A Dropped = Pair"

section \<open>A call alone\<close>

fun run_task :: "publish_service \<Rightarrow> adapter \<Rightarrow> nat \<Rightarrow> task \<times> shared \<Rightarrow> task \<times> shared" where
  "run_task S A 0 c = c"
| "run_task S A (Suc n) (t, s) = run_task S A n (task_step S A (tk_phase t) t s)"

text \<open>After \<open>n\<close> steps the call has been answered, with the database and the free permits left as given.\<close>

definition settles ::
  "publish_service \<Rightarrow> adapter \<Rightarrow> nat \<Rightarrow> task \<times> shared \<Rightarrow> database \<times> (tp_error + event_response) \<Rightarrow> nat \<Rightarrow> bool" where
  "settles S A n c out permits \<longleftrightarrow>
     (case run_task S A n c of (t, s) \<Rightarrow> tk_phase t = Answered (snd out) \<and> sh_database s = fst out \<and> sh_permits s = permits)"

lemma run_answered: "tk_phase t = Answered r \<Longrightarrow> run_task S A n (t, s) = (t, s)"
  by (induction n) simp_all

lemma settles_answer:
  "holds_permit (tk_phase t) \<Longrightarrow> settles S A n (answer r t s) (sh_database s, r) (Suc (sh_permits s))"
  by (simp add: settles_def answer_def run_answered)

lemma settles_proceed:
  "settles S A (Suc n) (proceed ph t s) out permits = settles S A n (task_step S A ph (t\<lparr>tk_phase := ph\<rparr>) s) out permits"
  by (simp add: settles_def proceed_def)

lemma settles_or_answer:
  assumes "holds_permit (tk_phase t)" and "\<And>x. r = Inr x \<Longrightarrow> settles S A n (k x t s) (f x) (Suc (sh_permits s))"
  shows "settles S A n (or_answer r k t s) (case r of Inl e \<Rightarrow> (sh_database s, Inl e) | Inr x \<Rightarrow> f x) (Suc (sh_permits s))"
  using assms by (cases r) (simp_all add: or_answer_def settles_answer)

lemma settles_show:
  assumes "tk_phase t = Showing row ToAnswer"
  shows "settles S A n (show_step S row ToAnswer t s)
    (sh_database s, map_ok (\<lambda>r. \<lparr>rs_deduplicated = False, rs_job = pj_view r\<rparr>)
      (finalize_job_row_for_egress (sv_crates S) (sv_codecs S) (sh_database s) row)) (Suc (sh_permits s))"
  by (cases "finalize_job_row_for_egress (sv_crates S) (sv_codecs S) (sh_database s) row")
    (simp_all add: show_step_def or_answer_def settles_answer assms)

lemma fetch_answer:
  assumes "tk_phase t = Fetching job_id m"
    and "\<And>row n. job_from_row (sv_codecs S) row = Inr n \<Longrightarrow> jw_job_id row = job_id \<Longrightarrow>
      settles S A n' (proceed (Showing n m) t s) (f (finalize_job_row_for_egress (sv_crates S) (sv_codecs S) (sh_database s) n)) (Suc (sh_permits s))"
    and "\<And>e. f (Inl e) = (sh_database s, Inl e)"
  shows "settles S A n' (fetch_step S job_id m t s)
    (case and_then (map_transpose (job_from_row (sv_codecs S)) (find (\<lambda>w. jw_job_id w = job_id) (db_jobs (sh_database s)))) (\<lambda>row.
       case row of None \<Rightarrow> Inl (TpInvalidScope ''unknown publish job'')
       | Some row \<Rightarrow> finalize_job_row_for_egress (sv_crates S) (sv_codecs S) (sh_database s) row) of
      Inl e \<Rightarrow> (sh_database s, Inl e) | Inr row \<Rightarrow> f (Inr row)) (Suc (sh_permits s))"
proof (cases "find (\<lambda>w. jw_job_id w = job_id) (db_jobs (sh_database s))")
  case None
  then show ?thesis by (simp add: fetch_step_def or_answer_def settles_answer assms(1))
next
  case (Some row)
  then have id: "jw_job_id row = job_id" by (auto simp: find_Some_iff)
  show ?thesis
  proof (cases "job_from_row (sv_codecs S) row")
    case (Inl e)
    then show ?thesis by (simp add: fetch_step_def or_answer_def settles_answer assms(1) Some)
  next
    case (Inr r)
    have "(case finalize_job_row_for_egress (sv_crates S) (sv_codecs S) (sh_database s) r of
        Inl e \<Rightarrow> (sh_database s, Inl e) | Inr row \<Rightarrow> f (Inr row)) =
      f (finalize_job_row_for_egress (sv_crates S) (sv_codecs S) (sh_database s) r)"
      by (simp add: assms(3) split: sum.split)
    then show ?thesis using assms(2) [OF Inr id] by (simp add: fetch_step_def or_answer_def Some Inr)
  qed
qed

lemma job_by_id_rows:
  "job_by_id P K d job_id = map_ok pj_view (and_then (map_transpose (job_from_row K) (find (\<lambda>w. jw_job_id w = job_id) (db_jobs d)))
     (\<lambda>row. case row of None \<Rightarrow> Inl (TpInvalidScope ''unknown publish job'') | Some row \<Rightarrow> finalize_job_row_for_egress P K d row))"
proof (cases "map_transpose (job_from_row K) (find (\<lambda>w. jw_job_id w = job_id) (db_jobs d))")
  case (Inr r)
  then show ?thesis by (cases r) (simp_all add: job_by_id_def)
qed (simp add: job_by_id_def)

lemma settles_fetch:
  assumes "tk_phase t = Fetching job_id ToAnswer"
  shows "settles S A (Suc n) (fetch_step S job_id ToAnswer t s)
    (sh_database s, map_ok (\<lambda>j. \<lparr>rs_deduplicated = False, rs_job = j\<rparr>) (job_by_id (sv_crates S) (sv_codecs S) (sh_database s) job_id))
    (Suc (sh_permits s))"
proof -
  define f :: "tp_error + publish_job_row \<Rightarrow> database \<times> (tp_error + event_response)"
    where "f x = (sh_database s, map_ok (\<lambda>r. \<lparr>rs_deduplicated = False, rs_job = pj_view r\<rparr>) x)" for x
  have "settles S A (Suc n) (proceed (Showing m ToAnswer) t s)
      (f (finalize_job_row_for_egress (sv_crates S) (sv_codecs S) (sh_database s) m)) (Suc (sh_permits s))" for m
    using settles_show [of "t\<lparr>tk_phase := Showing m ToAnswer\<rparr>"] by (simp add: settles_proceed f_def)
  from fetch_answer [where f = f, OF assms this] show ?thesis
    unfolding job_by_id_rows by (simp add: f_def split: sum.splits)
qed

lemma settles_store:
  assumes "tk_phase t = Storing job_id status outcomes last_error"
  shows "settles S A (Suc (Suc n)) (finish_step S job_id status outcomes last_error t s)
    (case finish_job S (ck_completed_ms (in_clocks (tk_inputs t))) job_id status outcomes last_error (sh_database s) of
       (d, r) \<Rightarrow> (d, map_ok (\<lambda>j. \<lparr>rs_deduplicated = False, rs_job = j\<rparr>) r)) (Suc (sh_permits s))"
proof -
  obtain d r where run: "complete_publish_job (sv_codecs S) (ck_completed_ms (in_clocks (tk_inputs t))) job_id status outcomes
      last_error (sh_database s) = (d, r)" by fastforce
  show ?thesis
  proof (cases r)
    case (Inl e)
    then show ?thesis using settles_answer [of t S A "Suc (Suc n)" "Inl e" "s\<lparr>sh_database := d\<rparr>"] assms
      by (simp add: finish_step_def run or_answer_def finish_job_def)
  next
    case (Inr u)
    then show ?thesis
      using settles_fetch [of "t\<lparr>tk_phase := Fetching job_id ToAnswer\<rparr>" job_id S A n "s\<lparr>sh_database := d\<rparr>"]
      by (simp add: finish_step_def run or_answer_def finish_job_def settles_proceed)
  qed
qed

lemma settles_start:
  assumes "tk_phase t = Starting job_id e timeout_ms r"
  shows "settles S A (Suc (Suc (Suc (Suc n)))) (start_step S job_id e timeout_ms r t s)
    (case complete_job_execution S A (in_clocks (tk_inputs t)) job_id e (er_delivery_policy (tk_request t)) timeout_ms r (sh_database s) of
       (d, r) \<Rightarrow> (d, map_ok (\<lambda>j. \<lparr>rs_deduplicated = False, rs_job = j\<rparr>) r)) (Suc (sh_permits s))"
proof (cases "execution_plan S (in_clocks (tk_inputs t)) e (er_delivery_policy (tk_request t)) r")
  case (Inl error)
  then show ?thesis by (simp add: start_step_def or_answer_def settles_answer assms complete_job_execution_split)
next
  case (Inr p)
  show ?thesis
  proof (cases p)
    case (FinishAs status outcomes last_error)
    then show ?thesis
      using settles_store [of "t\<lparr>tk_phase := Storing job_id status outcomes last_error\<rparr>"]
      by (simp add: start_step_def or_answer_def Inr complete_job_execution_split settles_proceed)
  next
    case (AttemptWith request)
    let ?ph = "Attempting job_id timeout_ms r request"
    let ?s = "s\<lparr>sh_attempts := sh_attempts s @ [\<lparr>at_job = job_id, at_principal = pp_principal_id (tk_principal t),
                at_key = er_idempotency_key (tk_request t)\<rparr>]\<rparr>"
    have start: "start_step S job_id e timeout_ms r t s = proceed ?ph t ?s"
      by (simp add: start_step_def or_answer_def Inr AttemptWith proceed_def)
    let ?outcomes = "attempt_outcomes S (in_clocks (tk_inputs t)) r (job_receipts (sv_nostr S) A request timeout_ms)"
    let ?status = "delivery_status (sv_crates S) (er_delivery_policy (tk_request t)) (target_count r) ?outcomes"
    show ?thesis unfolding start settles_proceed
      using settles_store [of "t\<lparr>tk_phase := Storing job_id ?status ?outcomes (last_error_for_status ?status)\<rparr>"
          job_id ?status ?outcomes "last_error_for_status ?status" S A n ?s]
      by (simp add: receipts_step_def Let_def settles_proceed complete_job_execution_split Inr AttemptWith)
  qed
qed

definition execute_recorded ::
  "publish_service \<Rightarrow> adapter \<Rightarrow> clocks \<Rightarrow> delivery_policy \<Rightarrow> signed_event \<Rightarrow> u64 \<Rightarrow> resolution
     \<Rightarrow> database \<times> (tp_error + event_response) \<Rightarrow> database \<times> (tp_error + event_response)" where
  "execute_recorded S A ck policy e timeout_ms r recorded =
     (case recorded of
        (d1, Inl error) \<Rightarrow> (d1, Inl error)
      | (d1, Inr response) \<Rightarrow>
          if rs_deduplicated response then (d1, Inr response)
          else case complete_job_execution S A ck (jb_job_id (rs_job response)) e policy timeout_ms r d1 of
                 (d2, Inl error) \<Rightarrow> (d2, Inl error)
               | (d2, Inr completed) \<Rightarrow> (d2, Inr \<lparr>rs_deduplicated = False, rs_job = completed\<rparr>))"

lemma settles_step: "settles S A (Suc n) (t, s) out permits = settles S A n (task_step S A (tk_phase t) t s) out permits"
  by (simp add: settles_def)

lemma settles_execute:
  assumes "tk_phase t = Fetching job_id (ToExecute e timeout_ms r)"
  shows "settles S A (Suc (Suc (Suc (Suc (Suc (Suc n)))))) (fetch_step S job_id (ToExecute e timeout_ms r) t s)
    (execute_recorded S A (in_clocks (tk_inputs t)) (er_delivery_policy (tk_request t)) e timeout_ms r (sh_database s,
       map_ok (\<lambda>j. \<lparr>rs_deduplicated = False, rs_job = j\<rparr>) (job_by_id (sv_crates S) (sv_codecs S) (sh_database s) job_id)))
    (Suc (sh_permits s))"
proof -
  define f :: "tp_error + publish_job_row \<Rightarrow> database \<times> (tp_error + event_response)"
    where "f x = execute_recorded S A (in_clocks (tk_inputs t)) (er_delivery_policy (tk_request t)) e timeout_ms r (sh_database s,
    map_ok (\<lambda>j. \<lparr>rs_deduplicated = False, rs_job = j\<rparr>) (map_ok pj_view x))" for x
  have f: "f (Inl e) = (sh_database s, Inl e)" for e by (simp add: f_def execute_recorded_def)
  have "settles S A (Suc (Suc (Suc (Suc (Suc (Suc n)))))) (proceed (Showing m (ToExecute e timeout_ms r)) t s)
      (f (finalize_job_row_for_egress (sv_crates S) (sv_codecs S) (sh_database s) m)) (Suc (sh_permits s))" for m
  proof (cases "finalize_job_row_for_egress (sv_crates S) (sv_codecs S) (sh_database s) m")
    case (Inl e')
    then show ?thesis by (simp add: settles_proceed show_step_def or_answer_def settles_answer f)
  next
    case (Inr row)
    let ?ph = "Starting (jb_job_id (pj_view row)) e timeout_ms r"
    have "f (Inr row) = (case complete_job_execution S A (in_clocks (tk_inputs t)) (jb_job_id (pj_view row)) e
        (er_delivery_policy (tk_request t)) timeout_ms r (sh_database s) of
       (d, r) \<Rightarrow> (d, map_ok (\<lambda>j. \<lparr>rs_deduplicated = False, rs_job = j\<rparr>) r))"
      by (simp add: f_def execute_recorded_def split: prod.split sum.split)
    moreover have "show_step S m (ToExecute e timeout_ms r) (t\<lparr>tk_phase := Showing m (ToExecute e timeout_ms r)\<rparr>) s = proceed ?ph (t\<lparr>tk_phase := Showing m (ToExecute e timeout_ms r)\<rparr>) s"
      by (simp add: show_step_def or_answer_def Inr)
    ultimately show ?thesis
      using settles_start [of "t\<lparr>tk_phase := ?ph\<rparr>" "jb_job_id (pj_view row)" e timeout_ms r S A n s]
      by (simp add: settles_proceed Inr)
  qed
  from fetch_answer [OF assms this f] show ?thesis
    unfolding job_by_id_rows f_def
    by (cases "and_then (map_transpose (job_from_row (sv_codecs S)) (find (\<lambda>w. jw_job_id w = job_id) (db_jobs (sh_database s))))
      (\<lambda>row. case row of None \<Rightarrow> Inl (TpInvalidScope ''unknown publish job'')
       | Some row \<Rightarrow> finalize_job_row_for_egress (sv_crates S) (sv_codecs S) (sh_database s) row)")
      (simp_all only: sum.case map_ok.simps, simp add: execute_recorded_def)
qed

lemma settles_insert:
  assumes "tk_phase t = Inserting e timeout_ms i r"
  shows "settles S A (Suc (Suc (Suc (Suc (Suc (Suc (Suc n))))))) (insert_step S e timeout_ms i r t s)
    (execute_recorded S A (in_clocks (tk_inputs t)) (er_delivery_policy (tk_request t)) e timeout_ms r (insert_publish_job (sv_crates S) (sv_codecs S) (in_job_id (tk_inputs t))
       (in_record_ms (tk_inputs t)) i (sh_database s))) (Suc (sh_permits s))"
proof (cases "add_job_rows (sv_crates S) (sv_codecs S) (in_job_id (tk_inputs t)) (in_record_ms (tk_inputs t)) i (sh_database s)")
  case (Inl error)
  then show ?thesis
    by (simp add: insert_step_def or_answer_def settles_answer assms insert_publish_job_split execute_recorded_def)
next
  case (Inr d)
  let ?id = "in_job_id (tk_inputs t)"
  let ?t = "t\<lparr>tk_phase := Fetching ?id (ToExecute e timeout_ms r), tk_job := Some ?id\<rparr>"
  have "insert_step S e timeout_ms i r t s = (?t, s\<lparr>sh_database := d\<rparr>)"
    by (simp add: insert_step_def or_answer_def Let_def Inr)
  then show ?thesis
    using settles_execute [of ?t ?id e timeout_ms r S A n "s\<lparr>sh_database := d\<rparr>"]
    by (simp add: settles_step insert_publish_job_split Inr)
qed
lemma settles_look:
  assumes "tk_phase t = Looking e timeout_ms i r" and "ji_effective_target_count i = length (ji_target_snapshots i)"
  shows "settles S A (Suc (Suc (Suc (Suc (Suc (Suc (Suc (Suc n)))))))) (look_step S e timeout_ms i r t s)
    (execute_recorded S A (in_clocks (tk_inputs t)) (er_delivery_policy (tk_request t)) e timeout_ms r
       (record_publish_job (sv_crates S) (sv_codecs S) (in_job_id (tk_inputs t)) (in_record_ms (tk_inputs t)) i (sh_database s)))
    (Suc (sh_permits s))"
proof -
  let ?d = "sh_database s"
  let ?res = "record_publish_job (sv_crates S) (sv_codecs S) (in_job_id (tk_inputs t)) (in_record_ms (tk_inputs t)) i ?d"
  have new: ?thesis
    if "lookup_idempotent (sv_crates S) (sv_codecs S) ?d i = Inr None"
      and "look_step S e timeout_ms i r t s = proceed (Inserting e timeout_ms i r) t s"
    using settles_insert [of "t\<lparr>tk_phase := Inserting e timeout_ms i r\<rparr>" e timeout_ms i r S A n s]
    by (simp add: that settles_proceed record_publish_job_def assms(2))
  show ?thesis
  proof (cases "ji_idempotency_key i")
    case None
    then show ?thesis by (intro new) (simp_all add: lookup_idempotent_def look_step_def)
  next
    case (Some key)
    let ?found = "map_transpose (job_from_row (sv_codecs S))
      (find (\<lambda>w. jw_principal_id w = ji_principal_id i \<and> jw_idempotency_key w = Some key) (db_jobs ?d))"
    show ?thesis
    proof (cases ?found)
      case (Inl error)
      then have "?res = (?d, Inl error)"
        by (simp add: record_publish_job_def assms(2) lookup_idempotent_def Some job_for_principal_id_and_key_def)
      moreover have "look_step S e timeout_ms i r t s = answer (Inl error) t s"
        by (simp add: look_step_def Some or_answer_def Inl)
      ultimately show ?thesis by (simp add: execute_recorded_def settles_answer assms(1))
    next
      case (Inr found)
      show ?thesis
      proof (cases found)
        case None
        with Inr Some show ?thesis
          by (intro new) (simp_all add: lookup_idempotent_def look_step_def or_answer_def job_for_principal_id_and_key_def)
      next
        case (Some row)
        let ?egress = "finalize_job_row_for_egress (sv_crates S) (sv_codecs S) ?d row"
        have look: "look_step S e timeout_ms i r t s = proceed (Known i row) t s"
          by (simp add: look_step_def \<open>ji_idempotency_key i = Some key\<close> or_answer_def Inr Some)
        have lookup: "lookup_idempotent (sv_crates S) (sv_codecs S) ?d i = map_ok Some ?egress"
          by (simp add: lookup_idempotent_def \<open>ji_idempotency_key i = Some key\<close> job_for_principal_id_and_key_def Inr Some)
        show ?thesis
          by (cases ?egress) (simp_all add: look settles_proceed known_step_def or_answer_def record_publish_job_def assms(2)
              lookup execute_recorded_def settles_answer)
      qed
    qed
  qed
qed

lemma settles_cache:
  assumes "tk_phase t = Caching e timeout_ms fingerprint discovered r"
  shows "settles S A (Suc (Suc (Suc (Suc (Suc (Suc (Suc (Suc (Suc n)))))))))
    (cache_step S e timeout_ms fingerprint discovered r t s)
    (case store_discovered S (in_cache_ms (tk_inputs t)) (se_pubkey e) discovered (sh_database s) of
       Inl error \<Rightarrow> (sh_database s, Inl error)
     | Inr d1 \<Rightarrow>
         (case validate_delivery_policy_for_resolution (sv_crates S) (sv_nostr S) (er_delivery_policy (tk_request t)) r of
            Inl error \<Rightarrow> (d1, Inl error)
          | Inr _ \<Rightarrow> execute_recorded S A (in_clocks (tk_inputs t)) (er_delivery_policy (tk_request t)) e timeout_ms r
              (record_publish_job (sv_crates S) (sv_codecs S) (in_job_id (tk_inputs t)) (in_record_ms (tk_inputs t))
                (job_insert_of S (tk_principal t) (tk_request t) e fingerprint r) d1)))
    (Suc (sh_permits s))"
proof (cases "store_discovered S (in_cache_ms (tk_inputs t)) (se_pubkey e) discovered (sh_database s)")
  case (Inl error)
  then show ?thesis by (simp add: cache_step_def or_answer_def settles_answer assms)
next
  case (Inr d1)
  let ?i = "job_insert_of S (tk_principal t) (tk_request t) e fingerprint r" and ?s = "s\<lparr>sh_database := d1\<rparr>"
  have counted: "ji_effective_target_count ?i = length (ji_target_snapshots ?i)"
    by (simp add: job_insert_of_def length_snapshots)
  show ?thesis
  proof (cases "validate_delivery_policy_for_resolution (sv_crates S) (sv_nostr S) (er_delivery_policy (tk_request t)) r")
    case (Inl error)
    then show ?thesis
      using settles_answer [of t S A _ "Inl error" ?s] by (simp add: cache_step_def or_answer_def Let_def Inr assms)
  next
    case (Inr u)
    have "cache_step S e timeout_ms fingerprint discovered r t s = proceed (Looking e timeout_ms ?i r) t ?s"
      using counted by (simp add: cache_step_def or_answer_def Let_def \<open>store_discovered _ _ _ _ _ = Inr d1\<close> Inr)
    then show ?thesis
      using settles_look [of "t\<lparr>tk_phase := Looking e timeout_ms ?i r\<rparr>" e timeout_ms ?i r S A n ?s] counted
      by (simp add: settles_proceed \<open>store_discovered _ _ _ _ _ = Inr d1\<close> Inr)
  qed
qed

lemma settles_resolve:
  assumes "tk_phase t = Resolving e timeout_ms fingerprint"
    and "request_intent_fingerprint (sv_crates S) (in_to_vec (tk_inputs t)) (pp_principal_id (tk_principal t))
      (se_raw_json e) (tk_request t) timeout_ms = Inr fingerprint"
  shows "settles S A (Suc (Suc (Suc (Suc (Suc (Suc (Suc (Suc (Suc (Suc n))))))))))
    (resolve_step S e timeout_ms fingerprint t s)
    (case record_request S (tk_inputs t) (tk_principal t) (tk_request t) e timeout_ms (sh_database s) of
       (d1, Inl error) \<Rightarrow> (d1, Inl error)
     | (d1, Inr (r, response)) \<Rightarrow> execute_recorded S A (in_clocks (tk_inputs t)) (er_delivery_policy (tk_request t)) e timeout_ms r
         (d1, Inr response)) (Suc (sh_permits s))"
proof (cases "plan_targets S (se_pubkey e) (tk_request t) (cached_author_write_relays (sv_codecs S) (sh_database s) (se_pubkey e))")
  case (Inl error)
  then show ?thesis
    by (simp add: resolve_step_def or_answer_def settles_answer assms record_request_def resolve_targets_split)
next
  case (Inr planned)
  obtain discovered r where planned: "planned = (discovered, r)" by fastforce
  let ?cached = "store_discovered S (in_cache_ms (tk_inputs t)) (se_pubkey e) discovered (sh_database s)"
  have split: "(case (case x of (d2, Inl error) \<Rightarrow> (d2, Inl error) | (d2, Inr response) \<Rightarrow> (d2, Inr (r, response))) of
       (d1, Inl error) \<Rightarrow> (d1, Inl error)
     | (d1, Inr (r, response)) \<Rightarrow> execute_recorded S A ck policy e timeout_ms r (d1, Inr response)) =
     execute_recorded S A ck policy e timeout_ms r x" for x ck policy
    by (cases x; cases "snd x") (simp_all add: execute_recorded_def)
  have "resolve_step S e timeout_ms fingerprint t s = proceed (Caching e timeout_ms fingerprint discovered r) t s"
    by (simp add: resolve_step_def or_answer_def Inr planned)
  then show ?thesis
    using settles_cache [of "t\<lparr>tk_phase := Caching e timeout_ms fingerprint discovered r\<rparr>" e timeout_ms fingerprint discovered r S A n s]
    by (cases ?cached; cases "validate_delivery_policy_for_resolution (sv_crates S) (sv_nostr S) (er_delivery_policy (tk_request t)) r")
      (simp_all add: settles_proceed record_request_def assms(2) resolve_targets_split Inr planned split)
qed


definition sample_task :: task where
  "sample_task = \<lparr>tk_principal = sample_principal, tk_request = sample_request, tk_inputs = sample_inputs,
     tk_phase = Received, tk_job = None\<rparr>"


end
