(* ===== verification/Publish_Concurrency.thy ===== *)
theory Publish_Concurrency
  imports Publish_Steps
begin

text \<open>
  Calls of \<open>publish_event\<close> beside one another (\<open>src/core/transport_publish.rs\<close>): every interleaving of the steps
  of any number of calls, calls that are dropped while they wait, and processes that die and start again.
  The laws of one step (\<open>moves\<close>) are proved per phase; the locale \<open>interleaved\<close> turns them into
  invariants of all calls.
\<close>

section \<open>What a step does to the jobs\<close>

definition identities :: "database \<Rightarrow> (string \<times> string \<times> string option) list" where
  "identities d = map (\<lambda>r. (jw_job_id r, jw_principal_id r, jw_idempotency_key r)) (db_jobs d)"

definition publishing_jobs :: "codecs \<Rightarrow> database \<Rightarrow> string set" where
  "publishing_jobs K d = {jw_job_id r | r. r \<in> set (db_jobs d) \<and> encode (cd_status K) JsPublishing = Inr (jw_status r)}"

lemma identities_ids: "fst ` set (identities d) = jw_job_id ` set (db_jobs d)"
  by (simp add: identities_def image_image)

lemma identities_update:
  assumes "\<And>r. jw_job_id (f r) = jw_job_id r" "\<And>r. jw_principal_id (f r) = jw_principal_id r"
    "\<And>r. jw_idempotency_key (f r) = jw_idempotency_key r"
  shows "identities (update_job k f d) = identities d"
  by (simp add: identities_def update_job_def assms)

lemma identities_jobs: "db_jobs d' = db_jobs d \<Longrightarrow> identities d' = identities d"
  by (simp add: identities_def)

lemma publishing_jobs_jobs: "db_jobs d' = db_jobs d \<Longrightarrow> publishing_jobs K d' = publishing_jobs K d"
  by (simp add: publishing_jobs_def)

lemma publishing_iff:
  "k \<in> publishing_jobs K d \<longleftrightarrow>
     (\<exists>r \<in> set (db_jobs d). jw_job_id r = k \<and> encode (cd_status K) JsPublishing = Inr (jw_status r))"
  by (auto simp: publishing_jobs_def)

lemma publishing_known: "publishing_jobs K d \<subseteq> fst ` set (identities d)"
  by (auto simp: publishing_jobs_def identities_ids)

lemma inserted_jobs:
  assumes "add_job_rows P K jid now i d = Inr d'"
  shows "identities d' = identities d @ [(jid, ji_principal_id i, ji_idempotency_key i)]"
    and "jid \<notin> fst ` set (identities d)" and "publishing_jobs K d' = insert jid (publishing_jobs K d)"
proof -
  obtain rj rc ec where "record_transaction K jid now rj rc ec i d = Inr d'"
    using assms by (auto simp: add_job_rows_def result_eqs)
  then obtain row d1 where row: "job_row_of K jid now rj rc ec i = Inr row" and ins: "insert_job row d = Inr d1"
    and snaps: "insert_target_snapshots K jid 0 (ji_target_snapshots i) now d1 = Inr d'" by (rule record_transactionE)
  have jobs: "db_jobs d' = db_jobs d @ [row]"
    using insert_target_snapshots_effect [OF snaps] jobs.ins_rows [OF ins] by auto
  note cols = job_row_of_columns [OF row]
  show "identities d' = identities d @ [(jid, ji_principal_id i, ji_idempotency_key i)]"
    by (simp add: identities_def jobs cols)
  show "jid \<notin> fst ` set (identities d)" using jobs.ins_fresh [OF ins] by (simp add: identities_ids cols)
  have "{jw_job_id r | r. (r = row \<or> r \<in> set (db_jobs d)) \<and> encode (cd_status K) JsPublishing = Inr (jw_status r)} =
      insert jid (publishing_jobs K d)"
    using cols(1,5) by (auto simp: publishing_jobs_def)
  then show "publishing_jobs K d' = insert jid (publishing_jobs K d)" by (simp add: publishing_jobs_def jobs disj_commute)
qed

lemma completed_jobs:
  assumes "encode (cd_status K) status = Inr label" and "status \<noteq> JsPublishing" and "codecs_ok K"
  shows "identities (update_job jid (completed_row label now e n) d) = identities d"
    and "publishing_jobs K (update_job jid (completed_row label now e n) d) = publishing_jobs K d - {jid}"
proof -
  show "identities (update_job jid (completed_row label now e n) d) = identities d"
    by (rule identities_update) (simp_all add: completed_row_def)
  have "encode (cd_status K) JsPublishing \<noteq> Inr label"
    using encode_inject [OF codecs_okD(5) [OF assms(3)] _ assms(1)] assms(2) by blast
  then have row: "jw_job_id r' = k \<and> encode (cd_status K) JsPublishing = Inr (jw_status r') \<longleftrightarrow>
      k \<noteq> jid \<and> jw_job_id r = k \<and> encode (cd_status K) JsPublishing = Inr (jw_status r)"
    if "r' = (if jw_job_id r = jid then completed_row label now e n r else r)" for r r' k
    by (cases "jw_job_id r = jid") (auto simp: that completed_row_def)
  let ?f = "\<lambda>r. if jw_job_id r = jid then completed_row label now e n r else r"
  have jobs: "db_jobs (update_job jid (completed_row label now e n) d) = map ?f (db_jobs d)"
    by (simp add: update_job_def)
  have "k \<in> publishing_jobs K (update_job jid (completed_row label now e n) d) \<longleftrightarrow> k \<noteq> jid \<and> k \<in> publishing_jobs K d" for k
    unfolding publishing_iff jobs set_map bex_simps(7) row [OF refl] by blast
  then show "publishing_jobs K (update_job jid (completed_row label now e n) d) = publishing_jobs K d - {jid}" by blast
qed

lemma complete_jobs:
  assumes "complete_publish_job K now jid status ts e d = (d', r)" and "status \<noteq> JsPublishing" and "codecs_ok K"
  shows "identities d' = identities d" and "publishing_jobs K d' \<subseteq> publishing_jobs K d"
    and "publishing_jobs K d - {jid} \<subseteq> publishing_jobs K d'" and "r = Inr u \<Longrightarrow> jid \<notin> publishing_jobs K d'"
proof -
  have "(\<exists>e'. d' = d \<and> r = Inl e') \<or> (\<exists>label n. encode (cd_status K) status = Inr label \<and>
      replace_target_outcomes K jid ts now (update_job jid (completed_row label now e n) d) = (d', r))"
    using assms(1) by (cases "storage_count_i64 (length ts) ''effective_target_count''"; cases "encode (cd_status K) status")
      (auto simp: complete_publish_job_def)
  then consider (failed) e' where "d' = d" "r = Inl e'"
    | (updated) label n where "encode (cd_status K) status = Inr label"
        "replace_target_outcomes K jid ts now (update_job jid (completed_row label now e n) d) = (d', r)"
    by blast
  then have "identities d' = identities d \<and> publishing_jobs K d' \<subseteq> publishing_jobs K d \<and>
      publishing_jobs K d - {jid} \<subseteq> publishing_jobs K d' \<and> (r = Inr u \<longrightarrow> jid \<notin> publishing_jobs K d')"
  proof cases
    case (updated label n)
    let ?d = "update_job jid (completed_row label now e n) d"
    have "db_jobs d' = db_jobs ?d"
      using replace_target_outcomes_frame(1) [of K jid ts now ?d] by (simp add: updated(2))
    then show ?thesis
      using completed_jobs [OF updated(1) assms(2,3), of jid now e n d]
      by (simp add: identities_jobs [of d' ?d] publishing_jobs_jobs [of d' ?d])
  qed auto
  then show "identities d' = identities d" "publishing_jobs K d' \<subseteq> publishing_jobs K d"
    "publishing_jobs K d - {jid} \<subseteq> publishing_jobs K d'"
    "r = Inr u \<Longrightarrow> jid \<notin> publishing_jobs K d'" by blast+
qed

lemma recovered_identities: "identities (fst (recover_interrupted_publish_jobs P K now d)) = identities d"
proof -
  have one: "identities (fst (recover_job P K now row d)) = identities d" for row d
  proof -
    have "identities (update_job k (completed_row label now e n) d) = identities d" for k label e n
      by (rule identities_update) (simp_all add: completed_row_def)
    then show ?thesis
      by (auto simp: recover_job_def Let_def identities_jobs [OF replace_target_outcomes_frame(1)] split: sum.split)
  qed
  have "identities (fst (recover_jobs P K now rows d)) = identities d" for rows
  proof (induction rows arbitrary: d)
    case (Cons row rows)
    show ?case using one [of row d] Cons.IH by (auto split: prod.split sum.split)
  qed simp
  then show ?thesis by (simp add: recover_interrupted_publish_jobs_def split: sum.split)
qed

lemma recovered_publishing:
  assumes "recover_interrupted_publish_jobs P K now d = (d', Inr ())" and "codecs_ok K"
  shows "publishing_jobs K d' = {}"
proof -
  obtain publishing where "encode (cd_status K) JsPublishing = Inr publishing"
    using encode_total [OF codecs_okD(5) [OF assms(2)]] by blast
  with recover_effect(1) [OF assms(2,1) this] show ?thesis by (auto simp: publishing_jobs_def)
qed

lemma published_status:
  assumes "job_by_id P K d k = Inr v" and "jb_status v = JsPublishing" and "readable_db K d" and "codecs_ok K"
  shows "k \<in> publishing_jobs K d"
proof -
  obtain r p ts where r: "find (\<lambda>r. jw_job_id r = k) (db_jobs d) = Some r" and p: "job_from_row K r = Inr p"
    and v: "v = finalize_job_view P ((pj_view p)\<lparr>jb_targets := ts\<rparr>)" by (rule job_by_idE [OF assms(1)])
  from r have mem: "r \<in> set (db_jobs d)" "jw_job_id r = k" by (auto simp: find_Some_iff)
  then obtain st where st: "encode (cd_status K) st = Inr (jw_status r)"
    using assms(3) by (auto simp: readable_db_def readable_job_def)
  then have "jb_status (pj_view p) = st"
    using p encode_json_text [OF codecs_okD(5) [OF assms(4)] st] by (auto simp: job_from_row_def result_eqs)
  then have "st = JsPublishing" using assms(2) v by (simp add: finalize_job_view_def)
  with st mem show ?thesis by (auto simp: publishing_jobs_def)
qed

section \<open>What holds of a call\<close>

definition insert_ok :: "task \<Rightarrow> job_insert \<Rightarrow> bool" where
  "insert_ok t i \<longleftrightarrow> ji_principal_id i = pp_principal_id (tk_principal t) \<and>
     ji_idempotency_key i = er_idempotency_key (tk_request t) \<and>
     ji_effective_target_count i = length (ji_target_snapshots i)"

definition attempted :: "shared \<Rightarrow> string set" where
  "attempted s = at_job ` set (sh_attempts s)"

abbreviation publishing :: "publish_service \<Rightarrow> shared \<Rightarrow> string set" where
  "publishing S s \<equiv> publishing_jobs (sv_codecs S) (sh_database s)"

fun next_ok :: "publish_service \<Rightarrow> shared \<Rightarrow> string \<Rightarrow> next \<Rightarrow> bool" where
  "next_ok S s job_id (ToExecute e timeout_ms r) \<longleftrightarrow> job_id \<notin> attempted s"
| "next_ok S s job_id ToAnswer \<longleftrightarrow> job_id \<notin> publishing S s"

fun phase_ok :: "publish_service \<Rightarrow> task \<Rightarrow> shared \<Rightarrow> phase \<Rightarrow> bool" where
  "phase_ok S t s Received \<longleftrightarrow> tk_job t = None"
| "phase_ok S t s (Resolving e timeout_ms fingerprint) \<longleftrightarrow> tk_job t = None"
| "phase_ok S t s (Caching e timeout_ms fingerprint discovered r) \<longleftrightarrow> tk_job t = None"
| "phase_ok S t s (Looking e timeout_ms i r) \<longleftrightarrow> tk_job t = None \<and> insert_ok t i"
| "phase_ok S t s (Known i row) \<longleftrightarrow> tk_job t = None"
| "phase_ok S t s (Inserting e timeout_ms i r) \<longleftrightarrow> tk_job t = None \<and> insert_ok t i"
| "phase_ok S t s (Fetching job_id n) \<longleftrightarrow> tk_job t = Some job_id \<and> next_ok S s job_id n"
| "phase_ok S t s (Showing row n) \<longleftrightarrow> tk_job t = Some (jb_job_id (pj_view row)) \<and> next_ok S s (jb_job_id (pj_view row)) n"
| "phase_ok S t s (Starting job_id e timeout_ms r) \<longleftrightarrow> tk_job t = Some job_id \<and> job_id \<notin> attempted s"
| "phase_ok S t s (Attempting job_id timeout_ms r request) \<longleftrightarrow> tk_job t = Some job_id"
| "phase_ok S t s (Storing job_id status outcomes last_error) \<longleftrightarrow> tk_job t = Some job_id \<and> status \<noteq> JsPublishing"
| "phase_ok S t s (Answered r) \<longleftrightarrow> (\<forall>job_id. is_ok r \<longrightarrow> tk_job t = Some job_id \<longrightarrow> job_id \<notin> publishing S s)"
| "phase_ok S t s Dropped \<longleftrightarrow> True"

definition identity_of :: "task \<Rightarrow> string \<Rightarrow> string \<times> string \<times> string option" where
  "identity_of t job_id = (job_id, pp_principal_id (tk_principal t), er_idempotency_key (tk_request t))"

definition task_ok :: "publish_service \<Rightarrow> task \<Rightarrow> shared \<Rightarrow> bool" where
  "task_ok S t s \<longleftrightarrow> phase_ok S t s (tk_phase t) \<and>
     (\<forall>job_id. tk_job t = Some job_id \<longrightarrow> identity_of t job_id \<in> set (identities (sh_database s)))"

lemma phase_ok_task [simp]:
  "phase_ok S (t\<lparr>tk_phase := p\<rparr>) s ph = phase_ok S t s ph" "identity_of (t\<lparr>tk_phase := p\<rparr>) j = identity_of t j"
  "identity_of (t\<lparr>tk_job := k\<rparr>) j = identity_of t j"
  by (cases ph; simp add: insert_ok_def identity_of_def)+

text \<open>What the other calls do to the jobs of this one leaves it as it is.\<close>

lemma phase_ok_stable:
  assumes "phase_ok S t s ph"
    and "\<And>job_id. tk_job t = Some job_id \<Longrightarrow> job_id \<in> attempted s' \<Longrightarrow> job_id \<in> attempted s"
    and "\<And>job_id. tk_job t = Some job_id \<Longrightarrow> job_id \<in> publishing S s' \<Longrightarrow> job_id \<in> publishing S s"
  shows "phase_ok S t s' ph"
proof -
  have n: "next_ok S s j n \<Longrightarrow> tk_job t = Some j \<Longrightarrow> next_ok S s' j n" for j n
    using assms(2,3) by (cases n) auto
  show ?thesis using assms n by (cases ph) auto
qed

section \<open>Steps that only move on\<close>

definition held :: "task \<Rightarrow> nat" where
  "held t = (if holds_permit (tk_phase t) then 1 else 0)"

definition calm :: "publish_service \<Rightarrow> task \<Rightarrow> shared \<Rightarrow> task \<times> shared \<Rightarrow> bool" where
  "calm S t s c \<longleftrightarrow> (case c of (t', s') \<Rightarrow>
     identities (sh_database s') = identities (sh_database s) \<and> publishing S s' \<subseteq> publishing S s \<and>
     (\<forall>k \<in> publishing S s. tk_job t \<noteq> Some k \<longrightarrow> k \<in> publishing S s') \<and>
     sh_attempts s' = sh_attempts s \<and> tk_job t' = tk_job t \<and> tk_principal t' = tk_principal t \<and>
     tk_request t' = tk_request t \<and> sh_permits s' + held t' = sh_permits s + held t \<and>
     (reachable_db (sv_crates S) (sv_codecs S) (sh_database s) \<longrightarrow> reachable_db (sv_crates S) (sv_codecs S) (sh_database s')) \<and>
     task_ok S t' s')"

lemma calm_trans: "calm S t s (t1, s1) \<Longrightarrow> calm S t1 s1 c \<Longrightarrow> calm S t s c"
  by (auto simp: calm_def)

lemma calm_answer:
  assumes "task_ok S t s" and "is_ok r \<Longrightarrow> phase_ok S t s (Answered r)"
  shows "calm S t s (answer r t s)"
  using assms by (auto simp: calm_def answer_def held_def task_ok_def)

lemma calm_proceed:
  assumes "task_ok S t s" and "holds_permit (tk_phase t)" and "holds_permit ph" and "phase_ok S t s ph"
  shows "calm S t s (proceed ph t s)"
  using assms by (auto simp: calm_def proceed_def held_def task_ok_def)

lemma calm_or_answer:
  assumes "task_ok S t s" and "\<And>x. r = Inr x \<Longrightarrow> calm S t s (k x t s)"
  shows "calm S t s (or_answer r k t s)"
proof (cases r)
  case (Inl e)
  have "calm S t s (answer (Inl e) t s)" by (rule calm_answer [OF assms(1)]) simp
  then show ?thesis by (simp add: or_answer_def Inl)
qed (simp add: or_answer_def assms(2))

lemma calm_database:
  assumes "task_ok S t s" and "identities d = identities (sh_database s)"
    and "publishing_jobs (sv_codecs S) d \<subseteq> publishing S s"
    and "\<And>k. k \<in> publishing S s \<Longrightarrow> tk_job t \<noteq> Some k \<Longrightarrow> k \<in> publishing_jobs (sv_codecs S) d"
    and "reachable_db (sv_crates S) (sv_codecs S) (sh_database s) \<Longrightarrow> reachable_db (sv_crates S) (sv_codecs S) d"
  shows "calm S t s (t, s\<lparr>sh_database := d\<rparr>)"
proof -
  have "phase_ok S t (s\<lparr>sh_database := d\<rparr>) (tk_phase t)"
    by (rule phase_ok_stable [of S t s]) (use assms in \<open>auto simp: task_ok_def attempted_def\<close>)
  then show ?thesis using assms by (auto simp: calm_def task_ok_def)
qed

lemma receive_calm:
  assumes "task_ok S t s" and "tk_phase t = Received"
  shows "calm S t s (receive_step S t s)"
  unfolding receive_step_def
proof (rule calm_or_answer [OF assms(1)])
  fix x
  assume "and_then (check_request S (tk_principal t) (tk_request t)) (\<lambda>checked.
    and_then (acquire_publish_permit (sh_permits s)) (\<lambda>left. Inr (checked, left))) = Inr x"
  then obtain e ms where x: "x = ((e, ms), sh_permits s - 1)" "0 < sh_permits s"
    by (auto simp: and_then_eq_Inr acquire_publish_permit_def split: if_splits)
  let ?t = "t\<lparr>tk_phase := Resolving e ms []\<rparr>" and ?s = "s\<lparr>sh_permits := sh_permits s - 1\<rparr>"
  have first: "calm S t s (?t, ?s)"
    using assms x by (auto simp: calm_def held_def task_ok_def)
  then have ok: "task_ok S ?t ?s" by (simp add: calm_def)
  have "calm S ?t ?s (or_answer r (\<lambda>fp. proceed (Resolving e ms fp)) ?t ?s)" for r
    by (intro calm_or_answer calm_proceed) (use ok assms in \<open>simp_all add: task_ok_def\<close>)
  then show "calm S t s ((\<lambda>((e, timeout_ms), left) t s.
      or_answer (request_intent_fingerprint (sv_crates S) (in_to_vec (tk_inputs t)) (pp_principal_id (tk_principal t))
          (se_raw_json e) (tk_request t) timeout_ms)
        (\<lambda>fingerprint. proceed (Resolving e timeout_ms fingerprint))
        (t\<lparr>tk_phase := Resolving e timeout_ms []\<rparr>) (s\<lparr>sh_permits := left\<rparr>)) x t s)"
    using calm_trans [OF first] by (simp add: x)
qed

lemma resolve_calm:
  assumes "task_ok S t s" and "tk_phase t = Resolving e ms fp"
  shows "calm S t s (resolve_step S e ms fp t s)"
  unfolding resolve_step_def
  by (rule calm_or_answer [OF assms(1)]) (use assms in \<open>auto intro!: calm_proceed simp: task_ok_def\<close>)

lemma store_discovered_calm:
  assumes "task_ok S t s" and "store_discovered S now pk discovered (sh_database s) = Inr d"
  shows "calm S t s (t, s\<lparr>sh_database := d\<rparr>)"
proof (rule calm_database [OF assms(1)])
  have jobs: "db_jobs d = db_jobs (sh_database s)"
    using assms(2) by (cases discovered) (auto simp: store_discovered_def cache_jobs)
  show "identities d = identities (sh_database s)" "publishing_jobs (sv_codecs S) d \<subseteq> publishing S s"
    "\<And>k. k \<in> publishing S s \<Longrightarrow> tk_job t \<noteq> Some k \<Longrightarrow> k \<in> publishing_jobs (sv_codecs S) d"
    using identities_jobs [OF jobs] publishing_jobs_jobs [OF jobs] by auto
  show "reachable_db (sv_crates S) (sv_codecs S) (sh_database s) \<Longrightarrow> reachable_db (sv_crates S) (sv_codecs S) d"
    using assms(2) by (cases discovered) (auto simp: store_discovered_def intro: reachable_db.cache)
qed

lemma cache_calm:
  assumes "task_ok S t s" and "tk_phase t = Caching e ms fp discovered r"
  shows "calm S t s (cache_step S e ms fp discovered r t s)"
  unfolding cache_step_def
proof (rule calm_or_answer [OF assms(1)])
  fix d
  assume "store_discovered S (in_cache_ms (tk_inputs t)) (se_pubkey e) discovered (sh_database s) = Inr d"
  note first = store_discovered_calm [OF assms(1) this]
  then have ok: "task_ok S t (s\<lparr>sh_database := d\<rparr>)" by (simp add: calm_def)
  show "calm S t s (let s' = s\<lparr>sh_database := d\<rparr>; i = job_insert_of S (tk_principal t) (tk_request t) e fp r in
     or_answer (validate_delivery_policy_for_resolution (sv_crates S) (sv_nostr S) (er_delivery_policy (tk_request t)) r)
       (\<lambda>_. if ji_effective_target_count i \<noteq> length (ji_target_snapshots i)
          then answer (Inl (TpInvalidScope ''publish job target snapshot count must match effective target count''))
          else proceed (Looking e ms i r)) t s')"
    unfolding Let_def
    by (rule calm_trans [OF first], rule calm_or_answer [OF ok])
      (use ok assms in \<open>auto intro!: calm_answer calm_proceed simp: task_ok_def insert_ok_def job_insert_of_def\<close>)
qed

lemma look_calm:
  assumes "task_ok S t s" and "tk_phase t = Looking e ms i r"
  shows "calm S t s (look_step S e ms i r t s)"
proof -
  have "calm S t s (proceed (Inserting e ms i r) t s)" "calm S t s (proceed (Known i row) t s)" for row
    using assms by (auto intro!: calm_proceed simp: task_ok_def)
  then show ?thesis
    unfolding look_step_def
    by (cases "ji_idempotency_key i") (auto intro!: calm_or_answer [OF assms(1)] split: option.split)
qed

lemma known_calm:
  assumes "task_ok S t s" and "tk_phase t = Known i row"
  shows "calm S t s (known_step S i row t s)"
  unfolding known_step_def
  by (rule calm_or_answer [OF assms(1)], rule calm_answer [OF assms(1)]) (use assms in \<open>simp add: task_ok_def\<close>)

lemma fetch_calm:
  assumes "task_ok S t s" and "tk_phase t = Fetching job_id n"
  shows "calm S t s (fetch_step S job_id n t s)"
  unfolding fetch_step_def
proof (rule calm_or_answer [OF assms(1)])
  fix found
  assume found: "map_transpose (job_from_row (sv_codecs S)) (find (\<lambda>w. jw_job_id w = job_id) (db_jobs (sh_database s))) = Inr found"
  show "calm S t s ((case found of None \<Rightarrow> answer (Inl (TpInvalidScope ''unknown publish job''))
      | Some row \<Rightarrow> proceed (Showing row n)) t s)"
  proof (cases found)
    case (Some row)
    then obtain w where w: "find (\<lambda>w. jw_job_id w = job_id) (db_jobs (sh_database s)) = Some w"
        "job_from_row (sv_codecs S) w = Inr row"
      using found by (cases "find (\<lambda>w. jw_job_id w = job_id) (db_jobs (sh_database s))") (auto simp: map_ok_eq_Inr)
    then have "jb_job_id (pj_view row) = job_id"
      using job_from_row_columns(3) [OF w(2)] by (auto simp: find_Some_iff)
    then show ?thesis
      using assms by (auto simp: Some task_ok_def intro!: calm_proceed)
  qed (use assms in \<open>auto intro!: calm_answer\<close>)
qed

lemma finalize_job_id: "finalize_job_row_for_egress P K d row = Inr row' \<Longrightarrow> jb_job_id (pj_view row') = jb_job_id (pj_view row)"
  by (auto simp: finalize_job_row_for_egress_def Let_def and_then_eq_Inr finalize_job_view_def)

lemma show_calm:
  assumes "task_ok S t s" and "tk_phase t = Showing row n"
  shows "calm S t s (show_step S row n t s)"
  unfolding show_step_def
proof (rule calm_or_answer [OF assms(1)])
  fix shown
  assume "finalize_job_row_for_egress (sv_crates S) (sv_codecs S) (sh_database s) row = Inr shown"
  note id = finalize_job_id [OF this]
  show "calm S t s ((case n of ToExecute e ms r \<Rightarrow> proceed (Starting (jb_job_id (pj_view shown)) e ms r)
      | ToAnswer \<Rightarrow> answer (Inr \<lparr>rs_deduplicated = False, rs_job = pj_view shown\<rparr>)) t s)"
    using assms id by (cases n) (auto simp: task_ok_def intro!: calm_proceed calm_answer)
qed

lemma delivery_status_not_publishing: "delivery_status P policy n ts \<noteq> JsPublishing"
  by (simp add: delivery_status_def split: prod.split)

lemma receipts_calm:
  assumes "task_ok S t s" and "tk_phase t = Attempting job_id ms r request"
  shows "calm S t s (receipts_step S A job_id ms r request t s)"
  unfolding receipts_step_def Let_def
  by (rule calm_proceed [OF assms(1)]) (use assms in \<open>simp_all add: task_ok_def delivery_status_not_publishing\<close>)

lemma store_calm:
  assumes "task_ok S t s" and "tk_phase t = Storing job_id status outcomes last_error" and "codecs_ok (sv_codecs S)"
  shows "calm S t s (finish_step S job_id status outcomes last_error t s)"
proof -
  obtain d r where run: "complete_publish_job (sv_codecs S) (ck_completed_ms (in_clocks (tk_inputs t))) job_id status outcomes
      last_error (sh_database s) = (d, r)" by fastforce
  have status: "status \<noteq> JsPublishing" using assms(1,2) by (simp add: task_ok_def)
  note stored = complete_jobs [OF run status assms(3)]
  have first: "calm S t s (t, s\<lparr>sh_database := d\<rparr>)"
  proof (rule calm_database [OF assms(1) stored(1,2)])
    show "k \<in> publishing_jobs (sv_codecs S) d" if "k \<in> publishing S s" "tk_job t \<noteq> Some k" for k
      using that stored(3) assms(1,2) by (auto simp: task_ok_def)
  next
    assume "reachable_db (sv_crates S) (sv_codecs S) (sh_database s)"
    from reachable_db.complete [OF this] run show "reachable_db (sv_crates S) (sv_codecs S) d" by (metis fst_conv)
  qed
  then have ok: "task_ok S t (s\<lparr>sh_database := d\<rparr>)" by (simp add: calm_def)
  show ?thesis
    unfolding finish_step_def run prod.case
    by (rule calm_trans [OF first], rule calm_or_answer [OF ok])
      (use ok assms stored(4) in \<open>auto intro!: calm_proceed simp: task_ok_def\<close>)
qed
section \<open>The kinds of steps\<close>

text \<open>A call may be dropped wherever it is, for its client may hang up; its permit is given back.\<close>

inductive acts :: "publish_service \<Rightarrow> task \<Rightarrow> shared \<Rightarrow> task \<Rightarrow> shared \<Rightarrow> bool" for S where
  step: "task_step S A (tk_phase t) t s = (t', s') \<Longrightarrow> acts S t s t' s'"
| drop: "holds_permit (tk_phase t) \<Longrightarrow> acts S t s (t\<lparr>tk_phase := Dropped\<rparr>) (s\<lparr>sh_permits := Suc (sh_permits s)\<rparr>)"

text \<open>What a step amounts to for the other calls: it moves on, it puts a new job into the store, or it begins
  the attempt of a job that was not attempted before.\<close>

inductive moves :: "publish_service \<Rightarrow> task \<Rightarrow> shared \<Rightarrow> task \<Rightarrow> shared \<Rightarrow> bool" for S t s t' s' where
  move_on: "identities (sh_database s') = identities (sh_database s) \<Longrightarrow> publishing S s' \<subseteq> publishing S s \<Longrightarrow>
    \<forall>k \<in> publishing S s. tk_job t \<noteq> Some k \<longrightarrow> k \<in> publishing S s' \<Longrightarrow> sh_attempts s' = sh_attempts s \<Longrightarrow> tk_job t' = tk_job t \<Longrightarrow> moves S t s t' s'"
| new_job: "tk_job t = None \<Longrightarrow> tk_job t' = Some job_id \<Longrightarrow> job_id \<notin> fst ` set (identities (sh_database s)) \<Longrightarrow>
    identities (sh_database s') = identities (sh_database s) @ [identity_of t job_id] \<Longrightarrow>
    publishing S s' = insert job_id (publishing S s) \<Longrightarrow> sh_attempts s' = sh_attempts s \<Longrightarrow> moves S t s t' s'"
| attempt: "tk_job t = Some job_id \<Longrightarrow> tk_job t' = Some job_id \<Longrightarrow> job_id \<notin> attempted s \<Longrightarrow>
    sh_database s' = sh_database s \<Longrightarrow>
    sh_attempts s' = sh_attempts s @ [\<lparr>at_job = job_id, at_principal = pp_principal_id (tk_principal t),
      at_key = er_idempotency_key (tk_request t)\<rparr>] \<Longrightarrow> moves S t s t' s'"

definition advances :: "publish_service \<Rightarrow> task \<Rightarrow> shared \<Rightarrow> task \<Rightarrow> shared \<Rightarrow> bool" where
  "advances S t s t' s' \<longleftrightarrow> moves S t s t' s' \<and> task_ok S t' s' \<and> sh_permits s' + held t' = sh_permits s + held t \<and>
     (reachable_db (sv_crates S) (sv_codecs S) (sh_database s) \<longrightarrow> reachable_db (sv_crates S) (sv_codecs S) (sh_database s'))"

lemma calm_advances: "calm S t s (t', s') \<Longrightarrow> advances S t s t' s'"
  by (auto simp: calm_def advances_def intro: move_on)

lemma insert_advances:
  assumes "task_ok S t s" and "tk_phase t = Inserting e ms i r" and "insert_step S e ms i r t s = (t', s')"
    and "\<forall>a \<in> attempted s. a \<in> fst ` set (identities (sh_database s))"
  shows "advances S t s t' s'"
proof -
  let ?id = "in_job_id (tk_inputs t)"
  let ?rows = "add_job_rows (sv_crates S) (sv_codecs S) ?id (in_record_ms (tk_inputs t)) i (sh_database s)"
  have i: "tk_job t = None" "insert_ok t i" using assms(1,2) by (simp_all add: task_ok_def)
  show ?thesis
  proof (cases ?rows)
    case (Inl error)
    then have "(t', s') = answer (Inl error) t s" using assms(3) by (simp add: insert_step_def Let_def or_answer_def)
    moreover have "calm S t s (answer (Inl error) t s)" by (rule calm_answer [OF assms(1)]) simp
    ultimately show ?thesis by (metis calm_advances)
  next
    case (Inr d)
    then have t': "t' = t\<lparr>tk_phase := Fetching ?id (ToExecute e ms r), tk_job := Some ?id\<rparr>" and s': "s' = s\<lparr>sh_database := d\<rparr>"
      using assms(3) by (simp_all add: insert_step_def Let_def or_answer_def)
    note ins = inserted_jobs [OF Inr]
    have new: "identities d = identities (sh_database s) @ [identity_of t ?id]"
      using ins(1) i(2) by (simp add: identity_of_def insert_ok_def)
    have "reachable_db (sv_crates S) (sv_codecs S) d" if "reachable_db (sv_crates S) (sv_codecs S) (sh_database s)"
      using reachable_db.insert_late [OF that, of i ?id "in_record_ms (tk_inputs t)"] i(2) Inr
      by (simp add: insert_ok_def insert_publish_job_split)
    moreover have "moves S t s t' s'"
      by (rule new_job [of _ _ ?id]) (use i ins(2,3) new in \<open>simp_all add: t' s'\<close>)
    moreover have "?id \<notin> attempted s'" using assms(4) ins(2) by (auto simp: s' attempted_def)
    then have "task_ok S t' s'" using new by (simp add: task_ok_def t' s')
    moreover have "held t' = held t" using assms(2) by (simp add: held_def t')
    ultimately show ?thesis by (auto simp: advances_def s')
  qed
qed

lemma plan_not_publishing: "execution_plan S ck e policy r = Inr (FinishAs status outcomes last_error) \<Longrightarrow> status \<noteq> JsPublishing"
  by (auto simp: execution_plan_def Let_def map_ok_eq_Inr delivery_status_not_publishing split: if_splits)

lemma start_advances:
  assumes "task_ok S t s" and "tk_phase t = Starting job_id e ms r" and "start_step S job_id e ms r t s = (t', s')"
  shows "advances S t s t' s'"
proof (cases "execution_plan S (in_clocks (tk_inputs t)) e (er_delivery_policy (tk_request t)) r")
  case (Inl error)
  then have "(t', s') = answer (Inl error) t s" using assms(3) by (simp add: start_step_def or_answer_def)
  moreover have "calm S t s (answer (Inl error) t s)" by (rule calm_answer [OF assms(1)]) simp
  ultimately show ?thesis by (metis calm_advances)
next
  case (Inr p)
  have job: "tk_job t = Some job_id" "job_id \<notin> attempted s" using assms(1,2) by (simp_all add: task_ok_def)
  show ?thesis
  proof (cases p)
    case (FinishAs status outcomes last_error)
    then have "(t', s') = proceed (Storing job_id status outcomes last_error) t s"
      using assms(3) by (simp add: start_step_def or_answer_def Inr)
    moreover have "calm S t s (proceed (Storing job_id status outcomes last_error) t s)"
      using assms(1,2) job plan_not_publishing Inr FinishAs by (intro calm_proceed) auto
    ultimately show ?thesis by (metis calm_advances)
  next
    case (AttemptWith request)
    then have t': "t' = t\<lparr>tk_phase := Attempting job_id ms r request\<rparr>" and s': "s' = s\<lparr>sh_attempts := sh_attempts s @
        [\<lparr>at_job = job_id, at_principal = pp_principal_id (tk_principal t), at_key = er_idempotency_key (tk_request t)\<rparr>]\<rparr>"
      using assms(3) by (simp_all add: start_step_def or_answer_def Inr)
    have "moves S t s t' s'" by (rule attempt [of _ job_id]) (use job in \<open>simp_all add: t' s'\<close>)
    moreover have "task_ok S t' s'" using assms(1) job by (simp add: task_ok_def t' s')
    moreover have "held t' = held t" using assms(2) by (simp add: held_def t')
    ultimately show ?thesis by (simp add: advances_def s')
  qed
qed

definition shared_ok :: "publish_service \<Rightarrow> shared \<Rightarrow> bool" where
  "shared_ok S s \<longleftrightarrow> reachable_db (sv_crates S) (sv_codecs S) (sh_database s) \<and> distinct (map at_job (sh_attempts s)) \<and>
     (\<forall>a \<in> set (sh_attempts s). (at_job a, at_principal a, at_key a) \<in> set (identities (sh_database s)))"

lemma attempted_known: "shared_ok S s \<Longrightarrow> \<forall>a \<in> attempted s. a \<in> fst ` set (identities (sh_database s))"
  by (force simp: shared_ok_def attempted_def)

lemma acts_advances:
  assumes "acts S t s t' s'" and "task_ok S t s" and "shared_ok S s" and "codecs_ok (sv_codecs S)"
  shows "advances S t s t' s'"
  using assms(1)
proof cases
  case (step A)
  have moved: ?thesis if "calm S t s (task_step S A (tk_phase t) t s)"
    using that step by (simp add: calm_advances)
  have idle: "calm S t s (t, s)" using assms(2) by (simp add: calm_def)
  show ?thesis
  proof (cases "tk_phase t")
    case (Inserting e ms i r)
    then show ?thesis using insert_advances [OF assms(2) Inserting] attempted_known [OF assms(3)] step by simp
  next
    case (Starting job_id e ms r)
    then show ?thesis using start_advances [OF assms(2) Starting] step by simp
  next
    case (Storing job_id status outcomes last_error)
    show ?thesis by (rule moved) (simp add: Storing store_calm [OF assms(2) Storing assms(4)])
  qed (rule moved; simp add: idle receive_calm [OF assms(2)] resolve_calm [OF assms(2)] cache_calm [OF assms(2)]
      look_calm [OF assms(2)] known_calm [OF assms(2)] fetch_calm [OF assms(2)] show_calm [OF assms(2)]
      receipts_calm [OF assms(2)])+
next
  case drop
  have "calm S t s (t', s')" using drop assms(2) by (auto simp: calm_def held_def task_ok_def)
  then show ?thesis by (rule calm_advances)
qed

section \<open>Interference\<close>

text \<open>Invariants of calls that share a state: each step keeps what holds of its own call and of the shared state,
  and disturbs no other call.\<close>

locale interleaved =
  fixes act :: "'t \<Rightarrow> 's \<Rightarrow> 't \<Rightarrow> 's \<Rightarrow> bool" and own :: "'t \<Rightarrow> 's \<Rightarrow> bool" and common :: "'s \<Rightarrow> bool"
    and apart :: "'t \<Rightarrow> 't \<Rightarrow> bool"
  assumes act_own: "act t s t' s' \<Longrightarrow> own t s \<Longrightarrow> common s \<Longrightarrow> own t' s' \<and> common s'"
    and act_other: "act t s t' s' \<Longrightarrow> own t s \<Longrightarrow> common s \<Longrightarrow> own u s \<Longrightarrow> apart t u \<Longrightarrow> own u s' \<and> apart t' u"
    and apart_sym: "apart t u \<Longrightarrow> apart u t"
begin

definition all_own :: "'t list \<Rightarrow> 's \<Rightarrow> bool" where
  "all_own ts s \<longleftrightarrow> common s \<and> (\<forall>t \<in> set ts. own t s) \<and> (\<forall>i j. i < length ts \<longrightarrow> j < length ts \<longrightarrow> i \<noteq> j \<longrightarrow> apart (ts ! i) (ts ! j))"

lemma all_own_Nil: "common s \<Longrightarrow> all_own [] s"
  by (simp add: all_own_def)

lemma all_own_arrive:
  assumes "all_own ts s" and "own t s" and "\<And>u. own u s \<Longrightarrow> apart t u"
  shows "all_own (ts @ [t]) s"
proof -
  have "apart ((ts @ [t]) ! i) ((ts @ [t]) ! j)" if "i < Suc (length ts)" "j < Suc (length ts)" "i \<noteq> j" for i j
    using that assms apart_sym [OF assms(3)] by (auto simp: all_own_def nth_append not_less less_Suc_eq)
  then show ?thesis using assms by (simp add: all_own_def)
qed

lemma all_own_act:
  assumes "all_own ts s" and "i < length ts" and "act (ts ! i) s t' s'"
  shows "all_own (ts[i := t']) s'"
proof -
  have i: "own (ts ! i) s" "common s" using assms(1,2) by (simp_all add: all_own_def)
  note mine = act_own [OF assms(3) i]
  have other: "own (ts ! j) s' \<and> apart t' (ts ! j)" if "j < length ts" "j \<noteq> i" for j
    using act_other [OF assms(3) i, of "ts ! j"] assms(1,2) that by (simp add: all_own_def)
  have "own t s'" if t: "t \<in> set (ts[i := t'])" for t
  proof -
    obtain j where "j < length ts" "t = ts[i := t'] ! j" using t by (auto simp: in_set_conv_nth)
    then show ?thesis using mine other [of j] by (cases "j = i") simp_all
  qed
  moreover have "apart (ts[i := t'] ! j) (ts[i := t'] ! k)" if "j < length ts" "k < length ts" "j \<noteq> k" for j k
  proof (cases "j = i")
    case True
    then show ?thesis using that other [of k] by simp
  next
    case j: False
    show ?thesis
    proof (cases "k = i")
      case True
      then show ?thesis using that j other [of j] by (simp add: apart_sym)
    qed (use that j assms(1) in \<open>simp add: all_own_def\<close>)
  qed
  ultimately show ?thesis using mine by (simp add: all_own_def)
qed

end

definition different_jobs :: "task \<Rightarrow> task \<Rightarrow> bool" where
  "different_jobs t u \<longleftrightarrow> (\<forall>job_id. tk_job t = Some job_id \<longrightarrow> tk_job u \<noteq> Some job_id)"

lemma advances_common:
  assumes "advances S t s t' s'" and "shared_ok S s" and "task_ok S t s"
  shows "shared_ok S s'"
proof -
  have "moves S t s t' s'" using assms(1) by (simp add: advances_def)
  then show ?thesis
  proof cases
    case (attempt job_id)
    then have "identity_of t job_id \<in> set (identities (sh_database s))" using assms(3) by (simp add: task_ok_def)
    then show ?thesis using attempt assms(1,2) by (auto simp: shared_ok_def advances_def attempted_def identity_of_def)
  qed (use assms(1,2) in \<open>auto simp: shared_ok_def advances_def\<close>)
qed

lemma advances_other:
  assumes "advances S t s t' s'" and "shared_ok S s" and "task_ok S u s" and "different_jobs t u"
  shows "task_ok S u s' \<and> different_jobs t' u"
proof -
  have u: "phase_ok S u s (tk_phase u)"
      "\<And>j. tk_job u = Some j \<Longrightarrow> identity_of u j \<in> set (identities (sh_database s))"
    using assms(3) by (simp_all add: task_ok_def)
  have known: "j \<in> fst ` set (identities (sh_database s))" if "tk_job u = Some j" for j
    using u(2) [OF that] by (force simp: identity_of_def)
  have "moves S t s t' s'" using assms(1) by (simp add: advances_def)
  then have "(\<forall>j. tk_job u = Some j \<longrightarrow> (j \<in> attempted s' \<longrightarrow> j \<in> attempted s) \<and> (j \<in> publishing S s' \<longrightarrow> j \<in> publishing S s)) \<and>
      set (identities (sh_database s)) \<subseteq> set (identities (sh_database s')) \<and> different_jobs t' u"
  proof cases
    case move_on
    then show ?thesis using assms(4) by (auto simp: attempted_def different_jobs_def)
  next
    case (new_job job_id)
    then have "tk_job u \<noteq> Some job_id" using known by blast
    then show ?thesis using new_job by (auto simp: attempted_def different_jobs_def)
  next
    case (attempt job_id)
    then have "tk_job u \<noteq> Some job_id" using assms(4) by (auto simp: different_jobs_def)
    then show ?thesis using attempt by (auto simp: attempted_def different_jobs_def)
  qed
  then show ?thesis using phase_ok_stable [OF u(1), of s'] u(2) by (auto simp: task_ok_def)
qed

text \<open>The interface, for the steps of the calls that keep a valid state.\<close>

interpretation calls: interleaved "\<lambda>t s t' s'. codecs_ok (sv_codecs S) \<and> acts S t s t' s'" "task_ok S" "shared_ok S" different_jobs for S
proof
  fix t s t' s' u
  assume "codecs_ok (sv_codecs S) \<and> acts S t s t' s'" "task_ok S t s" "shared_ok S s"
  then have adv: "advances S t s t' s'" by (simp add: acts_advances)
  show "task_ok S t' s' \<and> shared_ok S s'"
    using adv advances_common [OF adv] \<open>task_ok S t s\<close> \<open>shared_ok S s\<close> by (simp add: advances_def)
  show "task_ok S u s' \<and> different_jobs t' u" if "task_ok S u s" "different_jobs t u"
    by (rule advances_other [OF adv \<open>shared_ok S s\<close> that])
qed (auto simp: different_jobs_def)

section \<open>All calls\<close>

record pool =
  po_shared :: shared
  po_tasks :: "task list"

definition new_call :: "principal \<Rightarrow> event_request \<Rightarrow> publish_inputs \<Rightarrow> task" where
  "new_call p request inputs =
     \<lparr>tk_principal = p, tk_request = request, tk_inputs = inputs, tk_phase = Received, tk_job = None\<rparr>"

text \<open>What a process leaves that dies: the statements of \<open>complete_publish_job\<close> and of the recovery are not in a
  transaction, so that a completion may have updated the job alone, or replaced a part of its outcomes.\<close>

inductive left_behind :: "codecs \<Rightarrow> database \<Rightarrow> database \<Rightarrow> bool" for K d where
  whole: "left_behind K d d"
| updated: "left_behind K d d1 \<Longrightarrow> status \<noteq> JsPublishing \<Longrightarrow> encode (cd_status K) status = Inr label \<Longrightarrow>
    left_behind K d (update_job job_id (completed_row label now e (int n)) d1)"
| replaced: "left_behind K d d1 \<Longrightarrow> status \<noteq> JsPublishing \<Longrightarrow> encode (cd_status K) status = Inr label \<Longrightarrow>
    left_behind K d (fst (replace_target_outcomes K job_id (take k outcomes) now
      (update_job job_id (completed_row label now e (int n)) d1)))"

text \<open>A start of the daemon on a database: the interrupted jobs are recovered, and all permits are free.\<close>

definition started :: "publish_service \<Rightarrow> database \<Rightarrow> attempt list \<Rightarrow> pool" where
  "started S d attempts = \<lparr>po_shared = \<lparr>sh_database = d, sh_permits = tp_max_concurrent_publish_jobs (sv_config S),
     sh_attempts = attempts\<rparr>, po_tasks = []\<rparr>"

inductive pool_step :: "publish_service \<Rightarrow> pool \<Rightarrow> pool \<Rightarrow> bool" for S p where
  arrive: "pool_step S p (p\<lparr>po_tasks := po_tasks p @ [new_call who request inputs]\<rparr>)"
| act: "i < length (po_tasks p) \<Longrightarrow> acts S (po_tasks p ! i) (po_shared p) t' s' \<Longrightarrow>
    pool_step S p \<lparr>po_shared = s', po_tasks = (po_tasks p)[i := t']\<rparr>"
| restart: "left_behind (sv_codecs S) (sh_database (po_shared p)) d \<Longrightarrow>
    recover_interrupted_publish_jobs (sv_crates S) (sv_codecs S) now d = (d', Inr ()) \<Longrightarrow>
    pool_step S p (started S d' (sh_attempts (po_shared p)))"

inductive reachable_pool :: "publish_service \<Rightarrow> pool \<Rightarrow> bool" for S where
  start: "reachable_db (sv_crates S) (sv_codecs S) d \<Longrightarrow>
    recover_interrupted_publish_jobs (sv_crates S) (sv_codecs S) now d = (d', Inr ()) \<Longrightarrow> reachable_pool S (started S d' [])"
| continue: "reachable_pool S p \<Longrightarrow> pool_step S p p' \<Longrightarrow> reachable_pool S p'"

lemma left_behind_reachable: "left_behind K d d' \<Longrightarrow> reachable_db P K d \<Longrightarrow> reachable_db P K d'"
  by (induction rule: left_behind.induct) (auto intro: reachable_db.crash_updated reachable_db.crash_results)

lemma left_behind_identities: "left_behind K d d' \<Longrightarrow> codecs_ok K \<Longrightarrow> identities d' = identities d"
proof (induction rule: left_behind.induct)
  case (replaced d1 status label job_id k outcomes now e n)
  then show ?case
    by (simp add: identities_jobs [OF replace_target_outcomes_frame(1)] completed_jobs(1))
qed (simp_all add: completed_jobs(1))

definition permits_ok :: "publish_service \<Rightarrow> pool \<Rightarrow> bool" where
  "permits_ok S p \<longleftrightarrow> sh_permits (po_shared p) + sum_list (map held (po_tasks p)) = tp_max_concurrent_publish_jobs (sv_config S)"

definition owned :: "publish_service \<Rightarrow> pool \<Rightarrow> bool" where
  "owned S p \<longleftrightarrow> (\<forall>job_id \<in> publishing S (po_shared p). \<exists>t \<in> set (po_tasks p). tk_job t = Some job_id)"

definition pool_ok :: "publish_service \<Rightarrow> pool \<Rightarrow> bool" where
  "pool_ok S p \<longleftrightarrow> calls.all_own S (po_tasks p) (po_shared p) \<and> permits_ok S p \<and> owned S p"

lemma started_ok:
  assumes "reachable_db (sv_crates S) (sv_codecs S) d" and "distinct (map at_job attempts)"
    and "\<forall>a \<in> set attempts. (at_job a, at_principal a, at_key a) \<in> set (identities d)"
    and "recover_interrupted_publish_jobs (sv_crates S) (sv_codecs S) now d = (d', Inr ())" and "codecs_ok (sv_codecs S)"
  shows "pool_ok S (started S d' attempts)"
proof -
  have "identities d' = identities d" using recovered_identities [of "sv_crates S" "sv_codecs S" now d] assms(4) by simp
  moreover have "reachable_db (sv_crates S) (sv_codecs S) d'" using reachable_db.recover [OF assms(1), of now] assms(4) by simp
  ultimately have "shared_ok S (po_shared (started S d' attempts))" using assms(2,3) by (simp add: shared_ok_def started_def)
  moreover have "publishing_jobs (sv_codecs S) d' = {}" by (rule recovered_publishing [OF assms(4,5)])
  ultimately show ?thesis
    by (simp add: pool_ok_def started_def calls.all_own_Nil permits_ok_def owned_def)
qed

lemma held_update:
  assumes "i < length ts" and "p' + held t' = p + held (ts ! i)"
  shows "p' + sum_list (map held (ts[i := t'])) = p + sum_list (map held ts)"
  using assms
proof (induction ts arbitrary: i)
  case (Cons t ts)
  show ?case
  proof (cases i)
    case (Suc j)
    then show ?thesis using Cons.IH [of j] Cons.prems by simp
  qed (use Cons.prems in simp)
qed simp

lemma act_owned:
  assumes "owned S p" and "i < length (po_tasks p)" and "moves S (po_tasks p ! i) (po_shared p) t' s'"
  shows "owned S \<lparr>po_shared = s', po_tasks = (po_tasks p)[i := t']\<rparr>"
proof -
  have t': "t' \<in> set ((po_tasks p)[i := t'])" using assms(2) by (rule set_update_memI)
  have kept: "\<exists>t \<in> set ((po_tasks p)[i := t']). tk_job t = Some k"
    if pub: "k \<in> publishing S (po_shared p)" and mine: "tk_job (po_tasks p ! i) = Some k \<Longrightarrow> tk_job t' = Some k" for k
  proof -
    obtain t where "t \<in> set (po_tasks p)" "tk_job t = Some k" using assms(1) pub by (auto simp: owned_def)
    then obtain j where j: "j < length (po_tasks p)" "tk_job (po_tasks p ! j) = Some k" by (auto simp: in_set_conv_nth)
    show ?thesis
    proof (cases "j = i")
      case True
      then show ?thesis using t' mine j by blast
    next
      case False
      then have "po_tasks p ! j \<in> set ((po_tasks p)[i := t'])" using j(1) by (metis length_list_update nth_list_update_neq nth_mem)
      then show ?thesis using j(2) by blast
    qed
  qed
  from assms(3) show ?thesis
  proof cases
    case move_on
    then show ?thesis using kept by (auto simp: owned_def)
  next
    case (new_job job_id)
    then show ?thesis using kept t' by (auto simp: owned_def)
  next
    case (attempt job_id)
    then show ?thesis using kept by (auto simp: owned_def)
  qed
qed

lemma pool_step_ok:
  assumes "pool_step S p p'" and "pool_ok S p" and "codecs_ok (sv_codecs S)"
  shows "pool_ok S p'"
  using assms(1)
proof cases
  case (arrive who request inputs)
  let ?t = "new_call who request inputs"
  have "calls.all_own S (po_tasks p @ [?t]) (po_shared p)"
    by (rule calls.all_own_arrive) (use assms(2) in \<open>simp_all add: pool_ok_def new_call_def task_ok_def different_jobs_def\<close>)
  then show ?thesis using assms(2)
    by (auto simp: arrive pool_ok_def permits_ok_def owned_def new_call_def held_def)
next
  case (act i t' s')
  let ?t = "po_tasks p ! i"
  have own: "calls.all_own S (po_tasks p) (po_shared p)" using assms(2) by (simp add: pool_ok_def)
  have "task_ok S ?t (po_shared p)" "shared_ok S (po_shared p)"
    using own act(2) by (simp_all add: calls.all_own_def)
  then have adv: "advances S ?t (po_shared p) t' s'" by (rule acts_advances [OF act(3) _ _ assms(3)])
  have "calls.all_own S ((po_tasks p)[i := t']) s'"
    by (rule calls.all_own_act [OF own act(2)]) (simp add: act(3) assms(3))
  moreover have "permits_ok S p'"
    using held_update [OF act(2), of "sh_permits s'" t' "sh_permits (po_shared p)"] adv assms(2)
    by (simp add: act(1) permits_ok_def pool_ok_def advances_def)
  moreover have "owned S p'"
    unfolding act(1) by (rule act_owned [OF _ act(2)]) (use adv assms(2) in \<open>simp_all add: pool_ok_def advances_def\<close>)
  ultimately show ?thesis by (simp add: pool_ok_def act(1))
next
  case (restart d now d')
  have "shared_ok S (po_shared p)" using assms(2) by (simp add: pool_ok_def calls.all_own_def)
  then show ?thesis
    unfolding restart(1)
    by (intro started_ok [OF _ _ _ restart(3) assms(3)])
      (auto simp: shared_ok_def left_behind_identities [OF restart(2) assms(3)] intro: left_behind_reachable [OF restart(2)])
qed

lemma reachable_pool_ok:
  assumes "reachable_pool S p" and "codecs_ok (sv_codecs S)"
  shows "pool_ok S p"
  using assms
proof (induction rule: reachable_pool.induct)
  case (start d now d')
  show ?case by (rule started_ok [OF start(1) _ _ start(2,3)]) simp_all
qed (auto intro: pool_step_ok)

section \<open>A run\<close>

definition sending_service :: publish_service where
  "sending_service = quiet_service\<lparr>sv_config := sample_config\<lparr>tp_nostr := default_nostr_config\<lparr>pn_daemon_default_relays := [''wss://a'']\<rparr>\<rparr>\<rparr>"

definition sending_resolution :: resolution where
  "sending_resolution = \<lparr>rl_targets = [\<lparr>rv_url = \<lparr>ru_inner = ''wss://a'', ru_policy = Public\<rparr>, rv_source = TsDaemonDefault,
     rv_target_scope = None, rv_target_label = None\<rparr>], rl_outcomes = []\<rparr>"

lemma sending_parts:
  "sv_nostr sending_service = sample_nostr" "sv_codecs sending_service = sample_codecs" "sv_crates sending_service = sample_publish"
  by (simp_all add: sending_service_def quiet_parts)

lemma sending_check: "check_request sending_service sample_principal sample_request = Inr (sample_signed, 10000)"
  by (simp add: check_request_def sending_service_def quiet_service_def sample_service_def sample_request_def sample_config_def
      default_transport_publish_config_def signed_event_from_raw_json_def sample_publish_def allows_event_def
      sample_principal_def sample_signed_def ensure_lower_hex_def sample_pubkey_hex
      effective_publish_timeout_ms_def saturating_mul_def)

lemma sending_plan: "plan_targets sending_service pubkey sample_request seen = Inr (None, sending_resolution)"
  by (simp add: plan_targets_def Let_def sample_request_def sending_resolution_def sending_service_def quiet_service_def resolution_defs
      sample_service_def sample_nostr_def default_nostr_config_def sample_config_def default_transport_publish_config_def)

lemma sample_new_principal:
  "\<exists>d. reachable_db sample_publish sample_codecs d \<and> db_jobs d = [] \<and> db_snapshots d = [] \<and> db_results d = [] \<and>
     pw_principal_id ` set (db_principals d) = {''p1''}"
proof -
  obtain d p where "create_principal sample_publish sample_codecs ''p1'' 0 sample_init empty_database = (d, Inr p)"
    using sample_created by blast
  moreover from this have "reachable_db sample_publish sample_codecs d"
    using reachable_db.create [OF reachable_db.fresh, of sample_publish sample_codecs "''p1''" 0 sample_init] by simp
  ultimately show ?thesis
    by (intro exI [of _ d]) (auto simp: create_principal_def insert_principal_def empty_database_def principal_row_of_def result_eqs
        split: sum.splits if_splits)
qed

lemma sample_rows:
  assumes "db_jobs d = []" and "db_snapshots d = []" and "db_results d = []" and "pw_principal_id ` set (db_principals d) = {''p1''}"
  shows "\<exists>d' w m m'. add_job_rows sample_publish sample_codecs ''j1'' 5
      (job_insert_of sending_service sample_principal sample_request sample_signed fp sending_resolution) d = Inr d' \<and>
    find (\<lambda>w. jw_job_id w = ''j1'') (db_jobs d') = Some w \<and> job_from_row sample_codecs w = Inr m \<and>
    finalize_job_row_for_egress sample_publish sample_codecs d' m = Inr m' \<and> jb_job_id (pj_view m') = ''j1''"
  using assms
  by (simp add: add_job_rows_def job_insert_of_def target_count_def sending_resolution_def sending_parts
      target_snapshots_from_resolution_def encode_def
      sample_codecs_def storage_count_i64_def i64_max_def record_transaction_def job_row_of_def
      insert_job_def sample_principal_def target_row_of_def insert_snapshot_def
      job_from_row_def json_text_def checked_event_kind_column_def checked_usize_column_def
      finalize_job_row_for_egress_def target_outcomes_def finalize_job_view_def sample_publish_def
      sample_request_def from_signed_event_def sample_signed_def)

lemma reach_step:
  assumes "reachable_pool S \<lparr>po_shared = s, po_tasks = [t, u]\<rparr>" and "task_step S A (tk_phase t) t s = (t', s')"
  shows "reachable_pool S \<lparr>po_shared = s', po_tasks = [t', u]\<rparr>"
  using continue [OF assms(1) pool_step.act [of 0 _ S t' s']] assms(2) by (simp add: acts.step)

definition sample_call :: "phase \<Rightarrow> string option \<Rightarrow> task" where
  "sample_call ph job = \<lparr>tk_principal = sample_principal, tk_request = sample_request, tk_inputs = sample_inputs, tk_phase = ph, tk_job = job\<rparr>"

definition sample_pool :: "phase \<Rightarrow> database \<Rightarrow> pool" where
  "sample_pool ph d =
     \<lparr>po_shared = \<lparr>sh_database = d, sh_permits = tp_max_concurrent_publish_jobs (sv_config sending_service) - 1,
        sh_attempts = [\<lparr>at_job = ''j1'', at_principal = ''p1'', at_key = Some ''k1''\<rparr>]\<rparr>,
      po_tasks = [sample_call ph (Some ''j1''), sample_call Received None]\<rparr>"

lemma sample_run:
  "\<exists>d ph v. reachable_pool sending_service (sample_pool ph d) \<and> holds_permit ph \<and>
     ''j1'' \<in> publishing_jobs sample_codecs d \<and> job_by_id sample_publish sample_codecs d ''j1'' = Inr v"
proof -
  let ?S = sending_service and ?r = sending_resolution
  let ?n = "tp_max_concurrent_publish_jobs (sv_config ?S)"
  obtain d where d: "reachable_db sample_publish sample_codecs d" "db_jobs d = []" "db_snapshots d = []" "db_results d = []"
      "pw_principal_id ` set (db_principals d) = {''p1''}" using sample_new_principal by blast
  have n: "0 < ?n" by (simp add: sending_service_def sample_config_def default_transport_publish_config_def)
  obtain fp where fp: "request_intent_fingerprint sample_publish (in_to_vec sample_inputs) (pp_principal_id sample_principal)
      (se_raw_json sample_signed) sample_request 10000 = Inr fp"
    by (simp add: request_intent_fingerprint_def sample_inputs_def)
  let ?i = "job_insert_of ?S sample_principal sample_request sample_signed fp ?r"
  obtain d' w m m' where rows: "add_job_rows sample_publish sample_codecs ''j1'' 5 ?i d = Inr d'"
    "find (\<lambda>w. jw_job_id w = ''j1'') (db_jobs d') = Some w" "job_from_row sample_codecs w = Inr m"
    "finalize_job_row_for_egress sample_publish sample_codecs d' m = Inr m'" "jb_job_id (pj_view m') = ''j1''"
    using sample_rows [OF d(2-5)] by blast
  let ?s = "\<lambda>d n as. \<lparr>sh_database = d, sh_permits = n, sh_attempts = as\<rparr>"
  let ?p = "\<lambda>s t. \<lparr>po_shared = s, po_tasks = [t, sample_call Received None]\<rparr>"
  have "recover_interrupted_publish_jobs sample_publish sample_codecs 9 d = (d, Inr ())"
    by (simp add: recover_interrupted_publish_jobs_def d(2) encode_def sample_codecs_def)
  then have "reachable_pool ?S (started ?S d [])"
    using reachable_pool.start [of ?S d 9 d] d(1) by (simp add: sending_parts)
  from continue [OF continue [OF this pool_step.arrive] pool_step.arrive, of sample_principal sample_request sample_inputs
      sample_principal sample_request sample_inputs]
  have p0: "reachable_pool ?S (?p (?s d ?n []) (sample_call Received None))"
    by (simp add: started_def new_call_def sample_call_def)
  have p1: "reachable_pool ?S (?p (?s d (?n - 1) []) (sample_call (Resolving sample_signed 10000 fp) None))"
    by (rule reach_step [OF p0]) (use n fp in \<open>simp add: sample_call_def receive_step_def sending_check sending_parts
        acquire_publish_permit_def or_answer_def proceed_def\<close>)
  have p2: "reachable_pool ?S (?p (?s d (?n - 1) []) (sample_call (Caching sample_signed 10000 fp None ?r) None))"
    by (rule reach_step [OF p1]) (simp add: sample_call_def resolve_step_def sending_plan or_answer_def proceed_def)
  have p3: "reachable_pool ?S (?p (?s d (?n - 1) []) (sample_call (Looking sample_signed 10000 ?i ?r) None))"
    by (rule reach_step [OF p2])
      (simp add: sample_call_def cache_step_def store_discovered_def or_answer_def proceed_def Let_def
        validate_delivery_policy_for_resolution_def sample_request_def job_insert_of_def length_snapshots)
  have p4: "reachable_pool ?S (?p (?s d (?n - 1) []) (sample_call (Inserting sample_signed 10000 ?i ?r) None))"
    by (rule reach_step [OF p3])
      (simp add: sample_call_def look_step_def or_answer_def proceed_def job_insert_of_def sample_request_def d(2))
  have p5: "reachable_pool ?S (?p (?s d' (?n - 1) []) (sample_call (Fetching ''j1'' (ToExecute sample_signed 10000 ?r)) (Some ''j1'')))"
    by (rule reach_step [OF p4])
      (use rows(1) in \<open>simp add: sample_call_def insert_step_def or_answer_def Let_def sending_parts sample_inputs_def\<close>)
  have p6: "reachable_pool ?S (?p (?s d' (?n - 1) []) (sample_call (Showing m (ToExecute sample_signed 10000 ?r)) (Some ''j1'')))"
    by (rule reach_step [OF p5]) (simp add: sample_call_def fetch_step_def or_answer_def proceed_def sending_parts rows(2,3))
  have p7: "reachable_pool ?S (?p (?s d' (?n - 1) []) (sample_call (Starting ''j1'' sample_signed 10000 ?r) (Some ''j1'')))"
    by (rule reach_step [OF p6]) (simp add: sample_call_def show_step_def or_answer_def proceed_def sending_parts rows(4,5))
  obtain q where q: "execution_plan ?S (in_clocks sample_inputs) sample_signed (er_delivery_policy sample_request) ?r = Inr (AttemptWith q)"
    by (simp add: execution_plan_def sending_resolution_def sending_parts target_count_def sample_request_def sample_publish_def
        from_urls_def sample_nostr_def)
  have "reachable_pool ?S (?p (?s d' (?n - 1) [\<lparr>at_job = ''j1'', at_principal = ''p1'', at_key = Some ''k1''\<rparr>])
      (sample_call (Attempting ''j1'' 10000 ?r q) (Some ''j1'')))"
    by (rule reach_step [OF p7])
      (use q in \<open>simp add: sample_call_def start_step_def or_answer_def sample_principal_def sample_request_def\<close>)
  then have "reachable_pool ?S (sample_pool (Attempting ''j1'' 10000 ?r q) d')" by (simp add: sample_pool_def)
  moreover have "''j1'' \<in> publishing_jobs sample_codecs d'" using inserted_jobs(3) [OF rows(1)] by simp
  moreover have "job_by_id sample_publish sample_codecs d' ''j1'' = Inr (pj_view m')"
    by (simp add: job_by_id_def rows(2-4))
  moreover have "holds_permit (Attempting ''j1'' 10000 ?r q)" by simp
  ultimately show ?thesis by blast
qed

section \<open>What holds of every run\<close>

lemma sum_held: "sum_list (map held ts) = length (filter (\<lambda>t. holds_permit (tk_phase t)) ts)"
  by (induction ts) (simp_all add: held_def)

text \<open>C9. Permits are neither lost nor made: in every state the free permits and the calls that hold one make up
  the configured number, so that never more jobs are published at once, and when no call is under way
  all permits are free, whatever errors, dropped calls and restarts there were.\<close>

theorem permits_conserved:
  assumes "reachable_pool S p" and "codecs_ok (sv_codecs S)"
  shows "sh_permits (po_shared p) + length (filter (\<lambda>t. holds_permit (tk_phase t)) (po_tasks p)) =
    tp_max_concurrent_publish_jobs (sv_config S)"
  using reachable_pool_ok [OF assms] by (simp add: pool_ok_def permits_ok_def sum_held)

lemma sending_codecs_ok: "codecs_ok (sv_codecs sending_service)"
  by (simp add: sending_parts sample_codecs_ok)

theorem permits_conserved_witness:
  "\<exists>p. reachable_pool sending_service p \<and> po_tasks p \<noteq> [] \<and>
    Suc (sh_permits (po_shared p)) = tp_max_concurrent_publish_jobs (sv_config sending_service)"
proof -
  obtain d ph where run: "reachable_pool sending_service (sample_pool ph d)" and ph: "holds_permit ph"
    using sample_run by blast
  have "Suc (sh_permits (po_shared (sample_pool ph d))) = tp_max_concurrent_publish_jobs (sv_config sending_service)"
    using permits_conserved [OF run sending_codecs_ok] ph by (simp add: sample_pool_def sample_call_def)
  moreover have "po_tasks (sample_pool ph d) \<noteq> []" by (simp add: sample_pool_def)
  ultimately show ?thesis using run by blast
qed

lemma attempts_known:
  assumes "pool_ok S p" and "a \<in> set (sh_attempts (po_shared p))"
  shows "\<exists>r \<in> set (db_jobs (sh_database (po_shared p))). jw_job_id r = at_job a \<and>
    jw_principal_id r = at_principal a \<and> jw_idempotency_key r = at_key a"
proof -
  have "(at_job a, at_principal a, at_key a) \<in> set (identities (sh_database (po_shared p)))"
    using assms by (simp add: pool_ok_def calls.all_own_def shared_ok_def)
  then obtain r where "r \<in> set (db_jobs (sh_database (po_shared p)))"
      "(at_job a, at_principal a, at_key a) = (jw_job_id r, jw_principal_id r, jw_idempotency_key r)"
    unfolding identities_def set_map by (rule imageE)
  then show ?thesis by (intro bexI [of _ r]) simp_all
qed

text \<open>C7. An event is handed to the relays at most once for a job and at most once for a key of a principal, in
  every interleaving of calls, and also when calls were dropped and the process died and started again:
  no two attempts that were ever begun have the same job, or the same principal and key.\<close>

theorem one_attempt_per_key:
  assumes "reachable_pool S p" and "codecs_ok (sv_codecs S)"
  shows "distinct (map at_job (sh_attempts (po_shared p))) \<and>
    distinct (map (\<lambda>a. (at_principal a, at_key a)) (filter (\<lambda>a. at_key a \<noteq> None) (sh_attempts (po_shared p))))"
proof -
  let ?as = "sh_attempts (po_shared p)" and ?d = "sh_database (po_shared p)"
  have ok: "pool_ok S p" by (rule reachable_pool_ok [OF assms])
  then have jobs: "distinct (map at_job ?as)" and "reachable_db (sv_crates S) (sv_codecs S) ?d"
    by (simp_all add: pool_ok_def calls.all_own_def shared_ok_def)
  then have db: "database_ok ?d" by (blast intro: reachable_database_ok)
  have "inj_on (\<lambda>a. (at_principal a, at_key a)) (set (filter (\<lambda>a. at_key a \<noteq> None) ?as))"
  proof (rule inj_onI)
    fix a b
    assume a: "a \<in> set (filter (\<lambda>a. at_key a \<noteq> None) ?as)" and b: "b \<in> set (filter (\<lambda>a. at_key a \<noteq> None) ?as)"
      and same: "(at_principal a, at_key a) = (at_principal b, at_key b)"
    obtain r where r: "r \<in> set (db_jobs ?d)" "jw_job_id r = at_job a" "jw_principal_id r = at_principal a" "jw_idempotency_key r = at_key a"
      using attempts_known [OF ok, of a] a by auto
    obtain s where s: "s \<in> set (db_jobs ?d)" "jw_job_id s = at_job b" "jw_principal_id s = at_principal b" "jw_idempotency_key s = at_key b"
      using attempts_known [OF ok, of b] b by auto
    have "same_idempotency r s" using r s same a by (auto simp: same_idempotency_def)
    then have "r = s" using db r(1) s(1) by (simp add: database_ok_def)
    then have "at_job a = at_job b" using r(2) s(2) by simp
    then show "a = b" using jobs a b by (auto simp: distinct_map dest: inj_onD)
  qed
  then show ?thesis using jobs by (simp add: distinct_map)
qed

theorem one_attempt_per_key_witness:
  "\<exists>p. reachable_pool sending_service p \<and> length (po_tasks p) = 2 \<and> sh_attempts (po_shared p) \<noteq> [] \<and>
    distinct (map at_job (sh_attempts (po_shared p)))"
proof -
  obtain d ph where run: "reachable_pool sending_service (sample_pool ph d)" using sample_run by blast
  have "length (po_tasks (sample_pool ph d)) = 2" "sh_attempts (po_shared (sample_pool ph d)) \<noteq> []"
    by (simp_all add: sample_pool_def)
  then show ?thesis using one_attempt_per_key [OF run sending_codecs_ok] run by blast
qed

lemma status_published:
  assumes "job_by_id P K d k = Inr v" and "k \<in> publishing_jobs K d" and "database_ok d" and "codecs_ok K"
  shows "jb_status v = JsPublishing"
proof -
  obtain r p ts where r: "find (\<lambda>r. jw_job_id r = k) (db_jobs d) = Some r" and p: "job_from_row K r = Inr p"
    and v: "v = finalize_job_view P ((pj_view p)\<lparr>jb_targets := ts\<rparr>)" by (rule job_by_idE [OF assms(1)])
  from r have mem: "r \<in> set (db_jobs d)" "jw_job_id r = k" by (auto simp: find_Some_iff)
  obtain r' where r': "r' \<in> set (db_jobs d)" "jw_job_id r' = k" "encode (cd_status K) JsPublishing = Inr (jw_status r')"
    using assms(2) by (auto simp: publishing_iff)
  then have "r' = r" using mem assms(3) by (auto simp: database_ok_def distinct_map dest: inj_onD)
  then have "jb_status (pj_view p) = JsPublishing"
    using p encode_json_text [OF codecs_okD(5) [OF assms(4)] r'(3)] by (auto simp: job_from_row_def result_eqs)
  then show ?thesis using v by (simp add: finalize_job_view_def)
qed

text \<open>C10. A job that reads as being published is the job of a call of this process, and that call was not answered
  with success: a job that a client was told is final is final, and no job of an earlier process is left
  as being published.\<close>

theorem publishing_has_call:
  assumes "reachable_pool S p" and "codecs_ok (sv_codecs S)"
    and "job_by_id (sv_crates S) (sv_codecs S) (sh_database (po_shared p)) k = Inr v" and "jb_status v = JsPublishing"
  shows "\<exists>t \<in> set (po_tasks p). tk_job t = Some k \<and> (\<forall>r. tk_phase t \<noteq> Answered (Inr r))"
proof -
  have ok: "pool_ok S p" by (rule reachable_pool_ok [OF assms(1,2)])
  then have "readable_db (sv_codecs S) (sh_database (po_shared p))"
    using reachable_readable assms(2) by (auto simp: pool_ok_def calls.all_own_def shared_ok_def)
  then have pub: "k \<in> publishing S (po_shared p)" by (rule published_status [OF assms(3,4) _ assms(2)])
  then obtain t where t: "t \<in> set (po_tasks p)" "tk_job t = Some k" using ok by (auto simp: pool_ok_def owned_def)
  then have "phase_ok S t (po_shared p) (tk_phase t)" using ok by (auto simp: pool_ok_def calls.all_own_def task_ok_def)
  then show ?thesis using t pub by (intro bexI [of _ t]) auto
qed

lemma sample_published_status:
  assumes "reachable_pool sending_service (sample_pool ph d)" and "''j1'' \<in> publishing_jobs sample_codecs d"
    and "job_by_id sample_publish sample_codecs d ''j1'' = Inr v"
  shows "jb_status v = JsPublishing"
proof (rule status_published [OF assms(3,2) _ sample_codecs_ok])
  have "reachable_db sample_publish sample_codecs d"
    using reachable_pool_ok [OF assms(1) sending_codecs_ok]
    by (simp add: pool_ok_def calls.all_own_def shared_ok_def sample_pool_def sending_parts)
  then show "database_ok d" by (rule reachable_database_ok)
qed

theorem publishing_has_call_witness:
  "\<exists>p v. reachable_pool sending_service p \<and> jb_status v = JsPublishing \<and>
    job_by_id sample_publish sample_codecs (sh_database (po_shared p)) ''j1'' = Inr v \<and>
    (\<exists>t \<in> set (po_tasks p). tk_job t = Some ''j1'' \<and> (\<forall>r. tk_phase t \<noteq> Answered (Inr r)))"
proof -
  obtain d ph v where run: "reachable_pool sending_service (sample_pool ph d)" and pub: "''j1'' \<in> publishing_jobs sample_codecs d"
    and job: "job_by_id sample_publish sample_codecs d ''j1'' = Inr v" using sample_run by blast
  have status: "jb_status v = JsPublishing" by (rule sample_published_status [OF run pub job])
  have job': "job_by_id sample_publish sample_codecs (sh_database (po_shared (sample_pool ph d))) ''j1'' = Inr v"
    using job by (simp add: sample_pool_def)
  from publishing_has_call [OF run sending_codecs_ok, unfolded sending_parts, OF job' status]
  show ?thesis using run job' status by blast
qed

text \<open>Calls and steps of a process that runs on.\<close>

definition runs_on :: "publish_service \<Rightarrow> pool \<Rightarrow> pool \<Rightarrow> bool" where
  "runs_on S p p' \<longleftrightarrow> pool_step S p p' \<and> po_tasks p' \<noteq> []"

lemma runs_on_stuck:
  assumes "runs_on S p p'" and "pool_ok S p" and "codecs_ok (sv_codecs S)"
    and t: "t \<in> set (po_tasks p)" "tk_phase t = Dropped" "tk_job t = Some k" "k \<in> publishing S (po_shared p)"
  shows "t \<in> set (po_tasks p') \<and> k \<in> publishing S (po_shared p')"
proof -
  have "pool_step S p p'" "po_tasks p' \<noteq> []" using assms(1) by (simp_all add: runs_on_def)
  then show ?thesis
  proof cases
    case (act i t' s')
    let ?u = "po_tasks p ! i"
    have own: "calls.all_own S (po_tasks p) (po_shared p)" using assms(2) by (simp add: pool_ok_def)
    obtain j where j: "j < length (po_tasks p)" "po_tasks p ! j = t" using t(1) by (auto simp: in_set_conv_nth)
    show ?thesis
    proof (cases "j = i")
      case True
      from act(3) have "t' = t \<and> s' = po_shared p"
        by cases (use True j t(2) in auto)
      then show ?thesis using act(1) t True j set_update_memI [OF act(2), of t] by simp
    next
      case False
      then have "tk_job ?u \<noteq> Some k" using own j act(2) t(3) by (auto simp: calls.all_own_def different_jobs_def)
      moreover have "task_ok S ?u (po_shared p)" "shared_ok S (po_shared p)"
        using own act(2) by (simp_all add: calls.all_own_def)
      then have "moves S ?u (po_shared p) t' s'" using acts_advances [OF act(3) _ _ assms(3)] by (simp add: advances_def)
      then have "tk_job ?u \<noteq> Some k \<longrightarrow> k \<in> publishing S s'" by cases (use t(4) in auto)
      moreover have "t \<in> set ((po_tasks p)[i := t'])"
        using False j by (metis length_list_update nth_list_update_neq nth_mem)
      ultimately show ?thesis by (simp add: act(1))
    qed
  qed (use t in \<open>simp_all add: started_def\<close>)
qed

text \<open>C34. A call that is dropped after its job was recorded leaves the job unfinished for the life of the process:
  whatever other calls do, the job goes on reading as being published, until the daemon is started again.\<close>

theorem dropped_job_stays_publishing:
  assumes "reachable_pool S p" and "codecs_ok (sv_codecs S)" and "t \<in> set (po_tasks p)" and "tk_phase t = Dropped"
    and "tk_job t = Some k" and "k \<in> publishing_jobs (sv_codecs S) (sh_database (po_shared p))"
    and "(runs_on S)\<^sup>*\<^sup>* p p'" and "job_by_id (sv_crates S) (sv_codecs S) (sh_database (po_shared p')) k = Inr v"
  shows "jb_status v = JsPublishing"
proof -
  from assms(7) have "pool_ok S p' \<and> t \<in> set (po_tasks p') \<and> k \<in> publishing S (po_shared p')"
  proof (induction rule: rtranclp_induct)
    case (step q q')
    then show ?case
      using runs_on_stuck [OF step.hyps(2) _ assms(2) _ assms(4,5)] pool_step_ok assms(2) by (auto simp: runs_on_def)
  qed (use assms reachable_pool_ok in simp)
  then have "database_ok (sh_database (po_shared p'))" "k \<in> publishing S (po_shared p')"
    by (auto simp: pool_ok_def calls.all_own_def shared_ok_def intro: reachable_database_ok)
  then show ?thesis using status_published [OF assms(8)] assms(2) by blast
qed


theorem dropped_job_stays_publishing_witness:
  "\<exists>p p' v. reachable_pool sending_service p \<and> (\<exists>t \<in> set (po_tasks p). tk_phase t = Dropped) \<and> runs_on sending_service p p' \<and>
    job_by_id sample_publish sample_codecs (sh_database (po_shared p')) ''j1'' = Inr v \<and> jb_status v = JsPublishing"
proof -
  obtain d ph v where run: "reachable_pool sending_service (sample_pool ph d)" and ph: "holds_permit ph"
    and pub: "''j1'' \<in> publishing_jobs sample_codecs d" and job: "job_by_id sample_publish sample_codecs d ''j1'' = Inr v"
    using sample_run by blast
  let ?t = "sample_call Dropped (Some ''j1'')"
  define p where "p = \<lparr>po_shared = \<lparr>sh_database = d, sh_permits = Suc (tp_max_concurrent_publish_jobs (sv_config sending_service) - 1),
        sh_attempts = [\<lparr>at_job = ''j1'', at_principal = ''p1'', at_key = Some ''k1''\<rparr>]\<rparr>,
      po_tasks = [?t, sample_call Received None]\<rparr>"
  have "acts sending_service (sample_call ph (Some ''j1'')) (po_shared (sample_pool ph d))
      ?t ((po_shared (sample_pool ph d))\<lparr>sh_permits := Suc (sh_permits (po_shared (sample_pool ph d)))\<rparr>)"
    using acts.drop [of "sample_call ph (Some ''j1'')" sending_service "po_shared (sample_pool ph d)"] ph
    by (simp add: sample_call_def)
  then have "pool_step sending_service (sample_pool ph d) p"
    using pool_step.act [of 0 "sample_pool ph d" sending_service] by (simp add: sample_pool_def p_def)
  with run have reach: "reachable_pool sending_service p" by (rule continue)
  let ?p' = "p\<lparr>po_tasks := po_tasks p @ [new_call sample_principal sample_request sample_inputs]\<rparr>"
  have on: "runs_on sending_service p ?p'"
    using pool_step.arrive [of sending_service p sample_principal sample_request sample_inputs] by (simp add: runs_on_def)
  have t: "?t \<in> set (po_tasks p)" "tk_phase ?t = Dropped" "tk_job ?t = Some ''j1''"
      "''j1'' \<in> publishing_jobs sample_codecs (sh_database (po_shared p))"
      "job_by_id sample_publish sample_codecs (sh_database (po_shared ?p')) ''j1'' = Inr v"
    using pub job by (simp_all add: p_def sample_call_def)
  have "jb_status v = JsPublishing"
    by (rule dropped_job_stays_publishing [OF reach sending_codecs_ok t(1-3), unfolded sending_parts, OF t(4) r_into_rtranclp [of "runs_on sending_service", OF on] t(5)])
  then show ?thesis using reach t on by blast
qed

section \<open>Calls return\<close>

text \<open>How many steps are left at most.\<close>

fun steps_left :: "phase \<Rightarrow> nat" where
  "steps_left Received = 12"
| "steps_left (Resolving e timeout_ms fingerprint) = 11"
| "steps_left (Caching e timeout_ms fingerprint discovered r) = 10"
| "steps_left (Looking e timeout_ms i r) = 9"
| "steps_left (Known i row) = 1"
| "steps_left (Inserting e timeout_ms i r) = 8"
| "steps_left (Fetching job_id (ToExecute e timeout_ms r)) = 7"
| "steps_left (Fetching job_id ToAnswer) = 2"
| "steps_left (Showing row (ToExecute e timeout_ms r)) = 6"
| "steps_left (Showing row ToAnswer) = 1"
| "steps_left (Starting job_id e timeout_ms r) = 5"
| "steps_left (Attempting job_id timeout_ms r request) = 4"
| "steps_left (Storing job_id status outcomes last_error) = 3"
| "steps_left (Answered r) = 0"
| "steps_left Dropped = 0"

text \<open>A call that finds the shared state, at each of its steps, in whatever state other calls have made of it.\<close>

fun disturbed :: "publish_service \<Rightarrow> (adapter \<times> shared) list \<Rightarrow> task \<Rightarrow> task" where
  "disturbed S [] t = t"
| "disturbed S ((A, s) # met) t = disturbed S met (fst (task_step S A (tk_phase t) t s))"

lemma or_answer_left:
  assumes "0 < n" and "\<And>x. r = Inr x \<Longrightarrow> steps_left (tk_phase (fst (k x t s))) < n"
  shows "steps_left (tk_phase (fst (or_answer r k t s))) < n"
  using assms by (cases r) (simp_all add: or_answer_def answer_def)

lemma or_answer_no_left:
  "(\<And>x. r = Inr x \<Longrightarrow> steps_left (tk_phase (fst (k x t s))) = 0) \<Longrightarrow> steps_left (tk_phase (fst (or_answer r k t s))) = 0"
  by (cases r) (simp_all add: or_answer_def answer_def)

lemma or_answer_not_dropped:
  "(\<And>x. r = Inr x \<Longrightarrow> tk_phase (fst (k x t s)) \<noteq> Dropped) \<Longrightarrow> tk_phase (fst (or_answer r k t s)) \<noteq> Dropped"
  by (cases r) (simp_all add: or_answer_def answer_def)

lemmas step_defs = receive_step_def resolve_step_def cache_step_def look_step_def known_step_def insert_step_def fetch_step_def
  show_step_def start_step_def receipts_step_def finish_step_def proceed_def answer_def Let_def

lemma step_left:
  "0 < steps_left (tk_phase t) \<Longrightarrow> steps_left (tk_phase (fst (task_step S A (tk_phase t) t s))) < steps_left (tk_phase t)"
  by (cases "tk_phase t" rule: steps_left.cases)
    (auto simp: step_defs intro!: or_answer_left or_answer_no_left split: option.splits plan.splits prod.splits)

lemma step_not_dropped:
  "tk_phase t \<noteq> Dropped \<Longrightarrow> tk_phase (fst (task_step S A (tk_phase t) t s)) \<noteq> Dropped"
  by (cases "tk_phase t")
    (simp_all add: step_defs or_answer_not_dropped split: option.split plan.split prod.split next.split)

lemma disturbed_answers:
  "steps_left (tk_phase t) \<le> length met \<Longrightarrow> tk_phase t \<noteq> Dropped \<Longrightarrow> \<exists>r. tk_phase (disturbed S met t) = Answered r"
proof (induction S met t rule: disturbed.induct)
  case (1 S t)
  then show ?case by (cases "tk_phase t" rule: steps_left.cases) simp_all
next
  case (2 S A s met t)
  let ?t = "fst (task_step S A (tk_phase t) t s)"
  have "steps_left (tk_phase ?t) \<le> length met"
  proof (cases "0 < steps_left (tk_phase t)")
    case True
    then show ?thesis using step_left [OF True, of S A s] "2.prems"(1) by simp
  next
    case False
    then obtain r where "tk_phase t = Answered r" using "2.prems"(2) by (cases "tk_phase t" rule: steps_left.cases) simp_all
    then show ?thesis by simp
  qed
  moreover have "tk_phase ?t \<noteq> Dropped" by (rule step_not_dropped [OF "2.prems"(2)])
  ultimately show ?case using "2.IH" by simp
qed



end
