(* ===== verification/Build_Source_Lock.thy ===== *)
theory Build_Source_Lock
  imports Prelude
begin

text \<open>
  The lock of the shared sources (\<open>tools/xtask/src/source_lock.rs\<close>): what \<open>cargo metadata\<close> says of the daemon and of
  the shared packages is held against \<open>radroots.lib.source-lock.v1.toml\<close>, and the lock is checked against
  \<open>Cargo.lock\<close> or written anew.  The parsers and writers of JSON and TOML, SHA-256 and the output of cargo are
  parameters.
\<close>

section \<open>JSON values\<close>

text \<open>Values of \<open>serde_json\<close>, as far as the build tools look at them; an object lists its members in the
  order of their keys, which is the order of its map.\<close>

datatype json = JNull | JBool bool | JInt int | JStr string | JArr "json list" | JObj "(string \<times> json) list"

fun jindex :: "json \<Rightarrow> string \<Rightarrow> json" where
  "jindex (JObj members) key = (case map_of members key of Some v \<Rightarrow> v | None \<Rightarrow> JNull)"
| "jindex v key = JNull"

fun as_array :: "json \<Rightarrow> json list option" where
  "as_array (JArr vs) = Some vs"
| "as_array v = None"

fun as_str :: "json \<Rightarrow> string option" where
  "as_str (JStr s) = Some s"
| "as_str v = None"

section \<open>UTF-8\<close>

definition continues :: "nat \<Rightarrow> bool" where
  "continues b \<longleftrightarrow> 0x80 \<le> b \<and> b \<le> 0xBF"

definition second_of_three :: "nat \<Rightarrow> nat \<Rightarrow> bool" where
  "second_of_three b c \<longleftrightarrow> (if b = 0xE0 then 0xA0 \<le> c \<and> c \<le> 0xBF else if b = 0xED then 0x80 \<le> c \<and> c \<le> 0x9F else continues c)"

definition second_of_four :: "nat \<Rightarrow> nat \<Rightarrow> bool" where
  "second_of_four b c \<longleftrightarrow> (if b = 0xF0 then 0x90 \<le> c \<and> c \<le> 0xBF else if b = 0xF4 then 0x80 \<le> c \<and> c \<le> 0x8F else continues c)"

text \<open>A text is the list of its UTF-8 bytes, as a \<open>str\<close> is; \<open>from_utf8\<close> accepts the bytes that are one.\<close>

fun utf8_ok :: "nat list \<Rightarrow> bool" where
  "utf8_ok [] = True"
| "utf8_ok (b # bs) =
     (if b < 0x80 then utf8_ok bs
      else if 0xC2 \<le> b \<and> b \<le> 0xDF then (case bs of c # rest \<Rightarrow> continues c \<and> utf8_ok rest | _ \<Rightarrow> False)
      else if 0xE0 \<le> b \<and> b \<le> 0xEF then
        (case bs of c # d # rest \<Rightarrow> second_of_three b c \<and> continues d \<and> utf8_ok rest | _ \<Rightarrow> False)
      else if 0xF0 \<le> b \<and> b \<le> 0xF4 then
        (case bs of c # d # e # rest \<Rightarrow> second_of_four b c \<and> continues d \<and> continues e \<and> utf8_ok rest | _ \<Rightarrow> False)
      else False)"

definition from_utf8 :: "string \<Rightarrow> unit + string" where
  "from_utf8 bytes = (if utf8_ok (map of_char bytes) then Inr bytes else Inl ())"

section \<open>The lock\<close>

datatype lock_error = LockInput | LockGraph | LockStale | LockIo

record source_lock =
  sl_schema :: string
  sl_repository :: string
  sl_revision :: string
  sl_architecture :: string
  sl_workspace_catalog_sha256 :: string
  sl_version :: string
  sl_source_archive_sha256 :: string
  sl_lockfile :: string
  sl_lockfile_sha256 :: string

record build_crates =
  bc_sha256 :: "string \<Rightarrow> string"
  bc_json :: "string \<Rightarrow> unit + json"
  bc_json_text :: "json \<Rightarrow> unit + string"
  bc_lock :: "string \<Rightarrow> unit + source_lock"
  bc_lock_text :: "source_lock \<Rightarrow> unit + string"

definition digest :: "build_crates \<Rightarrow> string \<Rightarrow> string" where
  "digest C bytes = hex_encode (bc_sha256 C bytes)"

definition read_lock :: "build_crates \<Rightarrow> string \<Rightarrow> lock_error + source_lock" where
  "read_lock C source =
     and_then (map_err (\<lambda>_. LockInput) (from_utf8 source)) (\<lambda>s. map_err (\<lambda>_. LockInput) (bc_lock C s))"

definition lower_hex_of :: "nat \<Rightarrow> string \<Rightarrow> bool" where
  "lower_hex_of n s \<longleftrightarrow> length s = n \<and> list_all is_lower_hex s"

definition lock_valid :: "source_lock \<Rightarrow> bool" where
  "lock_valid l \<longleftrightarrow>
     \<not> (sl_schema l \<noteq> ''radroots.lib.source-lock.v1'' \<or>
        sl_repository l \<noteq> ''https://github.com/radrootslabs/lib'' \<or>
        sl_architecture l \<noteq> ''radroots.crates.release.v2'' \<or>
        sl_lockfile l \<noteq> ''Cargo.lock'' \<or> sl_version l \<noteq> ''0.1.0-alpha'') \<and>
     lower_hex_of 40 (sl_revision l) \<and> lower_hex_of 64 (sl_workspace_catalog_sha256 l) \<and>
     lower_hex_of 64 (sl_source_archive_sha256 l) \<and> lower_hex_of 64 (sl_lockfile_sha256 l)"

definition git_source :: "source_lock \<Rightarrow> string" where
  "git_source l = ''git+https://github.com/radrootslabs/lib.git?rev='' @ sl_revision l"

definition resolved_source :: "source_lock \<Rightarrow> string" where
  "resolved_source l = git_source l @ ''#'' @ sl_revision l"

definition starts_with :: "string \<Rightarrow> string \<Rightarrow> bool" where
  "starts_with s p \<longleftrightarrow> take (length p) s = p"

definition pinned_dependency :: "source_lock \<Rightarrow> json \<Rightarrow> bool" where
  "pinned_dependency l dependency \<longleftrightarrow>
     \<not> (jindex dependency ''source'' \<noteq> JStr (git_source l) \<or>
        jindex dependency ''req'' \<noteq> JStr (''='' @ sl_version l) \<or>
        jindex dependency ''rename'' \<noteq> JNull)"

fun count_direct :: "source_lock \<Rightarrow> json list \<Rightarrow> nat \<Rightarrow> lock_error + nat" where
  "count_direct l [] direct = Inr direct"
| "count_direct l (dependency # dependencies) direct =
     (case as_str (jindex dependency ''name'') of
        None \<Rightarrow> Inl LockGraph
      | Some name \<Rightarrow>
          if starts_with name ''radroots_'' then
            if \<not> pinned_dependency l dependency then Inl LockGraph
            else count_direct l dependencies (direct + 1)
          else count_direct l dependencies direct)"

definition shared_name :: "string \<Rightarrow> bool" where
  "shared_name name \<longleftrightarrow> name = ''radroots'' \<or> starts_with name ''radroots_''"

definition resolved_package :: "source_lock \<Rightarrow> json \<Rightarrow> bool" where
  "resolved_package l package \<longleftrightarrow>
     \<not> (jindex package ''source'' \<noteq> JStr (resolved_source l) \<or> jindex package ''version'' \<noteq> JStr (sl_version l))"

fun count_shared :: "source_lock \<Rightarrow> json list \<Rightarrow> nat \<Rightarrow> lock_error + nat" where
  "count_shared l [] n = Inr n"
| "count_shared l (package # packages) n =
     (case as_str (jindex package ''name'') of
        None \<Rightarrow> Inl LockGraph
      | Some name \<Rightarrow>
          if shared_name name then
            if \<not> resolved_package l package then Inl LockGraph else count_shared l packages (n + 1)
          else count_shared l packages n)"

definition check_graph :: "source_lock \<Rightarrow> json \<Rightarrow> lock_error + unit" where
  "check_graph l metadata =
     and_then (ok_or LockGraph (as_array (jindex metadata ''packages''))) (\<lambda>packages.
     and_then (ok_or LockGraph (find (\<lambda>package. jindex package ''name'' = JStr ''radrootsd'') packages)) (\<lambda>daemon.
     and_then (ok_or LockGraph (as_array (jindex daemon ''dependencies''))) (\<lambda>dependencies.
     and_then (count_direct l dependencies 0) (\<lambda>direct.
     and_then (count_shared l packages 0) (\<lambda>n.
       if direct = 0 \<or> n = 0 then Inl LockGraph else Inr ())))))"

definition render :: "build_crates \<Rightarrow> string \<Rightarrow> string \<Rightarrow> json \<Rightarrow> lock_error + string" where
  "render C source cargo_lock metadata =
     and_then (read_lock C source) (\<lambda>l.
       if \<not> lock_valid l then Inl LockInput
       else and_then (check_graph l metadata) (\<lambda>_.
         map_err (\<lambda>_. LockInput) (bc_lock_text C (l\<lparr>sl_lockfile_sha256 := digest C cargo_lock\<rparr>))))"

section \<open>Reading files\<close>

text \<open>What is at a path: nothing, a file with its bytes and mode, a directory, or a link with the file it leads to.\<close>

datatype node = Absent | Regular string nat | Directory nat | Link "(string \<times> nat) option"

fun read_node :: "node \<Rightarrow> unit + string" where
  "read_node (Regular bytes m) = Inr bytes"
| "read_node (Link (Some (bytes, m))) = Inr bytes"
| "read_node n = Inl ()"

fun mode_of :: "node \<Rightarrow> unit + nat" where
  "mode_of (Regular bytes m) = Inr m"
| "mode_of (Directory m) = Inr m"
| "mode_of (Link (Some (bytes, m))) = Inr m"
| "mode_of n = Inl ()"

text \<open>The file is looked at before it is opened; \<open>opened\<close> is what is there then.\<close>

definition read_bounded :: "node \<Rightarrow> node \<Rightarrow> nat \<Rightarrow> lock_error + string" where
  "read_bounded seen opened limit =
     (case seen of
        Absent \<Rightarrow> Inl LockIo
      | Regular bytes m \<Rightarrow>
          if limit < length bytes then Inl LockInput
          else and_then (map_err (\<lambda>_. LockIo) (read_node opened)) (\<lambda>bytes.
            if limit < length bytes then Inl LockInput else Inr bytes)
      | _ \<Rightarrow> Inl LockInput)"

section \<open>The command\<close>

record checkout =
  co_lock :: node
  co_cargo_lock :: node

datatype lock_step = CreateTemporary | WriteTemporary | SyncTemporary | ReadPermissions | SetPermissions | Persist

text \<open>The run of the command: what cargo answers, which operations on files fail, and what others do to the
  checkout between its first and second reading, and between the second reading and the renaming.\<close>

record lock_world =
  lw_cargo :: "unit + bool \<times> string"
  lw_fails :: "lock_step \<Rightarrow> bool"
  lw_meanwhile :: "checkout \<Rightarrow> checkout"
  lw_late :: "checkout \<Rightarrow> checkout"

definition attempt_step :: "lock_world \<Rightarrow> lock_step \<Rightarrow> lock_error + unit" where
  "attempt_step W step = (if lw_fails W step then Inl LockIo else Inr ())"

definition read_checkout :: "checkout \<Rightarrow> lock_error + string \<times> string" where
  "read_checkout co =
     and_then (read_bounded (co_lock co) (co_lock co) (16 * 1024)) (\<lambda>source.
     and_then (read_bounded (co_cargo_lock co) (co_cargo_lock co) (32 * 1024 * 1024)) (\<lambda>cargo_lock.
       Inr (source, cargo_lock)))"

definition cargo_metadata :: "build_crates \<Rightarrow> lock_world \<Rightarrow> lock_error + json" where
  "cargo_metadata C W =
     and_then (map_err (\<lambda>_. LockIo) (lw_cargo W)) (\<lambda>(success, stdout).
       if \<not> success \<or> 16 * 1024 * 1024 < length stdout then Inl LockGraph
       else map_err (\<lambda>_. LockGraph) (bc_json C stdout))"

definition check_lock :: "build_crates \<Rightarrow> string \<Rightarrow> string \<Rightarrow> lock_error + string" where
  "check_lock C source cargo_lock =
     and_then (read_lock C source) (\<lambda>original.
       if sl_lockfile_sha256 original \<noteq> digest C cargo_lock then Inl LockStale else Inr ''source lock current'')"

definition reread :: "string \<Rightarrow> string \<Rightarrow> checkout \<Rightarrow> lock_error + unit" where
  "reread source cargo_lock co =
     and_then (read_bounded (co_lock co) (co_lock co) (16 * 1024)) (\<lambda>source'.
       if source' \<noteq> source then Inl LockStale
       else and_then (read_bounded (co_cargo_lock co) (co_cargo_lock co) (32 * 1024 * 1024)) (\<lambda>cargo_lock'.
         if cargo_lock' \<noteq> cargo_lock then Inl LockStale else Inr ()))"

definition persist_over :: "lock_world \<Rightarrow> node \<Rightarrow> lock_error + unit" where
  "persist_over W n = (case n of Directory m \<Rightarrow> Inl LockIo | _ \<Rightarrow> attempt_step W Persist)"

definition write_lock ::
  "lock_world \<Rightarrow> string \<Rightarrow> string \<Rightarrow> string \<Rightarrow> checkout \<Rightarrow> checkout \<times> (lock_error + string)" where
  "write_lock W source cargo_lock refreshed co =
     (case and_then (attempt_step W CreateTemporary) (\<lambda>_. and_then (attempt_step W WriteTemporary) (\<lambda>_.
           attempt_step W SyncTemporary)) of
        Inl e \<Rightarrow> (co, Inl e)
      | Inr _ \<Rightarrow>
          let co1 = lw_meanwhile W co in
          (case reread source cargo_lock co1 of
             Inl e \<Rightarrow> (co1, Inl e)
           | Inr _ \<Rightarrow>
               let co2 = lw_late W co1 in
               (case and_then (attempt_step W ReadPermissions) (\<lambda>_.
                     and_then (map_err (\<lambda>_. LockIo) (mode_of (co_lock co2))) (\<lambda>m.
                     and_then (attempt_step W SetPermissions) (\<lambda>_.
                     and_then (persist_over W (co_lock co2)) (\<lambda>_. Inr m)))) of
                  Inl e \<Rightarrow> (co2, Inl e)
                | Inr m \<Rightarrow> (co2\<lparr>co_lock := Regular refreshed m\<rparr>, Inr ''source lock refreshed''))))"

definition lock_run ::
  "build_crates \<Rightarrow> lock_world \<Rightarrow> string list \<Rightarrow> checkout \<Rightarrow> checkout \<times> (lock_error + string)" where
  "lock_run C W arguments co =
     (case arguments of
        [action] \<Rightarrow>
          if action \<notin> {''check'', ''refresh''} then (co, Inl LockInput)
          else (case and_then (read_checkout co) (\<lambda>(source, cargo_lock).
                  and_then (cargo_metadata C W) (\<lambda>metadata.
                  and_then (render C source cargo_lock metadata) (\<lambda>refreshed. Inr (source, cargo_lock, refreshed)))) of
                  Inl e \<Rightarrow> (co, Inl e)
                | Inr (source, cargo_lock, refreshed) \<Rightarrow>
                    if action = ''check'' then (co, check_lock C source cargo_lock)
                    else write_lock W source cargo_lock refreshed co)
      | _ \<Rightarrow> (co, Inl LockInput))"

section \<open>What a valid lock pins\<close>

definition named :: "(string \<Rightarrow> bool) \<Rightarrow> json \<Rightarrow> bool" where
  "named Q v \<longleftrightarrow> (\<exists>name. as_str (jindex v ''name'') = Some name \<and> Q name)"

lemma count_direct_ok:
  assumes "count_direct l ds n = Inr k"
  shows "\<forall>d \<in> set ds. \<exists>name. as_str (jindex d ''name'') = Some name \<and> (starts_with name ''radroots_'' \<longrightarrow> pinned_dependency l d)"
    and "k = n + length (filter (named (\<lambda>name. starts_with name ''radroots_'')) ds)"
proof -
  show "\<forall>d \<in> set ds. \<exists>name. as_str (jindex d ''name'') = Some name \<and> (starts_with name ''radroots_'' \<longrightarrow> pinned_dependency l d)"
    using assms by (induction ds arbitrary: n) (auto split: option.splits if_splits)
  show "k = n + length (filter (named (\<lambda>name. starts_with name ''radroots_'')) ds)"
    using assms by (induction ds arbitrary: n) (fastforce simp: named_def split: option.splits if_splits)+
qed

lemma count_shared_ok:
  assumes "count_shared l ps n = Inr k"
  shows "\<forall>p \<in> set ps. \<exists>name. as_str (jindex p ''name'') = Some name \<and> (shared_name name \<longrightarrow> resolved_package l p)"
    and "k = n + length (filter (named shared_name) ps)"
proof -
  show "\<forall>p \<in> set ps. \<exists>name. as_str (jindex p ''name'') = Some name \<and> (shared_name name \<longrightarrow> resolved_package l p)"
    using assms by (induction ps arbitrary: n) (auto split: option.splits if_splits)
  show "k = n + length (filter (named shared_name) ps)"
    using assms by (induction ps arbitrary: n) (fastforce simp: named_def split: option.splits if_splits)+
qed

lemma check_graphE:
  assumes "check_graph l metadata = Inr u"
  obtains packages daemon dependencies n k where "jindex metadata ''packages'' = JArr packages"
    "find (\<lambda>p. jindex p ''name'' = JStr ''radrootsd'') packages = Some daemon"
    "jindex daemon ''dependencies'' = JArr dependencies"
    "count_direct l dependencies 0 = Inr n" "count_shared l packages 0 = Inr k" "0 < n" "0 < k"
proof -
  have array: "as_array v = Some xs \<longleftrightarrow> v = JArr xs" for v xs by (cases v) auto
  show thesis using assms that by (auto simp: check_graph_def and_then_eq_Inr ok_or_eq_Inr array split: if_splits)
qed

text \<open>What is asked of the crates: TOML reads back what it wrote, which is UTF-8, and SHA-256 has 32 bytes.\<close>

definition build_crates_ok :: "build_crates \<Rightarrow> bool" where
  "build_crates_ok C \<longleftrightarrow> (\<forall>b. length (bc_sha256 C b) = 32) \<and>
     (\<forall>l t. bc_lock_text C l = Inr t \<longrightarrow> bc_lock C t = Inr l \<and> utf8_ok (map of_char t))"

lemma digest_hex: "build_crates_ok C \<Longrightarrow> lower_hex_of 64 (digest C b)"
  by (simp add: build_crates_ok_def lower_hex_of_def digest_def length_hex_encode hex_encode_lower)

lemma renderE:
  assumes "render C source cargo_lock metadata = Inr t"
  obtains l where "read_lock C source = Inr l" "lock_valid l" "check_graph l metadata = Inr ()"
    "bc_lock_text C (l\<lparr>sl_lockfile_sha256 := digest C cargo_lock\<rparr>) = Inr t"
proof -
  have me: "map_err f r = Inr y \<longleftrightarrow> r = Inr y" for f :: "unit \<Rightarrow> lock_error" and r and y :: string by (cases r) simp_all
  show thesis using assms that by (auto simp: render_def and_then_eq_Inr me split: if_splits)
qed

lemma graph_update [simp]: "check_graph (l\<lparr>sl_lockfile_sha256 := h\<rparr>) metadata = check_graph l metadata"
proof -
  have d: "count_direct (l\<lparr>sl_lockfile_sha256 := h\<rparr>) ds n = count_direct l ds n" for ds n
    by (induction ds arbitrary: n) (auto simp: pinned_dependency_def git_source_def split: option.split)
  have s: "count_shared (l\<lparr>sl_lockfile_sha256 := h\<rparr>) ps n = count_shared l ps n" for ps n
    by (induction ps arbitrary: n) (auto simp: resolved_package_def resolved_source_def git_source_def split: option.split)
  show ?thesis by (simp add: check_graph_def d s)
qed

lemma render_again:
  assumes "render C source cargo_lock metadata = Inr t" and "build_crates_ok C"
  shows "read_lock C t = map_ok (\<lambda>l. l\<lparr>sl_lockfile_sha256 := digest C cargo_lock\<rparr>) (read_lock C source)"
    and "render C t cargo_lock metadata = Inr t" and "check_lock C t cargo_lock = Inr ''source lock current''"
proof -
  obtain l where l: "read_lock C source = Inr l" "lock_valid l" "check_graph l metadata = Inr ()"
      "bc_lock_text C (l\<lparr>sl_lockfile_sha256 := digest C cargo_lock\<rparr>) = Inr t"
    by (rule renderE [OF assms(1)])
  let ?l = "l\<lparr>sl_lockfile_sha256 := digest C cargo_lock\<rparr>"
  have read: "read_lock C t = Inr ?l"
    using l(4) assms(2) by (simp add: build_crates_ok_def read_lock_def from_utf8_def)
  moreover have "lock_valid ?l" using l(2) digest_hex [OF assms(2)] by (simp add: lock_valid_def)
  ultimately show "render C t cargo_lock metadata = Inr t"
    using l(3,4) by (simp add: render_def)
  show "read_lock C t = map_ok (\<lambda>l. l\<lparr>sl_lockfile_sha256 := digest C cargo_lock\<rparr>) (read_lock C source)"
    by (simp add: read l(1))
  show "check_lock C t cargo_lock = Inr ''source lock current''" by (simp add: check_lock_def read)
qed

lemma read_boundedE:
  assumes "read_bounded n n limit = Inr bytes"
  obtains m where "n = Regular bytes m" "length bytes \<le> limit"
  using assms that by (auto simp: read_bounded_def and_then_eq_Inr split: node.splits if_splits)

lemma reread_ok: "reread source cargo_lock co = Inr u \<longleftrightarrow> read_checkout co = Inr (source, cargo_lock)"
  by (auto simp: reread_def read_checkout_def and_then_eq_Inr split: if_splits)

lemma refreshedE:
  assumes "lock_run C W [''refresh''] co = (co', Inr out)"
  obtains source cargo_lock metadata refreshed m where "read_checkout co = Inr (source, cargo_lock)"
    "cargo_metadata C W = Inr metadata" "render C source cargo_lock metadata = Inr refreshed"
    "read_checkout (lw_meanwhile W co) = Inr (source, cargo_lock)"
    "mode_of (co_lock (lw_late W (lw_meanwhile W co))) = Inr m" "\<And>step. lw_fails W step \<Longrightarrow> False"
    "co' = (lw_late W (lw_meanwhile W co))\<lparr>co_lock := Regular refreshed m\<rparr>" "out = ''source lock refreshed''"
proof -
  have me: "map_err f r = Inr y \<longleftrightarrow> r = Inr y" for f :: "unit \<Rightarrow> lock_error" and r and y :: nat by (cases r) simp_all
  obtain source cargo_lock metadata refreshed where run: "read_checkout co = Inr (source, cargo_lock)"
      "cargo_metadata C W = Inr metadata" "render C source cargo_lock metadata = Inr refreshed"
    and w: "write_lock W source cargo_lock refreshed co = (co', Inr out)"
    using assms by (auto simp: lock_run_def and_then_eq_Inr split: sum.splits)
  have steps: "\<not> lw_fails W CreateTemporary" "\<not> lw_fails W WriteTemporary" "\<not> lw_fails W SyncTemporary"
    using w by (auto simp: write_lock_def attempt_step_def split: if_splits)
  obtain m where re: "reread source cargo_lock (lw_meanwhile W co) = Inr ()"
    and m: "mode_of (co_lock (lw_late W (lw_meanwhile W co))) = Inr m"
    and rest: "\<not> lw_fails W ReadPermissions" "\<not> lw_fails W SetPermissions" "persist_over W (co_lock (lw_late W (lw_meanwhile W co))) = Inr ()"
    and out: "co' = (lw_late W (lw_meanwhile W co))\<lparr>co_lock := Regular refreshed m\<rparr>" "out = ''source lock refreshed''"
    using w steps by (auto simp: write_lock_def attempt_step_def Let_def and_then_eq_Inr me split: sum.splits if_splits)
  have "\<not> lw_fails W Persist" using rest(3) by (auto simp: persist_over_def attempt_step_def split: node.splits if_splits)
  then have all: "lw_fails W step \<Longrightarrow> False" for step using steps rest by (cases step) auto
  show thesis by (rule that [OF run re [unfolded reread_ok] m all out])
qed

text \<open>C15. Refreshing the lock makes it current: after a refresh that nobody interfered with, the check
  succeeds, a further refresh changes nothing, and of the lock nothing but the digest of \<open>Cargo.lock\<close> has
  changed, which is that of the \<open>Cargo.lock\<close> beside it.\<close>

theorem refreshed_lock_current:
  assumes "lock_run C W [''refresh''] co = (co', Inr out)" and "build_crates_ok C"
    and "\<And>c. lw_meanwhile W c = c" and "\<And>c. lw_late W c = c"
    and "\<And>bytes m. co_lock co' = Regular bytes m \<Longrightarrow> length bytes \<le> 16 * 1024"
  shows "lock_run C W [''check''] co' = (co', Inr ''source lock current'') \<and>
    lock_run C W [''refresh''] co' = (co', Inr ''source lock refreshed'') \<and> co_cargo_lock co' = co_cargo_lock co \<and>
    (\<exists>source cargo_lock refreshed l m. co_lock co = Regular source m \<and> read_lock C source = Inr l \<and>
      co_lock co' = Regular refreshed m \<and> read_node (co_cargo_lock co) = Inr cargo_lock \<and>
      read_lock C refreshed = Inr (l\<lparr>sl_lockfile_sha256 := digest C cargo_lock\<rparr>))"
proof -
  obtain source cargo_lock metadata refreshed m where run: "read_checkout co = Inr (source, cargo_lock)"
    "cargo_metadata C W = Inr metadata" "render C source cargo_lock metadata = Inr refreshed"
    and m: "mode_of (co_lock co) = Inr m" and ok: "\<And>step. lw_fails W step \<Longrightarrow> False"
    and co': "co' = co\<lparr>co_lock := Regular refreshed m\<rparr>"
    using refreshedE [OF assms(1)] unfolding assms(3,4) by metis
  obtain k where lock: "co_lock co = Regular source k" and cargo: "read_bounded (co_cargo_lock co) (co_cargo_lock co) (32 * 1024 * 1024) = Inr cargo_lock"
    using run(1) by (auto simp: read_checkout_def and_then_eq_Inr elim: read_boundedE)
  have k: "k = m" using m lock by simp
  note again = render_again [OF run(3) assms(2)]
  have size: "length refreshed \<le> 16 * 1024" using assms(5) by (simp add: co')
  then have read': "read_checkout co' = Inr (refreshed, cargo_lock)"
    using cargo by (simp add: read_checkout_def read_bounded_def co')
  have steps: "attempt_step W step = Inr ()" for step using ok by (auto simp: attempt_step_def)
  have "reread refreshed cargo_lock co' = Inr ()" using read' by (simp add: reread_ok)
  then have written: "write_lock W refreshed cargo_lock refreshed co' = (co', Inr ''source lock refreshed'')"
    by (simp add: write_lock_def Let_def steps assms(3,4) persist_over_def co')
  obtain l where l: "read_lock C source = Inr l" by (rule renderE [OF run(3)])
  have "read_node (co_cargo_lock co) = Inr cargo_lock" using cargo by (auto elim: read_boundedE)
  then show ?thesis
    using read' run(2) again l lock k written by (simp add: lock_run_def co')
qed

definition sample_lock :: "char \<Rightarrow> source_lock" where
  "sample_lock c =
     \<lparr>sl_schema = ''radroots.lib.source-lock.v1'', sl_repository = ''https://github.com/radrootslabs/lib'',
      sl_revision = replicate 40 CHR ''e'', sl_architecture = ''radroots.crates.release.v2'',
      sl_workspace_catalog_sha256 = replicate 64 CHR ''a'', sl_version = ''0.1.0-alpha'',
      sl_source_archive_sha256 = replicate 64 CHR ''b'', sl_lockfile = ''Cargo.lock'',
      sl_lockfile_sha256 = replicate 64 c\<rparr>"

definition sample_graph :: json where
  "sample_graph = JObj [(''packages'', JArr [
     JObj [(''dependencies'', JArr [JObj [(''name'', JStr ''radroots_protocol''), (''rename'', JNull), (''req'', JStr ''=0.1.0-alpha''),
         (''source'', JStr (git_source (sample_lock CHR ''0'')))]]), (''name'', JStr ''radrootsd'')],
     JObj [(''name'', JStr ''radroots_protocol''), (''source'', JStr (resolved_source (sample_lock CHR ''0''))),
       (''version'', JStr ''0.1.0-alpha'')]])]"

definition sample_build :: build_crates where
  "sample_build =
     \<lparr>bc_sha256 = (\<lambda>b. replicate 32 (if b = ''deps'' then CHR 0x11 else CHR 0x22)), bc_json = (\<lambda>_. Inr sample_graph),
      bc_json_text = (\<lambda>_. Inr ''{}''),
      bc_lock = (\<lambda>t. if t = ''old'' then Inr (sample_lock CHR ''0'') else if t = ''new'' then Inr (sample_lock CHR ''1'') else Inl ()),
      bc_lock_text = (\<lambda>l. if l = sample_lock CHR ''1'' then Inr ''new'' else Inl ())\<rparr>"

definition sample_world :: lock_world where
  "sample_world = \<lparr>lw_cargo = Inr (True, ''{}''), lw_fails = \<lambda>_. False, lw_meanwhile = (\<lambda>c. c), lw_late = (\<lambda>c. c)\<rparr>"

definition sample_checkout :: "string \<Rightarrow> checkout" where
  "sample_checkout t = \<lparr>co_lock = Regular t 420, co_cargo_lock = Regular ''deps'' 420\<rparr>"

lemma sample_build_ok: "build_crates_ok sample_build"
  by (simp add: build_crates_ok_def sample_build_def)

lemma sample_digest: "digest sample_build ''deps'' = replicate 64 CHR ''1''"
  by (simp add: digest_def sample_build_def) code_simp

lemma sample_lock_hash: "(sample_lock c)\<lparr>sl_lockfile_sha256 := replicate 64 d\<rparr> = sample_lock d"
  by (simp add: sample_lock_def)

lemma sample_render: "render sample_build ''old'' ''deps'' sample_graph = Inr ''new''"
proof -
  have read: "read_lock sample_build ''old'' = Inr (sample_lock CHR ''0'')"
    by (simp add: read_lock_def from_utf8_def sample_build_def)
  have "lock_valid (sample_lock CHR ''0'')" by code_simp
  moreover have "check_graph (sample_lock CHR ''0'') sample_graph = Inr ()" by code_simp
  moreover have "bc_lock_text sample_build (sample_lock CHR ''1'') = Inr ''new''" by (simp add: sample_build_def)
  ultimately show ?thesis by (simp add: render_def read sample_digest sample_lock_hash)
qed

lemma sample_refresh:
  "lock_run sample_build sample_world [''refresh''] (sample_checkout ''old'') =
     (sample_checkout ''new'', Inr ''source lock refreshed'')"
proof -
  have "cargo_metadata sample_build sample_world = Inr sample_graph"
    by (simp add: cargo_metadata_def sample_world_def sample_build_def)
  moreover have read: "read_checkout (sample_checkout ''old'') = Inr (''old'', ''deps'')"
    by (simp add: read_checkout_def read_bounded_def sample_checkout_def)
  moreover have "reread ''old'' ''deps'' (sample_checkout ''old'') = Inr ()" using read by (simp add: reread_ok)
  ultimately show ?thesis
    by (simp add: lock_run_def sample_render write_lock_def Let_def)
      (simp add: attempt_step_def persist_over_def sample_world_def sample_checkout_def)
qed

theorem refreshed_lock_current_witness:
  "lock_run sample_build sample_world [''check''] (sample_checkout ''new'') =
     (sample_checkout ''new'', Inr ''source lock current'')"
proof -
  have "lw_meanwhile sample_world c = c" "lw_late sample_world c = c" for c by (simp_all add: sample_world_def)
  from refreshed_lock_current [OF sample_refresh sample_build_ok this]
  show ?thesis by (simp add: sample_checkout_def)
qed

text \<open>A refresh loses no change that others make while it waits for cargo: when either file is another than the one
  the refresh was computed from by the time it is about to write, it fails, and leaves both files as the others
  left them.\<close>

theorem changed_checkout_not_overwritten:
  assumes "lock_run C W arguments co = (co', r)"
    and "read_checkout co \<noteq> read_checkout (lw_meanwhile W co)"
  shows "co' \<in> {co, lw_meanwhile W co} \<and> (arguments \<noteq> [''check''] \<longrightarrow> (\<exists>e. r = Inl e))"
proof -
  have writes: "c \<in> {co, lw_meanwhile W co} \<and> (\<exists>e. out = Inl e)"
    if "write_lock W source cargo_lock refreshed co = (c, out)" and "read_checkout co = Inr (source, cargo_lock)"
    for source cargo_lock refreshed c out
  proof -
    have "reread source cargo_lock (lw_meanwhile W co) \<noteq> Inr u" for u
      using assms(2) that(2) by (simp add: reread_ok)
    then show ?thesis
      using that(1) by (auto simp: write_lock_def Let_def split: sum.splits)
  qed
  show ?thesis
    using assms(1) by (auto simp: lock_run_def and_then_eq_Inr split: list.splits if_splits sum.splits dest!: writes)
qed

theorem changed_checkout_not_overwritten_witness:
  "\<exists>e. lock_run sample_build (sample_world\<lparr>lw_meanwhile := (\<lambda>c. c\<lparr>co_cargo_lock := Regular ''other'' 420\<rparr>)\<rparr>) [''refresh'']
      (sample_checkout ''old'') = (sample_checkout ''old'', Inl e) \<or>
    lock_run sample_build (sample_world\<lparr>lw_meanwhile := (\<lambda>c. c\<lparr>co_cargo_lock := Regular ''other'' 420\<rparr>)\<rparr>) [''refresh'']
      (sample_checkout ''old'') = ((sample_checkout ''old'')\<lparr>co_cargo_lock := Regular ''other'' 420\<rparr>, Inl e)"
proof -
  let ?W = "sample_world\<lparr>lw_meanwhile := (\<lambda>c. c\<lparr>co_cargo_lock := Regular ''other'' 420\<rparr>)\<rparr>"
  obtain c r where run: "lock_run sample_build ?W [''refresh''] (sample_checkout ''old'') = (c, r)" by fastforce
  have "read_checkout (sample_checkout ''old'') \<noteq> read_checkout (lw_meanwhile ?W (sample_checkout ''old''))"
    by (simp add: read_checkout_def read_bounded_def sample_checkout_def)
  from changed_checkout_not_overwritten [OF run this] run show ?thesis by auto
qed

text \<open>A lock that the check accepts pins what is built: it is well-formed, it has the digest of the \<open>Cargo.lock\<close> that
  is there, the daemon depends on shared packages, each of them at exactly the pinned revision and version
  and under its own name, and each shared package of the graph was resolved to that revision.\<close>

theorem current_lock_pins:
  assumes "lock_run C W [''check''] co = (co', Inr out)"
  shows "\<exists>source m cargo_lock l metadata packages daemon dependencies.
    co_lock co = Regular source m \<and> read_node (co_cargo_lock co) = Inr cargo_lock \<and> cargo_metadata C W = Inr metadata \<and>
    read_lock C source = Inr l \<and> lock_valid l \<and> sl_lockfile_sha256 l = digest C cargo_lock \<and>
    jindex metadata ''packages'' = JArr packages \<and> daemon \<in> set packages \<and> jindex daemon ''name'' = JStr ''radrootsd'' \<and>
    jindex daemon ''dependencies'' = JArr dependencies \<and>
    (\<exists>d \<in> set dependencies. named (\<lambda>name. starts_with name ''radroots_'') d) \<and>
    (\<forall>d \<in> set dependencies. named (\<lambda>name. starts_with name ''radroots_'') d \<longrightarrow> pinned_dependency l d) \<and>
    (\<forall>p \<in> set packages. named shared_name p \<longrightarrow> resolved_package l p)"
proof -
  obtain source cargo_lock metadata refreshed where run: "read_checkout co = Inr (source, cargo_lock)"
      "cargo_metadata C W = Inr metadata" "render C source cargo_lock metadata = Inr refreshed"
    and checked: "check_lock C source cargo_lock = Inr out"
    using assms by (auto simp: lock_run_def and_then_eq_Inr split: sum.splits)
  obtain m where files: "co_lock co = Regular source m" "read_node (co_cargo_lock co) = Inr cargo_lock"
    using run(1) by (auto simp: read_checkout_def and_then_eq_Inr elim!: read_boundedE)
  obtain l where l: "read_lock C source = Inr l" "lock_valid l" "check_graph l metadata = Inr ()" by (rule renderE [OF run(3)])
  obtain packages daemon dependencies n k where g: "jindex metadata ''packages'' = JArr packages"
    "find (\<lambda>p. jindex p ''name'' = JStr ''radrootsd'') packages = Some daemon"
    "jindex daemon ''dependencies'' = JArr dependencies"
    "count_direct l dependencies 0 = Inr n" "count_shared l packages 0 = Inr k" "0 < n" "0 < k"
    by (rule check_graphE [OF l(3)])
  have daemon: "daemon \<in> set packages" "jindex daemon ''name'' = JStr ''radrootsd''" using g(2) by (auto simp: find_Some_iff)
  have "filter (named (\<lambda>name. starts_with name ''radroots_'')) dependencies \<noteq> []"
    using count_direct_ok(2) [OF g(4)] g(6) by auto
  then have "\<exists>d \<in> set dependencies. named (\<lambda>name. starts_with name ''radroots_'') d" by (simp add: filter_empty_conv)
  moreover have "\<forall>d \<in> set dependencies. named (\<lambda>name. starts_with name ''radroots_'') d \<longrightarrow> pinned_dependency l d"
    using count_direct_ok(1) [OF g(4)] by (fastforce simp: named_def)
  moreover have "\<forall>p \<in> set packages. named shared_name p \<longrightarrow> resolved_package l p"
    using count_shared_ok(1) [OF g(5)] by (fastforce simp: named_def)
  moreover have "sl_lockfile_sha256 l = digest C cargo_lock"
    using checked l(1) by (auto simp: check_lock_def split: if_splits)
  ultimately show ?thesis using files run(2) l g(1,3) daemon by blast
qed

theorem current_lock_pins_witness:
  "\<exists>l metadata packages. read_lock sample_build ''new'' = Inr l \<and> lock_valid l \<and> cargo_metadata sample_build sample_world = Inr metadata \<and>
    jindex metadata ''packages'' = JArr packages \<and> (\<forall>p \<in> set packages. named shared_name p \<longrightarrow> resolved_package l p)"
proof -
  have "lock_run sample_build sample_world [''check''] (sample_checkout ''new'') =
     (sample_checkout ''new'', Inr ''source lock current'')"
    using render_again [OF sample_render sample_build_ok]
    by (simp add: lock_run_def read_checkout_def read_bounded_def sample_checkout_def cargo_metadata_def sample_world_def)
      (simp add: sample_build_def)
  from current_lock_pins [OF this] show ?thesis by (auto simp: sample_checkout_def)
qed

end
