(* ===== verification/Build_Gate.thy ===== *)
theory Build_Gate
  imports Build_Source_Lock
begin

text \<open>
  The gate of step 303 and its platform probe (\<open>tools/xtask/src/rshr_202_step_303_gate.rs\<close>,
  \<open>rshr_202_step_303_platform.rs\<close>) and the command line of the build tool (\<open>main.rs\<close>).  The machine the gate runs
  on is a record of what its files, its environment and the programs it starts answer.
\<close>

section \<open>The machine\<close>

record gate_command =
  cm_program :: string
  cm_args :: "string list"
  cm_dir :: string
  cm_env :: "(string \<times> string) list"

record command_output =
  ou_success :: bool
  ou_stdout :: string
  ou_stderr :: string

record gate_host =
  gh_root :: string
  gh_exists :: "string \<Rightarrow> bool"
  gh_is_file :: "string \<Rightarrow> bool"
  gh_read :: "string \<Rightarrow> unit + string"
  gh_canonicalize :: "string \<Rightarrow> unit + string"
  gh_env :: "string \<Rightarrow> string option"
  gh_output :: "gate_command \<Rightarrow> unit + command_output"
  gh_write_stdout :: "string \<Rightarrow> unit + unit"
  gh_arch :: string
  gh_crates :: build_crates

definition join_path :: "string \<Rightarrow> string \<Rightarrow> string" where
  "join_path d p = (if d = [] then p else if last d = CHR ''/'' then d @ p else d @ ''/'' @ p)"

definition rooted :: "gate_host \<Rightarrow> string \<Rightarrow> string" where
  "rooted H p = join_path (gh_root H) p"

abbreviation sha256 :: "gate_host \<Rightarrow> string \<Rightarrow> string" where
  "sha256 H \<equiv> digest (gh_crates H)"

definition canonical :: "gate_host \<Rightarrow> json \<Rightarrow> string + string" where
  "canonical H v = map_err (\<lambda>_. ''Step 303 JSON encoding failed'') (bc_json_text (gh_crates H) v)"

definition ensure :: "bool \<Rightarrow> string \<Rightarrow> string + unit" where
  "ensure ok error = (if ok then Inr () else Inl error)"

section \<open>Constants\<close>

definition gate_digest :: string where
  "gate_digest = ''79dc2cfbe14c07aeefba9779d61823291c7101d93fece3935909fc13f02261d0''"

definition lib_revision :: string where
  "lib_revision = ''055096853fca95e15d0f813d33a14aca13be3881''"

definition nix_sha256 :: string where
  "nix_sha256 = ''a59ab70f97f6d571642d13c7506aafec0a4275520d53daee2d8451be7c495cd1''"

definition nix_version_sha256 :: string where
  "nix_version_sha256 = ''6db806391ffaea4cdb08ade0031feac399c0cd08474b3bfde8cb33f88a36c8e1''"

definition max_output_bytes :: nat where
  "max_output_bytes = 32 * 1024 * 1024"

definition exact_sources :: "(string \<times> string) list" where
  "exact_sources =
     [(''Cargo.lock'', ''b9278c33ad53b93e02b68017e5f8b62616feac9c6779747f1d446fe69c642052''),
      (''Cargo.toml'', ''a29ad1fa4fd60ac96b0b52698f3cd9fadb1324a890aa4f8fd1bc9a86935a8e8f''),
      (''flake.lock'', ''5d5b11622c341292f429a5f93e55f38a3506431b139720ff62f983b35bf7d55f''),
      (''flake.nix'', ''96d777e49c572087c4411b27e47f1b15e32983317cb24b9f9058485b4d090bab'')]"

section \<open>Commands\<close>

definition execute :: "gate_host \<Rightarrow> string \<Rightarrow> string list \<Rightarrow> string \<Rightarrow> string + command_output" where
  "execute H program args label =
     and_then (map_err (\<lambda>_. label @ '' could not start'')
       (gh_output H \<lparr>cm_program = program, cm_args = args, cm_dir = gh_root H,
          cm_env = [(''CARGO_NET_OFFLINE'', ''true''), (''CARGO_TERM_COLOR'', ''never'')]\<rparr>)) (\<lambda>out.
       if max_output_bytes < length (ou_stdout out) \<or> max_output_bytes < length (ou_stderr out)
       then Inl (label @ '' exceeded its output bound'') else Inr out)"

definition bounded :: "gate_host \<Rightarrow> string \<Rightarrow> string list \<Rightarrow> string \<Rightarrow> string + command_output" where
  "bounded H program args label =
     and_then (execute H program args label) (\<lambda>out.
       if \<not> ou_success out then Inl (label @ '' failed'') else Inr out)"

definition rejected :: "gate_host \<Rightarrow> string \<Rightarrow> string list \<Rightarrow> string \<Rightarrow> string + unit" where
  "rejected H program args label =
     and_then (execute H program args label) (\<lambda>out.
       if ou_success out then Inl (label @ '' unexpectedly succeeded'') else Inr ())"

definition resolve_nix :: "gate_host \<Rightarrow> string + string" where
  "resolve_nix H =
     (case gh_env H ''RSHR_NIX_EXECUTABLE'' of
        Some explicit \<Rightarrow> map_err (\<lambda>_. ''Step 303 Nix client is unavailable'') (gh_canonicalize H explicit)
      | None \<Rightarrow>
          and_then (ok_or ''Step 303 PATH is absent'' (gh_env H ''PATH'')) (\<lambda>path.
          and_then (ok_or ''Step 303 Nix client is unavailable''
              (find (gh_is_file H) (map (\<lambda>d. join_path d ''nix'') (split_on CHR '':'' path)))) (\<lambda>candidate.
            map_err (\<lambda>_. ''Step 303 Nix client is unavailable'') (gh_canonicalize H candidate))))"

section \<open>Inspecting JSON\<close>

fun object_keys :: "json \<Rightarrow> string \<Rightarrow> string + string list" where
  "object_keys (JObj members) label = Inr (sort (map fst members))"
| "object_keys v label = Inl (''Step 303 '' @ label @ '' is not an object'')"

definition keys_are :: "json \<Rightarrow> string \<Rightarrow> string list \<Rightarrow> string \<Rightarrow> string + unit" where
  "keys_are v label keys error = and_then (object_keys v label) (\<lambda>found. ensure (found = keys) error)"

definition array_index :: "string \<Rightarrow> nat option" where
  "array_index token =
     (if token = [] \<or> \<not> list_all is_ascii_digit token \<or> (hd token = CHR ''0'' \<and> length token \<noteq> 1) then None
      else Some (read_nat token))"

fun pointer :: "string list \<Rightarrow> json \<Rightarrow> json option" where
  "pointer [] v = Some v"
| "pointer (token # tokens) (JObj members) =
     (case map_of members token of None \<Rightarrow> None | Some v \<Rightarrow> pointer tokens v)"
| "pointer (token # tokens) (JArr vs) =
     (case array_index token of None \<Rightarrow> None | Some i \<Rightarrow> if i < length vs then pointer tokens (vs ! i) else None)"
| "pointer (token # tokens) v = None"

definition require_lock :: "gate_host \<Rightarrow> string + unit" where
  "require_lock H =
     and_then (map_err (\<lambda>_. ''Step 303 flake lock is unreadable'') (gh_read H (rooted H ''flake.lock''))) (\<lambda>bytes.
     and_then (map_err (\<lambda>_. ''Step 303 flake lock is invalid'') (bc_json (gh_crates H) bytes)) (\<lambda>lock.
       if pointer [''nodes'', ''root'', ''inputs'', ''lib''] lock \<noteq> Some (JStr ''lib'') \<or>
          pointer [''nodes'', ''lib'', ''locked'', ''rev''] lock \<noteq> Some (JStr lib_revision) \<or>
          pointer [''nodes'', ''lib'', ''original'', ''rev''] lock \<noteq> Some (JStr lib_revision)
       then Inl ''Step 303 exact Nix tooling input differs'' else Inr ()))"

section \<open>The outputs of the flake\<close>

text \<open>A loop whose body may return an error.\<close>

fun for_each :: "('a \<Rightarrow> string + unit) \<Rightarrow> 'a list \<Rightarrow> string + unit" where
  "for_each body [] = Inr ()"
| "for_each body (x # xs) = and_then (body x) (\<lambda>_. for_each body xs)"

definition output_systems :: "string list" where
  "output_systems = [''aarch64-darwin'', ''x86_64-linux'']"

definition require_system :: "json \<Rightarrow> string \<Rightarrow> string + unit" where
  "require_system inventory system =
     (let error = ''Step 303 radrootsd output inventory differs'';
          at = (\<lambda>family. jindex (jindex inventory family) system) in
      and_then (keys_are (at ''apps'') ''apps'' [''default''] error) (\<lambda>_.
      and_then (keys_are (at ''checks'') ''checks'' [''default''] error) (\<lambda>_.
      and_then (keys_are (at ''packages'') ''packages'' [''default''] error) (\<lambda>_.
        ensure (jindex (jindex (at ''apps'') ''default'') ''description'' = JStr ''Run the built radrootsd daemon'' \<and>
          jindex (jindex (at ''checks'') ''default'') ''name'' = JStr ''radrootsd-check-1'' \<and>
          jindex (jindex (at ''packages'') ''default'') ''name'' = JStr ''radrootsd-0.1.0'') error))))"

definition require_outputs :: "gate_host \<Rightarrow> string \<Rightarrow> string + unit" where
  "require_outputs H nix =
     and_then (bounded H nix [''--offline'', ''flake'', ''show'', ''--json'', ''--all-systems'', ''--no-write-lock-file'']
       ''Step 303 Nix output inventory'') (\<lambda>shown.
     and_then (map_err (\<lambda>_. ''Step 303 Nix output inventory is invalid'') (bc_json (gh_crates H) (ou_stdout shown))) (\<lambda>inventory.
     and_then (keys_are inventory ''root output inventory'' [''apps'', ''checks'', ''packages'']
       ''Step 303 root output inventory differs'') (\<lambda>_.
     and_then (for_each (\<lambda>family. keys_are (jindex inventory family) family output_systems
         (''Step 303 '' @ family @ '' systems differ'')) [''apps'', ''checks'', ''packages'']) (\<lambda>_.
     and_then (for_each (require_system inventory) output_systems) (\<lambda>_.
     and_then (for_each (\<lambda>system. rejected H nix [''--offline'', ''eval'', ''--raw'', ''.#packages.'' @ system @ ''.default.name'']
         ''Step 303 excluded-system evaluation'') [''x86_64-darwin'', ''aarch64-linux'', ''x86_64-windows'']) (\<lambda>_.
       for_each (\<lambda>attribute. rejected H nix [''--offline'', ''eval'', ''--raw'', attribute] ''Step 303 unowned output evaluation'')
         [''.#devShells.aarch64-darwin.default.name'', ''.#nixosModules.default'', ''.#packages.x86_64-linux.oci.name'']))))))"

definition require_nix :: "gate_host \<Rightarrow> string + unit" where
  "require_nix H =
     and_then (resolve_nix H) (\<lambda>executable.
     and_then (map_err (\<lambda>_. ''Step 303 Nix client is unreadable'') (gh_read H executable)) (\<lambda>client.
     and_then (ensure (sha256 H client = nix_sha256) ''Step 303 Nix client identity differs'') (\<lambda>_.
     and_then (bounded H executable [''--version''] ''Step 303 Nix version'') (\<lambda>version.
     and_then (ensure (sha256 H (ou_stdout version) = nix_version_sha256) ''Step 303 Nix version differs'') (\<lambda>_.
     and_then (bounded H executable [''--offline'', ''flake'', ''check'', ''--all-systems'', ''--no-build'', ''--no-write-lock-file'']
       ''Step 303 Nix evaluation'') (\<lambda>_.
       require_outputs H executable))))))"

section \<open>The contract\<close>

text \<open>The members of an object are kept in the order of their keys.\<close>

definition jobject :: "(string \<times> json) list \<Rightarrow> json" where
  "jobject members = JObj (sort_key fst members)"

definition expected_contract :: "string \<Rightarrow> json" where
  "expected_contract verifier_sha256 = jobject
     [(''argv_template'', JArr (map JStr
         [''cargo'', ''extbuild'', ''run'', ''--'', ''cargo'', ''run'', ''--offline'', ''--locked'',
          ''-q'', ''-p'', ''radrootsd_xtask'', ''--'', ''rshr-step-303-gate'', ''--step={step}'',
          ''--check-id={check_id}'', ''--source-revision={source_revision}'',
          ''--source-tree={source_tree}'', ''--candidate-digest={candidate_digest}'',
          ''--platform=macos_aarch64'',
          ''--execution-request-sha256={execution_request_sha256}''])),
      (''assertion_id'', JArr [JStr (''step_303_gate_01_'' @ gate_digest)]),
      (''check_id'', JStr (''gate-01-'' @ gate_digest)),
      (''environment_authority'', jobject
         [(''cache_policy_id'', JStr ''rshr-200-step-287-cache-policy.v1''),
          (''cache_policy_sha256'', JStr ''3e81d178bce97b6c349dfbb00c68fd6f620ac00b1a1c8d37b12e9998f3c9eaaa''),
          (''cadence_policy_id'', JStr ''rshr-200-step-287-cadence-policy.v1''),
          (''cadence_policy_sha256'', JStr ''d24903df8659ee3772297c84994911efe7d21cb8b988320ddc6ddce0431892a1''),
          (''isolation'', JStr ''extbuild_host_constrained''),
          (''network'', JStr ''disabled''),
          (''network_policy_id'', JStr ''none''),
          (''network_policy_sha256'', JStr ''none''),
          (''resource_policy_id'', JStr ''rshr-200-step-287-resource-policy.v1''),
          (''resource_policy_sha256'', JStr ''05d3c7a89185d3c55678d97955193fce2ed92b1eee5af99083d77ea64c98d14e'')]),
      (''environment_names'', JArr (map JStr
         [''EXT_BUILD_CONFIG'', ''EXT_BUILD_MACHINE_CONFIG'', ''EXT_BUILD_ROOT'', ''HOME'', ''PATH'',
          ''RUSTUP_TOOLCHAIN'', ''TMPDIR''])),
      (''gate_definition_sha256'', JStr gate_digest),
      (''required_platforms'', JArr [JStr ''macos_aarch64'']),
      (''required_tools'', JArr [JStr ''rustc'']),
      (''result_schema'', JStr ''radroots.services-hardening.rshr-200-step-check-result.v1''),
      (''schema'', JStr ''radroots.services-hardening.rshr-200-step-check-command.v1''),
      (''step'', JInt 303),
      (''verifier_path'', JStr ''tools/xtask/src/rshr_202_step_303_gate.rs''),
      (''verifier_sha256'', JStr verifier_sha256)]"

section \<open>The gate\<close>

record gate_arguments =
  ga_step :: u16
  ga_check_id :: string
  ga_source_revision :: string
  ga_source_tree :: string
  ga_candidate_digest :: string
  ga_platform :: string
  ga_execution_request_sha256 :: string

definition arguments_ok :: "gate_arguments \<Rightarrow> bool" where
  "arguments_ok a \<longleftrightarrow>
     \<not> (ga_step a \<noteq> 303 \<or> ga_check_id a \<noteq> ''gate-01-'' @ gate_digest \<or> ga_candidate_digest a \<noteq> ''none'' \<or>
        ga_platform a \<noteq> ''macos_aarch64'' \<or> length (ga_source_revision a) \<noteq> 40 \<or> length (ga_source_tree a) \<noteq> 40 \<or>
        length (ga_execution_request_sha256 a) \<noteq> 64 \<or>
        \<not> list_all is_lower_hex (ga_source_revision a @ ga_source_tree a @ ga_execution_request_sha256 a))"

definition require_sources :: "gate_host \<Rightarrow> string + unit" where
  "require_sources H =
     for_each (\<lambda>(relative, expected).
       and_then (map_err (\<lambda>_. ''Step 303 governed source is unreadable'') (gh_read H (rooted H relative))) (\<lambda>bytes.
         ensure (sha256 H bytes = expected) ''Step 303 governed source bytes differ'')) exact_sources"

definition forbidden_texts :: "string list" where
  "forbidden_texts = [''writeShellApplication'', ''git rev-parse'', ''repo_root'', ''devShells'', ''nixosModules'',
     ''aarch64-linux'', ''x86_64-darwin'']"

definition require_flake_source :: "gate_host \<Rightarrow> string + unit" where
  "require_flake_source H =
     and_then (map_err (\<lambda>_. ''Step 303 flake source is unreadable'')
       (and_then (gh_read H (rooted H ''flake.nix'')) from_utf8)) (\<lambda>flake_source.
       for_each (\<lambda>forbidden. ensure (\<not> contains_str forbidden flake_source)
         ''Step 303 checkout wrapper or unowned output is present'') forbidden_texts)"

text \<open>The contract that the authority names, with the digest of the gate's own source.\<close>

definition require_authority :: "gate_host \<Rightarrow> string + string \<times> json" where
  "require_authority H =
     and_then (map_err (\<lambda>_. ''Step 303 verifier is unreadable'')
       (gh_read H (rooted H ''tools/xtask/src/rshr_202_step_303_gate.rs''))) (\<lambda>verifier.
     let verifier_sha256 = sha256 H verifier in
     and_then (map_err (\<lambda>_. ''Step 303 gate authority is unreadable'')
       (gh_read H (rooted H ''contracts/rshr-202-step-303-gates.v1.json''))) (\<lambda>authority_bytes.
     and_then (map_err (\<lambda>_. ''Step 303 gate authority is invalid'') (bc_json (gh_crates H) authority_bytes)) (\<lambda>authority.
     and_then (canonical H authority) (\<lambda>canonical_authority.
     and_then (ok_or ''Step 303 gate contract is absent'' (as_array (jindex authority ''gate_command_contract''))) (\<lambda>contracts.
       if authority_bytes \<noteq> canonical_authority @ [CHR 0x0A] \<or>
          jindex authority ''schema'' \<noteq> JStr ''radroots.radrootsd.rshr-202-step-303-gates.v1'' \<or>
          jindex authority ''step'' \<noteq> JArr [JInt 303] \<or>
          contracts \<noteq> [expected_contract verifier_sha256]
       then Inl ''Step 303 gate authority differs''
       else Inr (verifier_sha256, expected_contract verifier_sha256))))))"

definition gate_result :: "gate_host \<Rightarrow> gate_arguments \<Rightarrow> string \<Rightarrow> json \<Rightarrow> string + json" where
  "gate_result H a verifier_sha256 contract =
     (let assertion = JArr [jobject [(''id'', JStr (''step_303_gate_01_'' @ gate_digest)), (''result'', JStr ''pass'')]] in
      and_then (canonical H contract) (\<lambda>contract_bytes.
      and_then (canonical H assertion) (\<lambda>assertion_bytes. Inr (jobject
        [(''schema'', JStr ''radroots.services-hardening.rshr-200-step-check-result.v1''),
         (''step'', JInt 303),
         (''check_id'', JStr (''gate-01-'' @ gate_digest)),
         (''gate_definition_sha256'', JStr gate_digest),
         (''source_revision'', JStr (ga_source_revision a)),
         (''source_tree'', JStr (ga_source_tree a)),
         (''candidate_generation'', JInt 0),
         (''candidate_digest'', JStr ''none''),
         (''command_contract_sha256'', JStr (sha256 H contract_bytes)),
         (''verifier_sha256'', JStr verifier_sha256),
         (''execution_request'', JArr [jobject [(''platform'', JStr (ga_platform a)),
            (''sha256'', JStr (ga_execution_request_sha256 a))]]),
         (''assertion_inventory_sha256'', JStr (sha256 H assertion_bytes)),
         (''assertion'', assertion),
         (''result'', JStr ''pass'')]))))"

definition cargo_check_args :: "string list" where
  "cargo_check_args = [''+1.97.1'', ''check'', ''--offline'', ''--locked'', ''--workspace'', ''--all-targets'']"

text \<open>What the gate prints when it passes.\<close>

definition gate_run :: "gate_host \<Rightarrow> gate_arguments \<Rightarrow> string + string" where
  "gate_run H a =
     and_then (ensure (arguments_ok a) ''Step 303 gate arguments differ'') (\<lambda>_.
     and_then (ensure (\<not> (gh_exists H (rooted H ''.github'') \<or> gh_exists H (rooted H ''.act'') \<or> gh_exists H (rooted H ''docs'')))
       ''Step 303 forbidden repository root is present'') (\<lambda>_.
     and_then (require_sources H) (\<lambda>_.
     and_then (require_flake_source H) (\<lambda>_.
     and_then (require_authority H) (\<lambda>(verifier_sha256, contract).
     and_then (require_lock H) (\<lambda>_.
     and_then (bounded H ''cargo'' [''+1.97.1'', ''fmt'', ''--all'', ''--'', ''--check''] ''Step 303 formatting'') (\<lambda>_.
     and_then (bounded H ''cargo'' cargo_check_args ''Step 303 Cargo check'') (\<lambda>_.
     and_then (require_nix H) (\<lambda>_.
     and_then (gate_result H a verifier_sha256 contract) (\<lambda>result.
     and_then (canonical H result) (\<lambda>bytes.
       map_ok (\<lambda>_. bytes @ [CHR 0x0A])
         (map_err (\<lambda>_. ''Step 303 result write failed'') (gh_write_stdout H (bytes @ [CHR 0x0A]))))))))))))))"

section \<open>The platform probe\<close>

definition strip_newline :: "string \<Rightarrow> string option" where
  "strip_newline s = (if s \<noteq> [] \<and> last s = CHR 0x0A then Some (butlast s) else None)"

definition uname :: "gate_host \<Rightarrow> string \<Rightarrow> string + string" where
  "uname H flag =
     and_then (map_err (\<lambda>_. ''Step 303 platform probe could not start uname'')
       (gh_output H \<lparr>cm_program = ''/usr/bin/uname'', cm_args = [flag], cm_dir = [], cm_env = []\<rparr>)) (\<lambda>out.
     and_then (ensure (ou_success out \<and> ou_stderr out = []) ''Step 303 platform probe uname failed'') (\<lambda>_.
     and_then (map_err (\<lambda>_. ''Step 303 platform probe uname output is not UTF-8'') (from_utf8 (ou_stdout out))) (\<lambda>shown.
     and_then (ok_or ''Step 303 platform probe uname output differs'' (strip_newline shown)) (\<lambda>v.
       if v = [] \<or> CHR 0x0A \<in> set v \<or> CHR 0x0D \<in> set v then Inl ''Step 303 platform probe uname output differs''
       else Inr v))))"

definition platform_result :: "gate_host \<Rightarrow> string \<Rightarrow> string \<Rightarrow> string \<Rightarrow> string \<Rightarrow> string + json" where
  "platform_result H request kernel_name kernel_release kernel_version =
     (let os_build = jobject [(''kernel_name'', JStr kernel_name), (''kernel_release'', JStr kernel_release),
            (''kernel_version'', JStr kernel_version)];
          passed = (\<lambda>id. jobject [(''id'', JStr id), (''result'', JStr ''pass'')]) in
      map_ok (\<lambda>build_bytes. jobject
        [(''schema'', JStr ''radroots.services-hardening.rshr-200-platform-result.v1''),
         (''platform'', JStr ''macos_aarch64''),
         (''system'', JStr ''aarch64-darwin''),
         (''os_family'', JStr ''macos''),
         (''architecture'', JStr ''aarch64''),
         (''kernel_name'', jindex os_build ''kernel_name''),
         (''kernel_release'', jindex os_build ''kernel_release''),
         (''os_build_sha256'', JStr (sha256 H build_bytes)),
         (''runner_kind'', JStr ''host''),
         (''runner_image_sha256'', JStr ''none''),
         (''apple_toolchain_identity_sha256'', JStr ''fd9bb9af273d0a834c2abff36910edf25f3e5b60c36fcc23b45b738c5c8b2d08''),
         (''probe_source_path'', JStr ''tools/radroots_scripts/src/radroots_scripts/verify/rshr_200_series.py''),
         (''probe_source_sha256'', JStr ''add949c6c20a037123808230625dfd09dd6fa6c5afe5a856400227191f5de5b5''),
         (''execution_request_sha256'', JStr request),
         (''assertion'', JArr (map passed [''os_family'', ''architecture'', ''kernel_identity'', ''runner_identity'', ''apple_identity''])),
         (''result'', JStr ''available'')])
        (map_err (\<lambda>_. ''Step 303 platform JSON encoding failed'') (bc_json_text (gh_crates H) os_build)))"

definition platform_request :: "gate_host \<Rightarrow> string + string" where
  "platform_request H =
     and_then (map_err (\<lambda>_. ''Step 303 platform execution request is unavailable'')
       (gh_read H (rooted H ''.git/rshr-step-303-platform-request-sha256''))) (\<lambda>bytes.
     and_then (map_err (\<lambda>_. ''Step 303 platform execution request is not UTF-8'') (from_utf8 bytes)) (\<lambda>raw.
       let request = (case strip_newline raw of Some s \<Rightarrow> s | None \<Rightarrow> raw) in
       if \<not> lower_hex_of 64 request then Inl ''Step 303 platform execution request differs'' else Inr request))"

definition platform_run :: "gate_host \<Rightarrow> string + string" where
  "platform_run H =
     and_then (platform_request H) (\<lambda>request.
     and_then (uname H ''-s'') (\<lambda>kernel_name.
     and_then (uname H ''-r'') (\<lambda>kernel_release.
     and_then (uname H ''-v'') (\<lambda>kernel_version.
     and_then (ensure (kernel_name = ''Darwin'' \<and> gh_arch H = ''aarch64'') ''Step 303 platform identity differs'') (\<lambda>_.
     and_then (platform_result H request kernel_name kernel_release kernel_version) (\<lambda>result.
     and_then (map_err (\<lambda>_. ''Step 303 platform JSON encoding failed'') (bc_json_text (gh_crates H) result)) (\<lambda>bytes.
       map_ok (\<lambda>_. bytes @ [CHR 0x0A])
         (map_err (\<lambda>_. ''Step 303 platform result write failed'') (gh_write_stdout H (bytes @ [CHR 0x0A]))))))))))"

section \<open>The command line\<close>

record slots =
  sl_step :: "u16 option"
  sl_check_id :: "string option"
  sl_source_revision :: "string option"
  sl_source_tree :: "string option"
  sl_candidate_digest :: "string option"
  sl_platform :: "string option"
  sl_execution_request :: "string option"

definition no_slots :: slots where
  "no_slots = \<lparr>sl_step = None, sl_check_id = None, sl_source_revision = None, sl_source_tree = None,
     sl_candidate_digest = None, sl_platform = None, sl_execution_request = None\<rparr>"

definition split_once :: "char \<Rightarrow> string \<Rightarrow> (string \<times> string) option" where
  "split_once c s = (if c \<notin> set s then None else Some (takeWhile (\<lambda>x. x \<noteq> c) s, tl (dropWhile (\<lambda>x. x \<noteq> c) s)))"

text \<open>\<open>str::parse::<u16>\<close>: digits after at most one plus sign, within the range.\<close>

definition parse_u16 :: "string \<Rightarrow> unit + u16" where
  "parse_u16 s =
     (let digits = (case s of c # rest \<Rightarrow> if c = CHR ''+'' then rest else s | [] \<Rightarrow> []) in
      if digits = [] \<or> \<not> list_all is_ascii_digit digits \<or> 65535 < read_nat digits then Inl ()
      else Inr (of_nat (read_nat digits)))"

definition fill_text :: "string \<Rightarrow> string option \<Rightarrow> (string option \<Rightarrow> slots) \<Rightarrow> unit + slots" where
  "fill_text v slot put = (if v = [] \<or> slot \<noteq> None then Inl () else Inr (put (Some v)))"

definition fill_slot :: "string \<Rightarrow> slots \<Rightarrow> unit + slots" where
  "fill_slot argument s =
     (case split_once CHR ''='' argument of
        None \<Rightarrow> Inl ()
      | Some (name, v) \<Rightarrow>
          if name = ''--check-id'' then fill_text v (sl_check_id s) (\<lambda>x. s\<lparr>sl_check_id := x\<rparr>)
          else if name = ''--source-revision'' then fill_text v (sl_source_revision s) (\<lambda>x. s\<lparr>sl_source_revision := x\<rparr>)
          else if name = ''--source-tree'' then fill_text v (sl_source_tree s) (\<lambda>x. s\<lparr>sl_source_tree := x\<rparr>)
          else if name = ''--candidate-digest'' then fill_text v (sl_candidate_digest s) (\<lambda>x. s\<lparr>sl_candidate_digest := x\<rparr>)
          else if name = ''--platform'' then fill_text v (sl_platform s) (\<lambda>x. s\<lparr>sl_platform := x\<rparr>)
          else if name = ''--execution-request-sha256'' then fill_text v (sl_execution_request s) (\<lambda>x. s\<lparr>sl_execution_request := x\<rparr>)
          else if name = ''--step'' then
            and_then (parse_u16 v) (\<lambda>n. if sl_step s \<noteq> None then Inl () else Inr (s\<lparr>sl_step := Some n\<rparr>))
          else Inl ())"

fun fill_slots :: "string list \<Rightarrow> slots \<Rightarrow> unit + slots" where
  "fill_slots [] s = Inr s"
| "fill_slots (argument # arguments) s = and_then (fill_slot argument s) (fill_slots arguments)"

definition parse_gate_args :: "string list \<Rightarrow> unit + gate_arguments" where
  "parse_gate_args arguments =
     and_then (fill_slots arguments no_slots) (\<lambda>s.
     and_then (ok_or () (sl_step s)) (\<lambda>step.
     and_then (ok_or () (sl_check_id s)) (\<lambda>check_id.
     and_then (ok_or () (sl_source_revision s)) (\<lambda>source_revision.
     and_then (ok_or () (sl_source_tree s)) (\<lambda>source_tree.
     and_then (ok_or () (sl_candidate_digest s)) (\<lambda>candidate_digest.
     and_then (ok_or () (sl_platform s)) (\<lambda>platform.
     and_then (ok_or () (sl_execution_request s)) (\<lambda>execution_request.
       Inr \<lparr>ga_step = step, ga_check_id = check_id, ga_source_revision = source_revision, ga_source_tree = source_tree,
         ga_candidate_digest = candidate_digest, ga_platform = platform,
         ga_execution_request_sha256 = execution_request\<rparr>))))))))"

definition xtask_run :: "gate_host \<Rightarrow> string list \<Rightarrow> unit + string" where
  "xtask_run H arguments =
     (case arguments of
        [] \<Rightarrow> Inl ()
      | name # rest \<Rightarrow>
          if name = ''rshr-step-303-gate'' then
            and_then (parse_gate_args rest) (\<lambda>a. map_err (\<lambda>_. ()) (gate_run H a))
          else if name = ''rshr-step-303-platform-probe'' \<and> rest = [] then map_err (\<lambda>_. ()) (platform_run H)
          else Inl ())"

text \<open>The process: what it leaves of the checkout, what it prints on standard output and error, and its exit code.\<close>

definition xtask_main ::
  "gate_host \<Rightarrow> lock_world \<Rightarrow> string list \<Rightarrow> checkout \<Rightarrow> checkout \<times> string \<times> string \<times> nat" where
  "xtask_main H W arguments co =
     (if arguments \<noteq> [] \<and> hd arguments = ''source-lock'' then
        (case lock_run (gh_crates H) W (tl arguments) co of
           (co', Inl e) \<Rightarrow> (co', [], ''source_lock_failed'' @ [CHR 0x0A], 1)
         | (co', Inr message) \<Rightarrow> (co', message @ [CHR 0x0A], [], 0))
      else case xtask_run H arguments of
        Inl _ \<Rightarrow> (co, [], ''step_303_gate_failed'' @ [CHR 0x0A], 1)
      | Inr printed \<Rightarrow> (co, printed, [], 0))"

section \<open>Which arguments are accepted\<close>

text \<open>An argument by itself, with the name and the value that it gives.\<close>

datatype gate_value = Number u16 | Words string

definition text_names :: "string list" where
  "text_names = [''--check-id'', ''--source-revision'', ''--source-tree'', ''--candidate-digest'', ''--platform'',
     ''--execution-request-sha256'']"

definition read_argument :: "string \<Rightarrow> (string \<times> gate_value) option" where
  "read_argument argument =
     (case split_once CHR ''='' argument of
        None \<Rightarrow> None
      | Some (name, v) \<Rightarrow>
          if name \<in> set text_names then (if v = [] then None else Some (name, Words v))
          else if name = ''--step'' then (case parse_u16 v of Inr n \<Rightarrow> Some (name, Number n) | Inl _ \<Rightarrow> None)
          else None)"

definition slot_map :: "slots \<Rightarrow> string \<rightharpoonup> gate_value" where
  "slot_map s name =
     (if name = ''--check-id'' then map_option Words (sl_check_id s)
      else if name = ''--source-revision'' then map_option Words (sl_source_revision s)
      else if name = ''--source-tree'' then map_option Words (sl_source_tree s)
      else if name = ''--candidate-digest'' then map_option Words (sl_candidate_digest s)
      else if name = ''--platform'' then map_option Words (sl_platform s)
      else if name = ''--execution-request-sha256'' then map_option Words (sl_execution_request s)
      else if name = ''--step'' then map_option Number (sl_step s)
      else None)"

definition arguments_map :: "gate_arguments \<Rightarrow> string \<rightharpoonup> gate_value" where
  "arguments_map a = slot_map \<lparr>sl_step = Some (ga_step a), sl_check_id = Some (ga_check_id a),
     sl_source_revision = Some (ga_source_revision a), sl_source_tree = Some (ga_source_tree a),
     sl_candidate_digest = Some (ga_candidate_digest a), sl_platform = Some (ga_platform a),
     sl_execution_request = Some (ga_execution_request_sha256 a)\<rparr>"

lemma slot_map_inj: "slot_map s = slot_map s' \<Longrightarrow> s = s'"
proof -
  assume eq: "slot_map s = slot_map s'"
  note at = fun_cong [OF eq]
  have inj: "map_option Words x = map_option Words y \<longleftrightarrow> x = y" "map_option Number n = map_option Number m \<longleftrightarrow> n = m" for x y n m
    by (cases x; cases y; simp) (cases n; cases m; simp)
  show ?thesis
    using at [of "''--step''"] at [of "''--check-id''"] at [of "''--source-revision''"] at [of "''--source-tree''"]
      at [of "''--candidate-digest''"] at [of "''--platform''"] at [of "''--execution-request-sha256''"]
    by (simp add: slot_map_def inj)
qed

lemma fill_slot_map:
  "fill_slot argument s = Inr s' \<longleftrightarrow>
     (\<exists>name v. read_argument argument = Some (name, v) \<and> slot_map s name = None \<and> slot_map s' = (slot_map s)(name \<mapsto> v))"
proof (cases "split_once CHR ''='' argument")
  case None
  then show ?thesis by (simp add: fill_slot_def read_argument_def)
next
  case (Some nv)
  obtain name v where nv: "nv = (name, v)" by fastforce
  have worded: ?thesis
    if "name \<in> set text_names" and "fill_slot argument s = fill_text v slot put" and "slot_map s name = map_option Words slot"
      and "slot_map (put (Some v)) = (slot_map s)(name \<mapsto> Words v)" for slot put
    using that slot_map_inj Some by (auto simp: fill_text_def read_argument_def nv split: if_splits)
  note defs = fill_slot_def text_names_def nv Some
  consider (check_id) "name = ''--check-id''" | (revision) "name = ''--source-revision''" | (tree) "name = ''--source-tree''"
    | (candidate) "name = ''--candidate-digest''" | (platform) "name = ''--platform''"
    | (request) "name = ''--execution-request-sha256''" | (step) "name = ''--step''" | (unknown) "name \<notin> set text_names" "name \<noteq> ''--step''" by (auto simp: text_names_def)
  then show ?thesis
  proof cases
    case check_id
    show ?thesis
      by (rule worded [of "sl_check_id s" "\<lambda>x. s\<lparr>sl_check_id := x\<rparr>"]) (simp_all add: defs check_id slot_map_def fun_eq_iff)
  next
    case revision
    show ?thesis
      by (rule worded [of "sl_source_revision s" "\<lambda>x. s\<lparr>sl_source_revision := x\<rparr>"]) (simp_all add: defs revision slot_map_def fun_eq_iff)
  next
    case tree
    show ?thesis
      by (rule worded [of "sl_source_tree s" "\<lambda>x. s\<lparr>sl_source_tree := x\<rparr>"]) (simp_all add: defs tree slot_map_def fun_eq_iff)
  next
    case candidate
    show ?thesis
      by (rule worded [of "sl_candidate_digest s" "\<lambda>x. s\<lparr>sl_candidate_digest := x\<rparr>"]) (simp_all add: defs candidate slot_map_def fun_eq_iff)
  next
    case platform
    show ?thesis
      by (rule worded [of "sl_platform s" "\<lambda>x. s\<lparr>sl_platform := x\<rparr>"]) (simp_all add: defs platform slot_map_def fun_eq_iff)
  next
    case request
    show ?thesis
      by (rule worded [of "sl_execution_request s" "\<lambda>x. s\<lparr>sl_execution_request := x\<rparr>"]) (simp_all add: defs request slot_map_def fun_eq_iff)
  next
    case step
    have put: "slot_map (s\<lparr>sl_step := Some n\<rparr>) = (slot_map s)(''--step'' \<mapsto> Number n)" for n
      by (rule ext) (simp add: slot_map_def)
    have free: "slot_map s ''--step'' = None \<longleftrightarrow> sl_step s = None" by (simp add: slot_map_def)
    show ?thesis
      using Some step put free slot_map_inj
      by (cases "parse_u16 v") (auto simp: fill_slot_def read_argument_def nv text_names_def put [symmetric])
  next
    case unknown
    then show ?thesis using Some by (simp add: fill_slot_def read_argument_def nv text_names_def)
  qed
qed

lemma slot_put:
  assumes "read_argument argument = Some (name, v)"
  shows "\<exists>s'. slot_map s' = (slot_map s)(name \<mapsto> v)"
proof -
  have "(name \<in> set text_names \<and> (\<exists>w. v = Words w)) \<or> (name = ''--step'' \<and> (\<exists>n. v = Number n))"
    using assms by (auto simp: read_argument_def split: option.splits if_splits sum.splits)
  then consider (step) n where "name = ''--step''" "v = Number n" | (worded) w where "name \<in> set text_names" "v = Words w" by blast
  then show ?thesis
  proof cases
    case step
    show ?thesis by (rule exI [of _ "s\<lparr>sl_step := Some n\<rparr>"]) (simp add: step slot_map_def fun_eq_iff)
  next
    case worded
    have put: "slot_map (s\<lparr>sl_check_id := Some w\<rparr>) = (slot_map s)(''--check-id'' \<mapsto> Words w)"
      "slot_map (s\<lparr>sl_source_revision := Some w\<rparr>) = (slot_map s)(''--source-revision'' \<mapsto> Words w)"
      "slot_map (s\<lparr>sl_source_tree := Some w\<rparr>) = (slot_map s)(''--source-tree'' \<mapsto> Words w)"
      "slot_map (s\<lparr>sl_candidate_digest := Some w\<rparr>) = (slot_map s)(''--candidate-digest'' \<mapsto> Words w)"
      "slot_map (s\<lparr>sl_platform := Some w\<rparr>) = (slot_map s)(''--platform'' \<mapsto> Words w)"
      "slot_map (s\<lparr>sl_execution_request := Some w\<rparr>) = (slot_map s)(''--execution-request-sha256'' \<mapsto> Words w)"
      by (simp_all add: slot_map_def fun_eq_iff)
    show ?thesis using worded put by (simp add: text_names_def) blast
  qed
qed

lemma fill_slots_map:
  "fill_slots arguments s = Inr s' \<longleftrightarrow>
     (\<exists>ps. map read_argument arguments = map Some ps \<and> distinct (map fst ps) \<and>
        (\<forall>name \<in> fst ` set ps. slot_map s name = None) \<and> slot_map s' = slot_map s ++ map_of ps)"
proof (induction arguments arbitrary: s)
  case Nil
  show ?case using slot_map_inj by auto
next
  case (Cons argument arguments)
  show ?case (is "_ \<longleftrightarrow> ?right")
  proof
    assume "fill_slots (argument # arguments) s = Inr s'"
    then obtain s1 where first: "fill_slot argument s = Inr s1" and rest: "fill_slots arguments s1 = Inr s'"
      by (auto simp: and_then_eq_Inr)
    obtain name v where nv: "read_argument argument = Some (name, v)" "slot_map s name = None" "slot_map s1 = (slot_map s)(name \<mapsto> v)"
      using first fill_slot_map by auto
    obtain ps where ps: "map read_argument arguments = map Some ps" "distinct (map fst ps)"
        "\<forall>n \<in> fst ` set ps. slot_map s1 n = None" "slot_map s' = slot_map s1 ++ map_of ps"
      using rest Cons.IH by auto
    have fresh: "name \<notin> fst ` set ps" using ps(3) nv(3) by auto
    then have "slot_map s' = slot_map s ++ map_of ((name, v) # ps)"
      using ps(4) nv(3) by (auto simp: map_add_upd_left dom_map_of_conv_image_fst)
    moreover have "\<forall>n \<in> fst ` set ps. slot_map s n = None" using ps(3) nv(3) fresh by (auto split: if_splits)
    moreover have "map read_argument (argument # arguments) = map Some ((name, v) # ps)" "distinct (map fst ((name, v) # ps))"
      using nv(1) ps(1,2) fresh by simp_all
    moreover have "slot_map s name = None" by (rule nv(2))
    ultimately show ?right by (intro exI [of _ "(name, v) # ps"] conjI) (assumption | simp)+
  next
    assume ?right
    then obtain qs where qs: "map read_argument (argument # arguments) = map Some qs" "distinct (map fst qs)"
        "\<forall>n \<in> fst ` set qs. slot_map s n = None" "slot_map s' = slot_map s ++ map_of qs" by blast
    obtain name v ps where split: "qs = (name, v) # ps" using qs(1) by (cases qs) auto
    have nv: "read_argument argument = Some (name, v)" using qs(1) split by simp
    have ps: "map read_argument arguments = map Some ps" "distinct (map fst ps)" "name \<notin> fst ` set ps"
        "slot_map s name = None" "\<forall>n \<in> fst ` set ps. slot_map s n = None"
      using qs(1-3) split by simp_all
    have joined: "slot_map s' = slot_map s ++ map_of ((name, v) # ps)" using qs(4) split by simp
    obtain s0 where "slot_map s0 = (slot_map s)(name \<mapsto> v)" using slot_put [OF nv] by blast
    then have "\<exists>s1. fill_slot argument s = Inr s1" using fill_slot_map nv ps(4) by blast
    then obtain s1 where first: "fill_slot argument s = Inr s1" by blast
    then have s1: "slot_map s1 = (slot_map s)(name \<mapsto> v)" using fill_slot_map nv by auto
    have "slot_map s' = slot_map s1 ++ map_of ps"
      unfolding joined s1 using ps(3) by (auto simp: map_add_upd_left dom_map_of_conv_image_fst)
    moreover have "\<forall>n \<in> fst ` set ps. slot_map s1 n = None" using ps(3,5) by (auto simp: s1)
    ultimately have "fill_slots arguments s1 = Inr s'"
      using ps(1,2) by (intro Cons.IH [THEN iffD2] exI [of _ ps] conjI) assumption+
    then show "fill_slots (argument # arguments) s = Inr s'" by (simp add: first)
  qed
qed

definition gate_names :: "string list" where
  "gate_names = ''--step'' # text_names"

lemma parse_gate_args_slots:
  "parse_gate_args arguments = Inr a \<longleftrightarrow> (\<exists>s. fill_slots arguments no_slots = Inr s \<and> slot_map s = arguments_map a)"
proof -
  have "(\<exists>step check_id source_revision source_tree candidate_digest platform execution_request.
      s = \<lparr>sl_step = Some step, sl_check_id = Some check_id, sl_source_revision = Some source_revision,
        sl_source_tree = Some source_tree, sl_candidate_digest = Some candidate_digest, sl_platform = Some platform,
        sl_execution_request = Some execution_request\<rparr> \<and>
      a = \<lparr>ga_step = step, ga_check_id = check_id, ga_source_revision = source_revision, ga_source_tree = source_tree,
        ga_candidate_digest = candidate_digest, ga_platform = platform, ga_execution_request_sha256 = execution_request\<rparr>)
      \<longleftrightarrow> slot_map s = arguments_map a" for s
    by (cases a) (auto simp: arguments_map_def dest: slot_map_inj)
  note exact = this
  have "parse_gate_args arguments = Inr a \<longleftrightarrow> (\<exists>s. fill_slots arguments no_slots = Inr s \<and> (\<exists>step check_id source_revision source_tree
      candidate_digest platform execution_request.
      s = \<lparr>sl_step = Some step, sl_check_id = Some check_id, sl_source_revision = Some source_revision,
        sl_source_tree = Some source_tree, sl_candidate_digest = Some candidate_digest, sl_platform = Some platform,
        sl_execution_request = Some execution_request\<rparr> \<and>
      a = \<lparr>ga_step = step, ga_check_id = check_id, ga_source_revision = source_revision, ga_source_tree = source_tree,
        ga_candidate_digest = candidate_digest, ga_platform = platform, ga_execution_request_sha256 = execution_request\<rparr>))"
    by (cases "fill_slots arguments no_slots") (auto simp: parse_gate_args_def and_then_eq_Inr ok_or_eq_Inr)
  then show ?thesis by (simp only: exact)
qed

text \<open>C24. The gate's command line takes each of its seven arguments exactly once, in any order, and nothing else:
  the parser succeeds exactly on the lists whose items are readable by themselves, no name twice and
  every name there, and its result has the values that stand after the names.\<close>

theorem gate_arguments_exact:
  "parse_gate_args arguments = Inr a \<longleftrightarrow>
     (\<exists>ps. map read_argument arguments = map Some ps \<and> distinct (map fst ps) \<and> set (map fst ps) = set gate_names \<and>
        map_of ps = arguments_map a)"
proof -
  have none: "slot_map no_slots = Map.empty" by (simp add: slot_map_def no_slots_def fun_eq_iff)
  have dom: "dom (arguments_map a) = set gate_names"
    by (auto simp: arguments_map_def slot_map_def gate_names_def text_names_def split: if_splits)
  have "parse_gate_args arguments = Inr a \<longleftrightarrow> (\<exists>ps. map read_argument arguments = map Some ps \<and> distinct (map fst ps) \<and>
      (\<exists>s. slot_map s = map_of ps \<and> slot_map s = arguments_map a))"
    unfolding parse_gate_args_slots fill_slots_map none by auto
  also have "\<dots> \<longleftrightarrow> (\<exists>ps. map read_argument arguments = map Some ps \<and> distinct (map fst ps) \<and> map_of ps = arguments_map a)"
    by (auto simp: arguments_map_def)
  also have "\<dots> \<longleftrightarrow> (\<exists>ps. map read_argument arguments = map Some ps \<and> distinct (map fst ps) \<and>
      set (map fst ps) = set gate_names \<and> map_of ps = arguments_map a)"
    using dom by (metis dom_map_of_conv_image_fst list.set_map)
  finally show ?thesis .
qed

section \<open>What a passed gate says\<close>

lemma ensure_eq_Inr: "ensure ok e = Inr u \<longleftrightarrow> ok"
  by (simp add: ensure_def)

lemma for_each_eq_Inr: "for_each body xs = Inr u \<longleftrightarrow> (\<forall>x \<in> set xs. body x = Inr ())"
  by (induction xs) (auto simp: and_then_eq_Inr)

lemmas gate_eqs = and_then_eq_Inr map_err_eq_Inr map_ok_eq_Inr ok_or_eq_Inr ensure_eq_Inr for_each_eq_Inr

definition command_gave :: "gate_host \<Rightarrow> string \<Rightarrow> string list \<Rightarrow> command_output \<Rightarrow> bool" where
  "command_gave H program args out \<longleftrightarrow> gh_output H \<lparr>cm_program = program, cm_args = args, cm_dir = gh_root H,
     cm_env = [(''CARGO_NET_OFFLINE'', ''true''), (''CARGO_TERM_COLOR'', ''never'')]\<rparr> = Inr out"

lemma bounded_gave: "bounded H program args label = Inr out \<Longrightarrow> command_gave H program args out \<and> ou_success out"
  by (auto simp: bounded_def execute_def command_gave_def gate_eqs split: if_splits)

lemma rejected_gave: "rejected H program args label = Inr u \<Longrightarrow> \<exists>out. command_gave H program args out \<and> \<not> ou_success out"
  by (auto simp: rejected_def execute_def command_gave_def gate_eqs split: if_splits)

lemma require_nixE:
  assumes "require_nix H = Inr u"
  obtains executable client where "resolve_nix H = Inr executable" "gh_read H executable = Inr client" "sha256 H client = nix_sha256"
    "\<exists>out. command_gave H executable [''--offline'', ''flake'', ''check'', ''--all-systems'', ''--no-build'', ''--no-write-lock-file''] out \<and> ou_success out"
    "\<And>system. system \<in> {''x86_64-darwin'', ''aarch64-linux'', ''x86_64-windows''} \<Longrightarrow>
      \<exists>out. command_gave H executable [''--offline'', ''eval'', ''--raw'', ''.#packages.'' @ system @ ''.default.name''] out \<and> \<not> ou_success out"
proof -
  obtain executable client out where nix: "resolve_nix H = Inr executable" "gh_read H executable = Inr client" "sha256 H client = nix_sha256"
    and check: "bounded H executable [''--offline'', ''flake'', ''check'', ''--all-systems'', ''--no-build'', ''--no-write-lock-file'']
      ''Step 303 Nix evaluation'' = Inr out" and outputs: "require_outputs H executable = Inr ()"
    using assms by (auto simp: require_nix_def gate_eqs)
  have "for_each (\<lambda>system. rejected H executable [''--offline'', ''eval'', ''--raw'', ''.#packages.'' @ system @ ''.default.name'']
         ''Step 303 excluded-system evaluation'') [''x86_64-darwin'', ''aarch64-linux'', ''x86_64-windows''] = Inr ()"
    using outputs unfolding require_outputs_def and_then_eq_Inr by auto
  then have excluded: "\<exists>out. command_gave H executable [''--offline'', ''eval'', ''--raw'', ''.#packages.'' @ system @ ''.default.name''] out \<and> \<not> ou_success out"
    if "system \<in> {''x86_64-darwin'', ''aarch64-linux'', ''x86_64-windows''}" for system
    unfolding for_each_eq_Inr using that rejected_gave by auto
  show thesis by (rule that [OF nix _ excluded]) (use bounded_gave [OF check] in blast)
qed

lemma jindex_jobject: "distinct (map fst members) \<Longrightarrow> jindex (jobject members) key = jindex (JObj members) key"
proof -
  assume d: "distinct (map fst members)"
  have "map_of (sort_key fst members) = map_of members"
    by (subst map_of_inject_set) (use d in \<open>simp_all add: distinct_map\<close>)
  then show ?thesis by (simp add: jobject_def)
qed

lemma gate_result_names:
  assumes "gate_result H a verifier contract = Inr result"
  shows "jindex result ''source_revision'' = JStr (ga_source_revision a) \<and> jindex result ''source_tree'' = JStr (ga_source_tree a) \<and>
    jindex result ''result'' = JStr ''pass''"
  using assms by (auto simp: gate_result_def Let_def and_then_eq_Inr jindex_jobject)


fun nibble :: "char \<Rightarrow> nat" where
  "nibble c = (if is_ascii_digit c then of_char c - 48 else of_char c - 87)"

fun unhex :: "string \<Rightarrow> string" where
  "unhex (a # b # rest) = char_of (16 * nibble a + nibble b) # unhex rest"
| "unhex s = []"

definition sample_sha256 :: "string \<Rightarrow> string" where
  "sample_sha256 b = (case map_of (exact_sources @ [(''client'', nix_sha256), (''version'', nix_version_sha256)]) b of
     Some hex \<Rightarrow> unhex hex | None \<Rightarrow> replicate 32 CHR 0x00)"

definition sample_authority :: json where
  "sample_authority = jobject [(''gate_command_contract'', JArr [expected_contract (replicate 64 CHR ''0'')]),
     (''schema'', JStr ''radroots.radrootsd.rshr-202-step-303-gates.v1''), (''step'', JArr [JInt 303])]"

definition sample_flake_lock :: json where
  "sample_flake_lock = JObj [(''nodes'', JObj
     [(''lib'', JObj [(''locked'', JObj [(''rev'', JStr lib_revision)]), (''original'', JObj [(''rev'', JStr lib_revision)])]),
      (''root'', JObj [(''inputs'', JObj [(''lib'', JStr ''lib'')])])])]"

definition sample_inventory :: json where
  "sample_inventory =
     (let systems = (\<lambda>member v. JObj (map (\<lambda>system. (system, JObj [(''default'', JObj [(member, JStr v)])])) output_systems)) in
      JObj [(''apps'', systems ''description'' ''Run the built radrootsd daemon''), (''checks'', systems ''name'' ''radrootsd-check-1''),
        (''packages'', systems ''name'' ''radrootsd-0.1.0'')])"

definition sample_gate_crates :: build_crates where
  "sample_gate_crates =
     \<lparr>bc_sha256 = sample_sha256,
      bc_json = (\<lambda>t. if t = ''flake.lock'' then Inr sample_flake_lock else if t = ''inventory'' then Inr sample_inventory
        else if t = ''authority'' @ [CHR 0x0A] then Inr sample_authority else Inl ()),
      bc_json_text = (\<lambda>v. Inr (if v = sample_authority then ''authority'' else ''{}'')),
      bc_lock = (\<lambda>_. Inl ()), bc_lock_text = (\<lambda>_. Inl ())\<rparr>"

definition sample_gate_host :: gate_host where
  "sample_gate_host =
     \<lparr>gh_root = [], gh_exists = (\<lambda>_. False), gh_is_file = (\<lambda>_. True),
      gh_read = (\<lambda>p. if p = ''nix'' then Inr ''client'' else if p = ''contracts/rshr-202-step-303-gates.v1.json''
        then Inr (''authority'' @ [CHR 0x0A]) else Inr p),
      gh_canonicalize = Inr, gh_env = (\<lambda>n. if n = ''RSHR_NIX_EXECUTABLE'' then Some ''nix'' else None),
      gh_output = (\<lambda>c. Inr \<lparr>ou_success = ''eval'' \<notin> set (cm_args c),
        ou_stdout = (if cm_args c = [''--version''] then ''version'' else if ''show'' \<in> set (cm_args c) then ''inventory'' else []),
        ou_stderr = []\<rparr>),
      gh_write_stdout = (\<lambda>_. Inr ()), gh_arch = ''aarch64'', gh_crates = sample_gate_crates\<rparr>"

definition sample_gate_arguments :: gate_arguments where
  "sample_gate_arguments =
     \<lparr>ga_step = 303, ga_check_id = ''gate-01-'' @ gate_digest, ga_source_revision = replicate 40 CHR ''a'',
      ga_source_tree = replicate 40 CHR ''b'', ga_candidate_digest = ''none'', ga_platform = ''macos_aarch64'',
      ga_execution_request_sha256 = replicate 64 CHR ''c''\<rparr>"

lemma lower_hex_nibble:
  assumes "is_lower_hex c"
  shows "hex_digit (nibble c) = c" "nibble c < 16"
proof -
  have "of_char c \<in> set ([48..<58] @ [97..<103] :: nat list)"
  proof -
    have "(48 \<le> (of_char c :: nat) \<and> (of_char c :: nat) \<le> 57) \<or> (97 \<le> (of_char c :: nat) \<and> (of_char c :: nat) \<le> 102)"
      using assms by (simp add: is_lower_hex_def is_ascii_digit_def less_eq_char_def)
    then show ?thesis by (simp only: set_append set_upt Un_iff atLeastLessThan_iff) linarith
  qed
  then have "c \<in> set (map char_of ([48..<58] @ [97..<103] :: nat list))"
    by (metis char_of_char image_eqI set_map)
  moreover have "list_all (\<lambda>c. hex_digit (nibble c) = c \<and> nibble c < 16) (map char_of ([48..<58] @ [97..<103] :: nat list))"
    by code_simp
  ultimately show "hex_digit (nibble c) = c" "nibble c < 16" by (simp_all only: list_all_iff)
qed

lemma hex_encode_unhex: "list_all is_lower_hex s \<Longrightarrow> even (length s) \<Longrightarrow> hex_encode (unhex s) = s"
proof (induction s rule: unhex.induct)
  case (1 a b rest)
  then have lower: "is_lower_hex a" "is_lower_hex b" by simp_all
  have "16 * nibble a + nibble b < 256" using lower_hex_nibble(2) [OF lower(1)] lower_hex_nibble(2) [OF lower(2)] by linarith
  then have "of_char (char_of (16 * nibble a + nibble b) :: char) = 16 * nibble a + nibble b" by simp
  then have "hex_encode (unhex (a # b # rest)) = [hex_digit (nibble a), hex_digit (nibble b)] @ hex_encode (unhex rest)"
    using lower_hex_nibble(2) [OF lower(2)] by (simp add: hex_encode_def)
  then show ?case using 1 lower_hex_nibble(1) [OF lower(1)] lower_hex_nibble(1) [OF lower(2)] by simp
qed (simp_all add: hex_encode_def)

lemma sample_gate_digests:
  "\<And>path hex. (path, hex) \<in> set exact_sources \<Longrightarrow> digest sample_gate_crates path = hex"
  "digest sample_gate_crates ''client'' = nix_sha256" "digest sample_gate_crates ''version'' = nix_version_sha256"
  "digest sample_gate_crates ''tools/xtask/src/rshr_202_step_303_gate.rs'' = replicate 64 CHR ''0''"
proof -
  have known: "digest sample_gate_crates b = hex" if "map_of (exact_sources @ [(''client'', nix_sha256), (''version'', nix_version_sha256)]) b = Some hex" for b hex
  proof -
    have "list_all (\<lambda>(b, hex). list_all is_lower_hex hex \<and> length hex = 64) (exact_sources @ [(''client'', nix_sha256), (''version'', nix_version_sha256)])"
      by code_simp
    then have "list_all is_lower_hex hex" "length hex = 64" using map_of_SomeD [OF that] by (auto simp: list_all_iff simp del: set_append)
    then show ?thesis using that by (simp add: digest_def sample_gate_crates_def sample_sha256_def hex_encode_unhex)
  qed
  show "\<And>path hex. (path, hex) \<in> set exact_sources \<Longrightarrow> digest sample_gate_crates path = hex"
    by (rule known) (auto simp: exact_sources_def)
  show "digest sample_gate_crates ''client'' = nix_sha256" "digest sample_gate_crates ''version'' = nix_version_sha256"
    by (rule known, simp add: exact_sources_def)+
  have "hex_encode (replicate 32 CHR 0x00) = replicate 64 CHR ''0''" by code_simp
  then show "digest sample_gate_crates ''tools/xtask/src/rshr_202_step_303_gate.rs'' = replicate 64 CHR ''0''"
    by (simp add: digest_def sample_gate_crates_def sample_sha256_def exact_sources_def)
qed


lemma sample_gate_parts: "gh_crates sample_gate_host = sample_gate_crates" "rooted sample_gate_host p = p"
  "gh_read sample_gate_host ''nix'' = Inr ''client''"
  "gh_read sample_gate_host ''contracts/rshr-202-step-303-gates.v1.json'' = Inr (''authority'' @ [CHR 0x0A])"
  "p \<noteq> ''nix'' \<Longrightarrow> p \<noteq> ''contracts/rshr-202-step-303-gates.v1.json'' \<Longrightarrow> gh_read sample_gate_host p = Inr p"
  by (simp_all add: sample_gate_host_def rooted_def join_path_def)

lemma sample_gate_json:
  "bc_json sample_gate_crates ''flake.lock'' = Inr sample_flake_lock" "bc_json sample_gate_crates ''inventory'' = Inr sample_inventory"
  "bc_json sample_gate_crates (''authority'' @ [CHR 0x0A]) = Inr sample_authority"
  "bc_json_text sample_gate_crates sample_authority = Inr ''authority''" "\<exists>t. bc_json_text sample_gate_crates v = Inr t"
  by (simp_all add: sample_gate_crates_def)

lemma sample_arguments_ok: "arguments_ok sample_gate_arguments" by code_simp

lemma sample_sources: "require_sources sample_gate_host = Inr ()"
proof -
  have "gh_read sample_gate_host path = Inr path" if "(path, hex) \<in> set exact_sources" for path hex
    using that by (auto simp: exact_sources_def sample_gate_parts)
  then show ?thesis
    unfolding require_sources_def for_each_eq_Inr
    by (auto simp: sample_gate_parts(1,2) sample_gate_digests(1) ensure_def)
qed

lemma sample_flake_source: "require_flake_source sample_gate_host = Inr ()"
proof -
  have "from_utf8 ''flake.nix'' = Inr ''flake.nix''" by (simp add: from_utf8_def)
  moreover have "list_all (\<lambda>forbidden. \<not> contains_str forbidden ''flake.nix'') forbidden_texts" by code_simp
  ultimately show ?thesis
    by (simp add: require_flake_source_def sample_gate_parts for_each_eq_Inr ensure_def list_all_iff)
qed

lemma sample_flake_locked: "require_lock sample_gate_host = Inr ()"
  by (simp add: require_lock_def sample_gate_parts sample_gate_json sample_flake_lock_def)

lemma sample_execute:
  "execute sample_gate_host program args label = Inr \<lparr>ou_success = ''eval'' \<notin> set args,
     ou_stdout = (if args = [''--version''] then ''version'' else if ''show'' \<in> set args then ''inventory'' else []), ou_stderr = []\<rparr>"
  by (simp add: execute_def sample_gate_host_def max_output_bytes_def)

lemma sample_gate_authority: "require_authority sample_gate_host = Inr (replicate 64 CHR ''0'', expected_contract (replicate 64 CHR ''0''))"
proof -
  have "distinct (map fst [(''gate_command_contract'', JArr [expected_contract (replicate 64 CHR ''0'')]),
     (''schema'', JStr ''radroots.radrootsd.rshr-202-step-303-gates.v1''), (''step'', JArr [JInt 303])])" by simp
  then have "jindex sample_authority ''gate_command_contract'' = JArr [expected_contract (replicate 64 CHR ''0'')]"
    "jindex sample_authority ''schema'' = JStr ''radroots.radrootsd.rshr-202-step-303-gates.v1''"
    "jindex sample_authority ''step'' = JArr [JInt 303]"
    by (simp_all add: sample_authority_def jindex_jobject)
  then show ?thesis
    using sample_gate_parts(5) [of "''tools/xtask/src/rshr_202_step_303_gate.rs''"]
    by (simp add: require_authority_def Let_def sample_gate_parts(1,2,4) sample_gate_json(3) [simplified] sample_gate_json(4) sample_gate_digests(4) canonical_def)
qed

lemma sample_outputs: "require_outputs sample_gate_host ''nix'' = Inr ()"
proof -
  have root: "keys_are sample_inventory label [''apps'', ''checks'', ''packages''] e = Inr ()" for label e
    by (simp add: keys_are_def sample_inventory_def Let_def ensure_def)
  have families: "for_each (\<lambda>family. keys_are (jindex sample_inventory family) family output_systems (e family)) [''apps'', ''checks'', ''packages''] = Inr ()" for e
    by (simp add: keys_are_def sample_inventory_def Let_def ensure_def output_systems_def)
  have systems: "for_each (require_system sample_inventory) output_systems = Inr ()"
    by (simp add: output_systems_def require_system_def keys_are_def sample_inventory_def Let_def ensure_def)
  show ?thesis
    by (simp add: require_outputs_def bounded_def sample_execute sample_gate_parts(1) sample_gate_json(2) root families systems
        rejected_def del: for_each.simps keys_are_def) (simp add: rejected_def sample_execute)
qed

lemma sample_nix: "require_nix sample_gate_host = Inr ()"
proof -
  have "resolve_nix sample_gate_host = Inr ''nix''" by (simp add: resolve_nix_def sample_gate_host_def)
  then show ?thesis
    by (simp add: require_nix_def sample_gate_parts(1,3) sample_gate_digests(2,3) ensure_def bounded_def sample_execute sample_outputs)
qed

lemma sample_gate_passes: "\<exists>printed. gate_run sample_gate_host sample_gate_arguments = Inr printed"
proof -
  have json: "\<exists>t. canonical sample_gate_host v = Inr t" for v
    using sample_gate_json(5) [of v] by (auto simp: canonical_def sample_gate_parts(1))
  obtain result where result: "gate_result sample_gate_host sample_gate_arguments (replicate 64 CHR ''0'')
      (expected_contract (replicate 64 CHR ''0'')) = Inr result"
  proof -
    obtain c assertion where "canonical sample_gate_host (expected_contract (replicate 64 CHR ''0'')) = Inr c"
      "canonical sample_gate_host (JArr [jobject [(''id'', JStr (''step_303_gate_01_'' @ gate_digest)), (''result'', JStr ''pass'')]]) = Inr assertion"
      using json by meson
    then show thesis using that by (simp add: gate_result_def Let_def)
  qed
  obtain bytes where bytes: "canonical sample_gate_host result = Inr bytes" using json by blast
  have "bounded sample_gate_host ''cargo'' args label = Inr \<lparr>ou_success = True, ou_stdout = [], ou_stderr = []\<rparr>"
    if "args \<in> {[''+1.97.1'', ''fmt'', ''--all'', ''--'', ''--check''], cargo_check_args}" for args label
    using that by (auto simp: bounded_def sample_execute cargo_check_args_def)
  moreover have "\<not> gh_exists sample_gate_host p" "gh_write_stdout sample_gate_host t = Inr ()" for p t
    by (simp_all add: sample_gate_host_def)
  ultimately show ?thesis
    by (simp add: gate_run_def ensure_def sample_arguments_ok sample_sources sample_flake_source sample_gate_authority sample_flake_locked sample_nix result bytes)
qed


text \<open>A governed file that has changed since the gate was written fails the gate, whatever the arguments say.\<close>

theorem changed_source_fails_gate:
  assumes "(path, expected) \<in> set exact_sources" and "gh_read H (rooted H path) = Inr bytes" and "sha256 H bytes \<noteq> expected"
  shows "\<exists>error. gate_run H a = Inl error"
proof (cases "gate_run H a")
  case (Inr printed)
  then have "require_sources H = Inr ()" by (auto simp: gate_run_def and_then_eq_Inr)
  then have "\<forall>x \<in> set exact_sources. (\<lambda>(relative, expected).
       and_then (map_err (\<lambda>_. ''Step 303 governed source is unreadable'') (gh_read H (rooted H relative))) (\<lambda>bytes.
         ensure (sha256 H bytes = expected) ''Step 303 governed source bytes differ'')) x = Inr ()"
    unfolding require_sources_def for_each_eq_Inr .
  from bspec [OF this assms(1)] show ?thesis using assms(2,3) by (simp add: ensure_def)
qed blast

end
