(* ===== verification/Spec2Isabelle.thy ===== *)
theory Spec2Isabelle
  imports Daemon_Runtime Publish_Concurrency Build_Gate
begin

text \<open>
  A model of \<open>radrootsd\<close>, a Nostr service daemon: it publishes signed events of its principals to
  relays and keeps what became of them, acts as a NIP-46 remote signer for its clients, and uses
  remote signers of others, all behind a JSON-RPC server; and of \<open>tools/xtask\<close>, which guards its sources.  Paths
  below are under \<open>src/src/\<close>, those of the build tool under \<open>src/\<close>.

  \<^bold>\<open>The parts, in the order the theories have them.\<close>

  \<^item> \<open>Prelude\<close>: results as sums (\<open>and_then\<close>, \<open>map_err\<close>, \<open>ok_or\<close>: Rust's \<open>?\<close>, \<open>map_err\<close>, \<open>ok_or\<close>), the string
    operations of the standard library that the code uses, saturating arithmetic, the collection
    \<open>result_eqs\<close>.
  \<^item> \<open>Nostr_Connect\<close>, \<open>Nip46_Session\<close>, \<open>Nip46_Listener\<close>, \<open>Nip46_Rpc\<close>: the NIP-46 messages; the session store of
    \<open>core/nip46/session.rs\<close>; the signer of \<open>transport/nostr/listener.rs\<close>, whose state is the record
    \<open>radrootsd\<close>; the JSON-RPC methods of \<open>transport/jsonrpc/methods/nip46\<close> with the connection URLs and the
    requests to remote signers of \<open>transport/jsonrpc/nip46\<close>.
  \<^item> \<open>Daemon_Config\<close>, \<open>Runtime_Paths\<close>, \<open>Daemon_Settings\<close>: \<open>app/config.rs\<close> and \<open>app/paths.rs\<close>.
  \<^item> \<open>Jsonrpc\<close>: errors, the registry and the server's filter (\<open>transport/jsonrpc/error.rs\<close>, \<open>registry.rs\<close>, \<open>server.rs\<close>).
  \<^item> \<open>Relay_Publish\<close>: the adapter of \<open>transport/relay_publish.rs\<close>.
  \<^item> \<open>Publish_Protocol\<close>, \<open>Publish_Principal\<close>, \<open>Publish_Delivery\<close>, \<open>Publish_Store\<close>, \<open>Store_Properties\<close>, \<open>Store_Schema\<close>,
    \<open>Publish_Targets\<close>, \<open>Publish_Engine\<close>: \<open>core/transport_publish.rs\<close>, from the requests and the scopes of
    principals over the status of a delivery, the database and its schema, and the choice of relays to
    \<open>publish_event\<close>.  The record \<open>database\<close> holds the rows of the five tables, with the constraints of the
    schema as errors of the insertions; \<open>store_file\<close> adds the catalog that the schema validation reads.
  \<^item> \<open>Publish_Steps\<close>, \<open>Publish_Concurrency\<close>: \<open>publish_event\<close> again, for calls beside one another.  \<open>task_step\<close> takes a call
    from one point where others can come in (an \<open>await\<close>, or between two holdings of the lock of the
    connection) to the next, on the store, the semaphore and the log of attempts that calls share (\<open>shared\<close>);
    \<open>pool_step\<close> interleaves any number of calls with arrivals, dropped calls and restarts.
  \<^item> \<open>Publish_Rpc\<close>: authorization and the publish methods (\<open>transport/jsonrpc/auth.rs\<close>,
    \<open>methods/transport_publish.rs\<close>, \<open>methods/mod.rs\<close>).
  \<^item> \<open>Identity_Storage\<close>: \<open>app/identity_storage.rs\<close>, on files with their permissions.
  \<^item> \<open>Daemon_Runtime\<close>: \<open>app/runtime.rs\<close>, \<open>app/cli.rs\<close>, \<open>core/state.rs\<close>, \<open>transport/jsonrpc/mod.rs\<close> and \<open>main.rs\<close>, on a
    \<open>machine\<close> of files and databases.
  \<^item> \<open>Build_Source_Lock\<close>, \<open>Build_Gate\<close>: \<open>tools/xtask/src\<close>: the lock of the shared sources (\<open>source_lock.rs\<close>), on a checkout
    that others may change meanwhile; the gate, the platform probe and the command line
    (\<open>rshr_202_step_303_gate.rs\<close>, \<open>rshr_202_step_303_platform.rs\<close>, \<open>main.rs\<close>), on a \<open>gate_host\<close> of files and commands.

  \<^bold>\<open>How the code is rendered.\<close>  A method on shared state is a function from the state to the new state
  and its result; every early return, \<open>?\<close> and panic is a branch.  A lock that is held over a whole method makes
  the method one step; where the code releases it between two steps, or runs statements outside a
  transaction, the steps are separate definitions, and \<open>reachable_db\<close> has the states after a crash
  between them.  Clocks, random values, what the network answers and which file operation fails are
  arguments.  Integers keep their width where the code relies on it (\<open>u32\<close>, \<open>u64\<close>); \<open>usize\<close> is \<open>nat\<close>, and the
  columns of SQLite are \<open>int\<close> with the range checks of the code.

  \<^bold>\<open>Parameters.\<close>  The crates that are not part of the repository are fields of records:
  \<open>nostr_crate\<close>, \<open>publish_crates\<close>, \<open>transport_nostr_crate\<close>, \<open>codecs\<close>, \<open>secret_crates\<close>, \<open>profile_crate\<close>,
  \<open>presence_crates\<close>, \<open>host\<close>, \<open>build_crates\<close>, \<open>gate_host\<close>.  What the theorems ask of them is named: \<open>codecs_ok\<close> (JSON reads back what it wrote),
  \<open>texts_ok\<close> (a relay URL has one text), \<open>adapter_ok\<close> (a receipt for every relay of the set), \<open>secrets_ok\<close> and
  \<open>sealing_ok\<close> (decryption after encryption, an envelope opens for who can unwrap its key), \<open>build_crates_ok\<close> (TOML reads
  back what it wrote, SHA-256 has 32 bytes).  The samples
  (\<open>sample_crate\<close>, \<open>sample_publish\<close>, \<open>sample_codecs\<close>, \<open>sample_secrets\<close>, \<open>sample_host\<close>,
  \<open>sample_build\<close>) satisfy them, and the witnesses
  run the definitions on them.

  \<^bold>\<open>Interfaces.\<close>  \<open>session_touch\<close> (operations that change one live session), \<open>key_operation\<close> (requests that use
  the daemon's key), \<open>response_wait\<close> (the three waiting loops), \<open>unique_table\<close> (insertion under a key),
  \<open>resolution_step\<close> (steps of the choice of relays), \<open>receipt_source\<close> (what ends an attempt), \<open>key_wrapping\<close> (what
  sealing needs), \<open>interleaved\<close> (tasks that step beside one another on a shared state, each of which keeps what the
  others rely on); each is interpreted on the definitions of the code that provide it.

  \<^bold>\<open>What is shown.\<close>  Sessions: the store refines a map of live sessions, a connect secret is won once,
  permissions never grow, the signer uses its key only for a session that permits it, and serves on after
  every event.  Remote signers: every call returns, and a signature is checked before it is believed.
  Store: the constraints and the types of all rows in every state a run can leave, the equivalence of the
  schema validation with a declarative description of the schema, reopening, recovery, round trips of jobs
  and principals.  Publishing: only authorized events, only checked relays, an answer for every target,
  once for each key, delivered exactly when the policy is met.  Calls beside one another: the steps of a
  call that is alone are \<open>publish_event\<close>; in every interleaving, with dropped calls and restarts, no job and no
  key of a principal is attempted twice, permits are neither lost nor made, a job that reads as being
  published has its call, every call returns; and a dropped call leaves its job unfinished.  Process: the identity survives restarts, an
  issued token is good, a daemon that serves is able to, and the failures that leave something behind
  (interrupted schema, short key file, orphaned principal, a command beside a running daemon).  Build tool: a
  refreshed lock is current and only its digest has changed, a refresh leaves a checkout that changed
  meanwhile alone, a checked lock pins what is built; the gate takes each argument once, and passes only when
  its files, tools and outputs are those it names.

  \<^bold>\<open>Bounds.\<close>  No definition has fuel: waiting loops recurse on the list of what the receiver delivers, which ends
  with the timer, and the notification loop on the list of notifications.  Twelve steps answer a call
  (\<open>call_returns\<close>), and \<open>pool_step\<close> bounds neither the calls nor the restarts.

  \<^bold>\<open>What the pool of calls allows.\<close>  More than the daemon does: a call may be dropped at any of its points,
  although the future of a call can only be dropped where it awaits; a process may die inside a
  transition (\<open>left_behind\<close>), with any of the database states a crash can leave; relays and clocks answer every step
  anew.  The invariants hold for all of these.  Another process on the same database, such as the
  command that creates a principal, is not part of the pool (\<open>command_interrupts_running_jobs\<close> says what it does).

  \<^bold>\<open>Not modelled.\<close>  SQLite beyond the rows, the constraints, \<open>INSERT OR REPLACE\<close>, the order of \<open>SELECT\<close> and the
  answers of its PRAGMA statements; the parsers of TOML, JSON, URLs and the command line; TLS, sockets, relays,
  threads and the tokio runtime; logging; \<open>host_nostr.rs\<close>, whose functions pass their arguments on;
  \<open>jsonrpc/params.rs\<close> and \<open>context.rs\<close>, a constant and the handle of the state; the test code and its hooks; what cargo,
  nix and uname print.  The middleware and \<open>start_server\<close> are modelled as far as they are the
  daemon's: the filter of notifications, the limits, the authorization of a request.
\<close>

section \<open>From the command line to a request\<close>

lemma replace_principals: "db_principals (fst (replace_target_outcomes K k ts now d)) = db_principals d"
proof -
  have "db_principals (fst (insert_results K k ts now d)) = db_principals d" for d
    by (induction K k ts now d rule: insert_results.induct)
      (auto simp: replace_result_def result_eqs split: sum.split if_splits)
  then show ?thesis by (simp add: replace_target_outcomes_def delete_results_def)
qed

lemma recover_principals: "db_principals (fst (recover_interrupted_publish_jobs P K now d)) = db_principals d"
proof -
  have one: "db_principals (fst (recover_job P K now row d)) = db_principals d" for row d
    by (auto simp: recover_job_def Let_def replace_principals update_job_def split: sum.split)
  have "db_principals (fst (recover_jobs P K now rows d)) = db_principals d" for rows d
  proof (induction rows arbitrary: d)
    case (Cons row rows)
    show ?case using one [of row d] Cons.IH by (auto split: prod.split sum.split)
  qed simp
  then show ?thesis by (simp add: recover_interrupted_publish_jobs_def split: sum.split)
qed

lemma authorize_frame:
  assumes "db_principals d' = db_principals d"
  shows "authorize_transport_publish_request P K now header d' = authorize_transport_publish_request P K now header d"
proof -
  have "principal_for_token_hash K now d' h = principal_for_token_hash K now d h" for h
    by (simp add: principal_for_token_hash_def assms)
  then show ?thesis unfolding authorize_transport_publish_request_def by (simp only:)
qed

lemma opened_principals:
  assumes "open_store os P K now path M = (M', Inr ())" and "mc_stores M path = Some f"
  shows "\<exists>f'. mc_stores M' path = Some f' \<and> db_principals (sf_data f') = db_principals (sf_data f)"
proof -
  obtain f0 f' where "connect_sqlite os path M = Inr f0" and conn: "from_connection P K now f0 = (f', Inr ())"
    and M': "M' = M\<lparr>mc_stores := (mc_stores M)(path \<mapsto> f')\<rparr>"
    using open_store_ok [OF assms(1)] by blast
  then have "f0 = f" using assms(2) by (simp add: connect_sqlite_def split: if_splits)
  then have "db_principals (sf_data f') = db_principals (sf_data f)"
    using conn recover_principals [of P K now "sf_data f"] by (auto simp: from_connection_def split: prod.splits sum.splits)
  then show ?thesis by (simp add: M')
qed

lemma serving_store:
  assumes "run_daemon H dr M = (M', Inr (Serving r))"
    and "mc_stores M (tp_database_path (tb_config (ru_publish r))) = Some f"
  shows "\<exists>f'. mc_stores M' (tp_database_path (tb_config (ru_publish r))) = Some f' \<and>
    db_principals (sf_data f') = db_principals (sf_data f)"
proof -
  from assms(1) obtain args s identity M1 rt where "load_args_and_settings H M = Inr (Some (args, s))"
    and "validate_settings (ho_profile H) s = Inr ()" and identity: "daemon_identity H dr (ca_service args) M = (M1, Inr identity)"
    and opened: "new_radrootsd H (dr_opened_at dr) identity (st_transport_publish s) (st_nip46 s) M1 = (M', Inr rt)"
    and served: "start_service H s rt = Inr r" by (rule servingE)
  let ?path = "tp_database_path (st_transport_publish s)"
  have "ru_publish r = snd rt" using served by (auto simp: start_service_def and_then_eq_Inr map_ok_eq_Inr)
  moreover have "tb_config (snd rt) = st_transport_publish s"
    and store: "open_store (ho_io H) (ho_publish H) (ho_codecs H) (dr_opened_at dr) ?path M1 = (M', Inr ())"
    using opened by (auto simp: new_radrootsd_def Let_def map_ok_eq_Inr split: prod.splits)
  moreover have "mc_stores M1 = mc_stores M"
    using identity by (auto simp: daemon_identity_def split: sum.splits prod.splits)
  ultimately show ?thesis using opened_principals [OF store] assms(2) by simp
qed

text \<open>C18. A token that was issued is good for the daemon that starts afterwards: when the command created
  a principal, and a daemon then serves from the same database, whatever jobs it had to recover, a
  request with the token in the token file is authorized by every publish method as the principal
  that was printed.\<close>

theorem issued_token_good_after_start:
  assumes "codecs_ok (ho_codecs H)"
    and "handle_command os (ho_publish H) (ho_codecs H) dr (PrincipalInit a) s M = (M1, Inr out)"
    and "run_daemon H dr' M1 = (M2, Inr (Serving r))"
    and "tp_database_path (tb_config (ru_publish r)) = out_database_path out"
  shows "\<exists>token f p. mc_files M1 (pa_token_file a) = Some \<lparr>fl_bytes = token @ [CHR 0x0A], fl_mode = 384\<rparr> \<and>
    mc_stores M2 (out_database_path out) = Some f \<and> pp_principal_id p = out_principal_id out \<and>
    require_publish_principal (Some (authorize_transport_publish_request (ho_publish H) (ho_codecs H) now
      (Some (''Bearer '' @ token)) (sf_data f))) = Inr p"
proof -
  let ?P = "ho_publish H" and ?K = "ho_codecs H" and ?path = "tp_database_path (st_transport_publish s)"
  have path: "out_database_path out = ?path"
    using assms(2) by (auto simp: handle_command_def Let_def map_ok_eq_Inr split: prod.splits sum.splits)
  from assms(2) obtain Mx i f d p where
    i: "principal_init_of ?P (hash_bearer_token ?P (bearer_token (dr_token_bytes dr))) a = Inr i"
    and made: "create_principal ?P ?K (dr_principal_id dr) (dr_created_at dr) i (sf_data f) = (d, Inr p)"
    and token: "mc_files M1 (pa_token_file a) = Some \<lparr>fl_bytes = bearer_token (dr_token_bytes dr) @ [CHR 0x0A], fl_mode = 384\<rparr>"
    and stored: "mc_stores M1 ?path = Some (f\<lparr>sf_data := d\<rparr>)" and out: "out_principal_id out = pp_principal_id p"
    by (rule commandE)
  have "principal_for_token_hash ?K now d (hash_bearer_token ?P (bearer_token (dr_token_bytes dr))) = Inr (Some p)"
    using created_principal_lookup [OF assms(1) made, of now] principal_init_of_fields(1,2) [OF i] by simp
  note authorized = found_authorizes [OF this]
  obtain f' where f': "mc_stores M2 ?path = Some f'" "db_principals (sf_data f') = db_principals d"
    using serving_store [OF assms(3), unfolded assms(4) path, OF stored] by auto
  show ?thesis
    using token out f'(1) authorized authorize_frame [OF f'(2), of ?P ?K now] path
    by (intro exI [of _ "bearer_token (dr_token_bytes dr)"] exI [of _ f'] exI [of _ p]) (simp add: require_publish_principal_def)
qed

theorem issued_token_good_after_start_witness:
  "\<exists>M1 M2 r f p. run_daemon sample_host sample_draws M1 = (M2, Inr (Serving r)) \<and> mc_stores M2 ''db'' = Some f \<and>
    mc_files M1 ''token'' = Some \<lparr>fl_bytes = bearer_token ''0123'' @ [CHR 0x0A], fl_mode = 384\<rparr> \<and>
    require_publish_principal (Some (authorize_transport_publish_request sample_publish sample_codecs 99
      (Some (''Bearer '' @ bearer_token ''0123'')) (sf_data f))) = Inr p"
proof -
  obtain d out where run: "handle_command sample_io sample_publish sample_codecs sample_draws (PrincipalInit sample_command)
     sample_settings sample_machine = (handled_machine d, Inr out)" and db: "out_database_path out = ''db''"
    and reach: "reachable_db sample_publish sample_codecs d" using sample_handled by blast
  let ?M = "handled_machine d"
  have files: "mc_files ?M ''config'' = Some \<lparr>fl_bytes = ''toml'', fl_mode = 420\<rparr>"
      "mc_files ?M ''id'' = None" "mc_files ?M ''id.key'' = None"
    by (simp_all add: handled_machine_def)
  obtain d' where "recover_interrupted_publish_jobs sample_publish sample_codecs 5 d = (d', Inr ())"
    using recover_total [OF sample_codecs_ok reachable_readable [OF reach sample_codecs_ok]] by (metis prod.collapse)
  then have "\<exists>M'. open_store sample_io sample_publish sample_codecs 5 ''db''
      (?M\<lparr>mc_files := mc_files ?M ++ identity_files\<rparr>) = (M', Inr ())"
    by (simp add: open_store_def connect_sqlite_def sample_io_def handled_machine_def from_connection_def prepare_again)
  then obtain M2 r where serves: "run_daemon sample_host sample_draws ?M = (M2, Inr (Serving r))"
    and path: "tp_database_path (tb_config (ru_publish r)) = ''db''" using sample_serves [OF files] by blast
  have crates: "ho_publish sample_host = sample_publish" "ho_codecs sample_host = sample_codecs" by (simp_all add: sample_host_def)
  have "tp_database_path (tb_config (ru_publish r)) = out_database_path out" by (simp add: path db)
  from issued_token_good_after_start [of sample_host, unfolded crates, OF sample_codecs_ok run serves this, of 99]
  obtain token f p where token: "mc_files ?M (pa_token_file sample_command) = Some \<lparr>fl_bytes = token @ [CHR 0x0A], fl_mode = 384\<rparr>"
    and good: "mc_stores M2 (out_database_path out) = Some f" "require_publish_principal (Some
      (authorize_transport_publish_request sample_publish sample_codecs 99 (Some (''Bearer '' @ token)) (sf_data f))) = Inr p"
    by blast
  have "token = bearer_token ''0123''" using token by (simp add: handled_machine_def sample_command_def)
  moreover have "mc_files ?M ''token'' = Some \<lparr>fl_bytes = bearer_token ''0123'' @ [CHR 0x0A], fl_mode = 384\<rparr>"
    by (simp add: handled_machine_def)
  ultimately show ?thesis using serves good db by (intro exI conjI) (assumption | simp)+
qed

end
